theory Spec2Isabelle
  imports Complex_Main
begin

section \<open>Numbers, arrays and error codes\<close>

text \<open>
  The embedding follows \<^verbatim>\<open>src/wbacon_reg.c\<close> and \<^verbatim>\<open>src/fitwls.c\<close>.

  \<^item> A C \<^verbatim>\<open>double\<close> is a \<open>real\<close>, except in the rank-one update and downdate of the
    Cholesky factor (see the next section): arithmetic is exact, there is no rounding.
    Comparisons and the operations applied are those of the source.
  \<^item> A C \<^verbatim>\<open>int\<close> is an \<open>int\<close>; dimensions \<open>n\<close> and \<open>p\<close> are \<open>nat\<close>. Signed overflow
    (undefined in C) is not modelled.
  \<^item> An array is a list; matrices are stored column-major as in the source, so entry
    \<open>(i, j)\<close> of an \<open>n \<times> p\<close> matrix is at index \<open>i + j * n\<close>.
  \<^item> A function that writes through its pointer arguments returns the new contents.
  \<^item> An index that is a loop counter below the array's dimension is read with \<open>!\<close>;
    an index that comes from data (\<open>m\<close>, an entry of \<open>iarray\<close>) is checked, and an
    access out of range (undefined in C) is the value \<open>None\<close>.
  \<^item> Console output (\<^verbatim>\<open>PRINT_OUT\<close>, the \<^verbatim>\<open>verbose\<close> flag, the debug printing) has
    no effect on the results and is left out.
\<close>

datatype wbacon_error_type =
    WBACON_ERROR_OK
  | WBACON_ERROR_RANK_DEFICIENT
  | WBACON_ERROR_CONVERGENCE_FAILURE
  | WBACON_ERROR_TRIANG_MAT_SINGULAR

definition POWER2 :: "'a::times \<Rightarrow> 'a" where
  "POWER2 x = x * x"

definition DBL_EPSILON :: real where
  "DBL_EPSILON = 1 / 2 ^ 52"

definition Memcpy :: "'a list \<Rightarrow> 'a list \<Rightarrow> nat \<Rightarrow> 'a list" where
  "Memcpy dst src k = take k src @ drop k dst"

definition array_get :: "'a list \<Rightarrow> int \<Rightarrow> 'a option" where
  "array_get xs i = (if 0 \<le> i \<and> i < int (length xs) then Some (xs ! nat i) else None)"

definition array_set :: "'a list \<Rightarrow> int \<Rightarrow> 'a \<Rightarrow> 'a list option" where
  "array_set xs i v = (if 0 \<le> i \<and> i < int (length xs) then Some (xs[nat i := v]) else None)"

section \<open>Doubles with infinities and NaN\<close>

text \<open>
  \<^verbatim>\<open>chol_update\<close> and \<^verbatim>\<open>chol_downdate\<close> divide by a diagonal entry of the factor and by
  a quotient that may both be zero, and the downdate compares the outcome with zero. A
  division by zero is not an error in C: with IEEE 754 arithmetic (Annex F of the C
  standard) it gives an infinity or a NaN, which the later operations and the comparison
  \<^verbatim>\<open>a < 0.0\<close> then see. For these two functions a \<^verbatim>\<open>double\<close> is therefore a finite
  real, the negative zero, an infinity or NaN. \<open>Finite 0\<close> is the positive zero.
  Arithmetic on finite values is exact (no rounding, overflow or underflow); the special
  cases are those of IEEE 754.
\<close>

datatype double = Finite real | NegZero | PosInf | NegInf | NaN

fun is_finite :: "double \<Rightarrow> bool" where
  "is_finite (Finite r) = True"
| "is_finite NegZero = True"
| "is_finite PosInf = False"
| "is_finite NegInf = False"
| "is_finite NaN = False"

fun is_inf :: "double \<Rightarrow> bool" where
  "is_inf (Finite r) = False"
| "is_inf NegZero = False"
| "is_inf PosInf = True"
| "is_inf NegInf = True"
| "is_inf NaN = False"

fun is_zero :: "double \<Rightarrow> bool" where
  "is_zero (Finite r) = (r = 0)"
| "is_zero NegZero = True"
| "is_zero PosInf = False"
| "is_zero NegInf = False"
| "is_zero NaN = False"

text \<open>The sign bit, and the real number a finite double stands for.\<close>

fun sign_bit :: "double \<Rightarrow> bool" where
  "sign_bit (Finite r) = (r < 0)"
| "sign_bit NegZero = True"
| "sign_bit PosInf = False"
| "sign_bit NegInf = True"
| "sign_bit NaN = False"

fun value_of :: "double \<Rightarrow> real" where
  "value_of (Finite r) = r"
| "value_of NegZero = 0"
| "value_of PosInf = 0"
| "value_of NegInf = 0"
| "value_of NaN = 0"

definition zero_signed :: "bool \<Rightarrow> double" where
  "zero_signed negative = (if negative then NegZero else Finite 0)"

definition inf_signed :: "bool \<Rightarrow> double" where
  "inf_signed negative = (if negative then NegInf else PosInf)"

text \<open>
  The operators \<^verbatim>\<open>+\<close>, \<^verbatim>\<open>-\<close>, \<^verbatim>\<open>*\<close>, \<^verbatim>\<open>/\<close>, \<^verbatim>\<open><\<close> and \<^verbatim>\<open><=\<close> of C on doubles.

  \<^item> Any operation on a NaN gives NaN, any comparison with a NaN is false.
  \<^item> \<open>\<infinity> - \<infinity>\<close>, \<open>0 * \<infinity>\<close>, \<open>0 / 0\<close> and \<open>\<infinity> / \<infinity>\<close> are NaN.
  \<^item> A nonzero finite value divided by a zero is an infinity; the sign of a product or
    quotient is the exclusive or of the signs of the operands.
  \<^item> A sum of finite values that is zero is the positive zero, unless both summands are
    the negative zero. A difference is the sum with the negated subtrahend.
  \<^item> The two zeros are equal.
\<close>

instantiation double :: "{zero, one, uminus, plus, minus, times, inverse, ord}"
begin

definition zero_double :: double where
  "zero_double = Finite 0"

definition one_double :: double where
  "one_double = Finite 1"

definition uminus_double :: "double \<Rightarrow> double" where
  "uminus_double x =
     (case x of
        Finite r \<Rightarrow> if r = 0 then NegZero else Finite (- r)
      | NegZero \<Rightarrow> Finite 0
      | PosInf \<Rightarrow> NegInf
      | NegInf \<Rightarrow> PosInf
      | NaN \<Rightarrow> NaN)"

definition plus_double :: "double \<Rightarrow> double \<Rightarrow> double" where
  "plus_double x y =
     (if x = NaN \<or> y = NaN then NaN
      else if is_inf x then (if is_inf y \<and> y \<noteq> x then NaN else x)
      else if is_inf y then y
      else if x = NegZero \<and> y = NegZero then NegZero
      else Finite (value_of x + value_of y))"

definition minus_double :: "double \<Rightarrow> double \<Rightarrow> double" where
  "minus_double x y = x + (- y)"

definition times_double :: "double \<Rightarrow> double \<Rightarrow> double" where
  "times_double x y =
     (if x = NaN \<or> y = NaN then NaN
      else if is_inf x \<or> is_inf y
        then (if is_zero x \<or> is_zero y then NaN else inf_signed (sign_bit x \<noteq> sign_bit y))
      else if value_of x * value_of y = 0 then zero_signed (sign_bit x \<noteq> sign_bit y)
      else Finite (value_of x * value_of y))"

definition divide_double :: "double \<Rightarrow> double \<Rightarrow> double" where
  "divide_double x y =
     (if x = NaN \<or> y = NaN then NaN
      else if is_inf x then (if is_inf y then NaN else inf_signed (sign_bit x \<noteq> sign_bit y))
      else if is_inf y then zero_signed (sign_bit x \<noteq> sign_bit y)
      else if is_zero y then (if is_zero x then NaN else inf_signed (sign_bit x \<noteq> sign_bit y))
      else if value_of x = 0 then zero_signed (sign_bit x \<noteq> sign_bit y)
      else Finite (value_of x / value_of y))"

definition inverse_double :: "double \<Rightarrow> double" where
  "inverse_double x = divide (Finite 1) x"

definition less_double :: "double \<Rightarrow> double \<Rightarrow> bool" where
  "less_double x y \<longleftrightarrow>
     x \<noteq> NaN \<and> y \<noteq> NaN \<and>
     (if is_inf x \<or> is_inf y then x \<noteq> y \<and> (x = NegInf \<or> y = PosInf)
      else value_of x < value_of y)"

definition less_eq_double :: "double \<Rightarrow> double \<Rightarrow> bool" where
  "less_eq_double x y \<longleftrightarrow>
     x \<noteq> NaN \<and> y \<noteq> NaN \<and>
     (if is_inf x \<or> is_inf y then x = NegInf \<or> y = PosInf
      else value_of x \<le> value_of y)"

instance ..

end

text \<open>
  \<^verbatim>\<open>sqrt\<close> and \<^verbatim>\<open>hypot\<close> of the C library: the square root of a negative value is NaN,
  that of a zero is the same zero; \<^verbatim>\<open>hypot\<close> is \<open>+\<infinity>\<close> when an argument is infinite, even
  if the other is NaN.
\<close>

fun dsqrt :: "double \<Rightarrow> double" where
  "dsqrt (Finite r) = (if r < 0 then NaN else Finite (sqrt r))"
| "dsqrt NegZero = NegZero"
| "dsqrt PosInf = PosInf"
| "dsqrt NegInf = NaN"
| "dsqrt NaN = NaN"

definition hypot :: "double \<Rightarrow> double \<Rightarrow> double" where
  "hypot x y =
     (if is_inf x \<or> is_inf y then PosInf
      else if x = NaN \<or> y = NaN then NaN
      else Finite (sqrt ((value_of x)\<^sup>2 + (value_of y)\<^sup>2)))"

text \<open>
  Where an array of doubles goes back to the part of the program that is modelled over
  the reals: \<open>finite_array\<close> gives the real numbers when every entry is finite, and
  \<open>None\<close> otherwise.
\<close>

definition finite_array :: "double list \<Rightarrow> real list option" where
  "finite_array ds = (if list_all is_finite ds then Some (map value_of ds) else None)"

section \<open>Rank-one update and downdate of the Cholesky factor\<close>

text \<open>The loop over \<open>j\<close> of \<^verbatim>\<open>chol_update\<close>: the off-diagonal entries of column \<open>i\<close>.\<close>

function chol_update_col ::
  "nat \<Rightarrow> nat \<Rightarrow> double \<Rightarrow> double \<Rightarrow> nat \<Rightarrow> double list \<Rightarrow> double list \<Rightarrow> double list \<times> double list" where
  "chol_update_col p i b c j L u =
     (if j < p then
        let L1 = L[p * i + j := L ! (p * i + j) + c * u ! j];
            L2 = L1[p * i + j := L1 ! (p * i + j) / b];
            u1 = u[j := b * u ! j - c * L2 ! (p * i + j)]
        in chol_update_col p i b c (j + 1) L2 u1
      else (L, u))"
  by pat_completeness auto
termination
  by (relation "measure (\<lambda>(p, i, b, c, j, L, u). p - j)") auto

declare chol_update_col.simps [simp del]

text \<open>The loop over \<open>i\<close> of \<^verbatim>\<open>chol_update\<close> (\<^verbatim>\<open>i < p - 1\<close>).\<close>

function chol_update_loop ::
  "nat \<Rightarrow> nat \<Rightarrow> double list \<Rightarrow> double list \<Rightarrow> double list \<times> double list" where
  "chol_update_loop p i L u =
     (if i + 1 < p then
        let tmp = L ! (i * (p + 1));
            a = hypot tmp (u ! i);
            b = a / tmp;
            c = u ! i / tmp;
            L1 = L[i * (p + 1) := a];
            (L2, u2) = chol_update_col p i b c (i + 1) L1 u
        in chol_update_loop p (i + 1) L2 u2
      else (L, u))"
  by pat_completeness auto
termination
  by (relation "measure (\<lambda>(p, i, L, u). p - i)") auto

declare chol_update_loop.simps [simp del]

definition chol_update :: "double list \<Rightarrow> double list \<Rightarrow> nat \<Rightarrow> double list \<times> double list" where
  "chol_update L u p =
     (let (L1, u1) = chol_update_loop p 0 L u
      in (L1[p * p - 1 := dsqrt (POWER2 (L1 ! (p * p - 1)) + POWER2 (u1 ! (p - 1)))], u1))"

text \<open>The loop over \<open>j\<close> of \<^verbatim>\<open>chol_downdate\<close>.\<close>

function chol_downdate_col ::
  "nat \<Rightarrow> nat \<Rightarrow> double \<Rightarrow> double \<Rightarrow> nat \<Rightarrow> double list \<Rightarrow> double list \<Rightarrow> double list \<times> double list" where
  "chol_downdate_col p i b c j L u =
     (if j < p then
        let L1 = L[p * i + j := L ! (p * i + j) - c * u ! j];
            L2 = L1[p * i + j := L1 ! (p * i + j) / b];
            u1 = u[j := b * u ! j - c * L2 ! (p * i + j)]
        in chol_downdate_col p i b c (j + 1) L2 u1
      else (L, u))"
  by pat_completeness auto
termination
  by (relation "measure (\<lambda>(p, i, b, c, j, L, u). p - j)") auto

declare chol_downdate_col.simps [simp del]

text \<open>
  One column step of \<^verbatim>\<open>chol_downdate\<close> once the test \<^verbatim>\<open>a < 0.0\<close> has been passed:
  the square root, the rotation scalars, the diagonal entry and the column.
\<close>

definition chol_downdate_step ::
  "nat \<Rightarrow> nat \<Rightarrow> double \<Rightarrow> double list \<Rightarrow> double list \<Rightarrow> double list \<times> double list" where
  "chol_downdate_step p i a L u =
     (let tmp = L ! (i * (p + 1));
          a' = dsqrt a;
          b = a' / tmp;
          c = u ! i / tmp;
          L1 = L[i * (p + 1) := a']
      in chol_downdate_col p i b c (i + 1) L1 u)"

text \<open>The loop over \<open>i\<close> of \<^verbatim>\<open>chol_downdate\<close>, with its early return.\<close>

function chol_downdate_loop ::
  "nat \<Rightarrow> nat \<Rightarrow> double list \<Rightarrow> double list \<Rightarrow> wbacon_error_type \<times> double list \<times> double list" where
  "chol_downdate_loop p i L u =
     (if i + 1 < p then
        let tmp = L ! (i * (p + 1));
            a = POWER2 tmp - POWER2 (u ! i)
        in if a < 0 then (WBACON_ERROR_RANK_DEFICIENT, L, u)
           else
             let (L2, u2) = chol_downdate_step p i a L u
             in chol_downdate_loop p (i + 1) L2 u2
      else (WBACON_ERROR_OK, L, u))"
  by pat_completeness auto
termination
  by (relation "measure (\<lambda>(p, i, L, u). p - i)") auto

declare chol_downdate_loop.simps [simp del]

definition chol_downdate ::
  "double list \<Rightarrow> double list \<Rightarrow> nat \<Rightarrow> wbacon_error_type \<times> double list \<times> double list" where
  "chol_downdate L u p =
     (let (err, L1, u1) = chol_downdate_loop p 0 L u
      in if err \<noteq> WBACON_ERROR_OK then (err, L1, u1)
         else
           let a = POWER2 (L1 ! (p * p - 1)) - POWER2 (u1 ! (p - 1))
           in if a < 0 then (WBACON_ERROR_RANK_DEFICIENT, L1, u1)
              else (WBACON_ERROR_OK, L1[p * p - 1 := dsqrt a], u1))"


text \<open>
  The trace of the downdate, for stating what it tests: \<open>downdate_quantity p i L u\<close> is
  the squared diagonal entry minus the squared update-vector entry that column step \<open>i\<close>
  computes in the state \<open>(L, u)\<close>; \<open>downdate_state p i k s\<close> is the state reached from
  \<open>s\<close> by the column steps \<open>i, ..., i + k - 1\<close>; \<open>step_quantity p L u k\<close> is the
  quantity of column step \<open>k\<close> of a call on \<open>(L, u)\<close>. Step \<open>p - 1\<close> is the last
  statement pair of the source, index \<open>p * p - 1 = (p - 1) * (p + 1)\<close>.
\<close>

definition downdate_quantity :: "nat \<Rightarrow> nat \<Rightarrow> double list \<Rightarrow> double list \<Rightarrow> double" where
  "downdate_quantity p i L u = POWER2 (L ! (i * (p + 1))) - POWER2 (u ! i)"

primrec downdate_state :: "nat \<Rightarrow> nat \<Rightarrow> nat \<Rightarrow> double list \<times> double list \<Rightarrow> double list \<times> double list" where
  "downdate_state p i 0 s = s"
| "downdate_state p i (Suc k) s =
     downdate_state p (Suc i) k
       (case s of (L, u) \<Rightarrow> chol_downdate_step p i (downdate_quantity p i L u) L u)"

definition quantity_from :: "nat \<Rightarrow> nat \<Rightarrow> double list \<times> double list \<Rightarrow> nat \<Rightarrow> double" where
  "quantity_from p i s k = (case downdate_state p i k s of (Lk, uk) \<Rightarrow> downdate_quantity p (i + k) Lk uk)"

definition step_quantity :: "nat \<Rightarrow> double list \<Rightarrow> double list \<Rightarrow> nat \<Rightarrow> double" where
  "step_quantity p L u k = quantity_from p 0 (L, u) k"

section \<open>The data, the estimate and the work arrays\<close>

text \<open>
  The structs \<^verbatim>\<open>regdata\<close> and \<^verbatim>\<open>estimate\<close> are declared in headers that are not among
  the sources; their fields are the ones the two C files read and write. \<^verbatim>\<open>workarray\<close>
  is declared in \<^verbatim>\<open>wbacon_reg.c\<close>.
\<close>

record regdata =
  dat_n :: nat
  dat_p :: nat
  dat_x :: "real list"
  dat_y :: "real list"
  dat_w :: "real list"
  dat_wx :: "real list"
  dat_wy :: "real list"
  dat_w_sqrt :: "real list"

record estimate =
  est_resid :: "real list"
  est_beta :: "real list"
  est_dist :: "real list"
  est_L :: "real list"
  est_xty :: "real list"
  est_sigma :: real

record workarray =
  work_lwork :: int
  work_iarray :: "int list"
  work_p :: "double list"
  work_n :: "real list"
  work_np :: "real list"
  work_pp :: "real list"
  work_dgels_work :: "real list"

section \<open>Moving the Cholesky factor and the cross-product vector to a new subset\<close>

text \<open>
  The loops over \<open>j\<close> of \<^verbatim>\<open>update_chol_xty\<close>: row \<open>i\<close> of the design matrix, scaled, goes
  to \<^verbatim>\<open>xtx_update\<close>, and its contribution is added to (first pass) or subtracted from
  (second pass) \<^verbatim>\<open>xty\<close>. \<^verbatim>\<open>xtx_update\<close> (the array \<^verbatim>\<open>work_p\<close>) is handed to
  \<^verbatim>\<open>chol_update\<close> and \<^verbatim>\<open>chol_downdate\<close> and is an array of doubles.
\<close>

definition xty_add_row :: "regdata \<Rightarrow> nat \<Rightarrow> double list \<times> real list \<Rightarrow> double list \<times> real list" where
  "xty_add_row dat i =
     fold (\<lambda>j (xtx_update, xty).
            (xtx_update[j := Finite (dat_x dat ! (i + j * dat_n dat) * sqrt (dat_w dat ! i))],
             xty[j := xty ! j + dat_x dat ! (i + j * dat_n dat) * dat_y dat ! i * dat_w dat ! i]))
       [0..<dat_p dat]"

definition xty_sub_row :: "regdata \<Rightarrow> nat \<Rightarrow> double list \<times> real list \<Rightarrow> double list \<times> real list" where
  "xty_sub_row dat at_i =
     fold (\<lambda>j (xtx_update, xty).
            (xtx_update[j := Finite (dat_x dat ! (at_i + j * dat_n dat) * sqrt (dat_w dat ! at_i))],
             xty[j := xty ! j - dat_x dat ! (at_i + j * dat_n dat) * dat_y dat ! at_i * dat_w dat ! at_i]))
       [0..<dat_p dat]"

text \<open>
  The first pass: an observation entering the subset updates \<open>L\<close> and \<open>xty\<close> at once, one
  leaving it is pushed on the stack. The state is
  \<open>(L, xty, xtx_update, stack, n_update, n_downdate)\<close>.
\<close>

definition update_chol_xty_first_pass ::
  "regdata \<Rightarrow> int list \<Rightarrow> int list \<Rightarrow>
   double list \<times> real list \<times> double list \<times> int list \<times> nat \<times> nat \<Rightarrow>
   double list \<times> real list \<times> double list \<times> int list \<times> nat \<times> nat" where
  "update_chol_xty_first_pass dat subset0 subset1 =
     fold (\<lambda>i (L, xty, xtx_update, stack, n_update, n_downdate).
            if subset1 ! i > subset0 ! i then
              let (xtx1, xty1) = xty_add_row dat i (xtx_update, xty);
                  (L1, xtx2) = chol_update L xtx1 (dat_p dat)
              in (L1, xty1, xtx2, stack, n_update + 1, n_downdate)
            else if subset1 ! i < subset0 ! i then
              (L, xty, xtx_update, stack[n_downdate := int i], n_update, n_downdate + 1)
            else (L, xty, xtx_update, stack, n_update, n_downdate))
       [0..<dat_n dat]"

text \<open>
  One downdate of the second pass: the body of its loop up to the test of the error code,
  for the observation \<open>at_i\<close> taken from the stack. The state is \<open>(L, xty, xtx_update)\<close>.
\<close>

definition downdate_row ::
  "regdata \<Rightarrow> nat \<Rightarrow> double list \<times> real list \<times> double list \<Rightarrow>
   wbacon_error_type \<times> double list \<times> real list \<times> double list" where
  "downdate_row dat at_i = (\<lambda>(L, xty, xtx_update).
     let (xtx1, xty1) = xty_sub_row dat at_i (xtx_update, xty);
         (err, L1, xtx2) = chol_downdate L xtx1 (dat_p dat)
     in (err, L1, xty1, xtx2))"

text \<open>
  The second pass, over the stack, with the early return of the source: when a downdate
  fails, \<open>L\<close> and \<open>xty\<close> are copied back from \<^verbatim>\<open>work_pp\<close> and \<^verbatim>\<open>work_np\<close> and the error
  is returned.
\<close>

function update_chol_xty_second_pass ::
  "regdata \<Rightarrow> real list \<Rightarrow> real list \<Rightarrow> int list \<Rightarrow> nat \<Rightarrow> nat \<Rightarrow>
   double list \<times> real list \<times> double list \<Rightarrow>
   wbacon_error_type \<times> double list \<times> real list \<times> double list" where
  "update_chol_xty_second_pass dat wpp wnp stack n_downdate i s =
     (if i < n_downdate then
        let (err, L1, xty1, xtx2) = downdate_row dat (nat (stack ! i)) s
        in if err \<noteq> WBACON_ERROR_OK then
             (err, Memcpy L1 (map Finite wpp) (dat_p dat * dat_p dat), Memcpy xty1 wnp (dat_p dat),
              xtx2)
           else update_chol_xty_second_pass dat wpp wnp stack n_downdate (i + 1) (L1, xty1, xtx2)
      else (case s of (L, xty, xtx_update) \<Rightarrow> (WBACON_ERROR_OK, L, xty, xtx_update)))"
  by pat_completeness auto
termination
  by (relation "measure (\<lambda>(dat, wpp, wnp, stack, n_downdate, i, s). n_downdate - i)") auto

declare update_chol_xty_second_pass.simps [simp del]

text \<open>
  \<^verbatim>\<open>update_chol_xty\<close>. The factor \<open>L\<close> of the estimate is handed to \<^verbatim>\<open>chol_update\<close> and
  \<^verbatim>\<open>chol_downdate\<close> as an array of doubles and taken back as an array of reals (both
  zeros are the real \<open>0\<close>). The rest of the program is modelled over the reals: when the
  function returns with an entry of \<open>L\<close> that is an infinity or NaN, the model does not
  follow the run any further and the result is \<open>None\<close>.
\<close>

definition update_chol_xty ::
  "regdata \<Rightarrow> workarray \<Rightarrow> estimate \<Rightarrow> int list \<Rightarrow> int list \<Rightarrow>
   (wbacon_error_type \<times> workarray \<times> estimate) option" where
  "update_chol_xty dat work est subset0 subset1 =
     (let p = dat_p dat;
          work1 = work\<lparr>work_pp := Memcpy (work_pp work) (est_L est) (p * p),
                       work_np := Memcpy (work_np work) (est_xty est) p\<rparr>;
          (L1, xty1, xtx1, stack1, n_update, n_downdate) =
             update_chol_xty_first_pass dat subset0 subset1
               (map Finite (est_L est), est_xty est, work_p work1, work_iarray work1, 0, 0);
          (err, L2, xty2, xtx2) =
             update_chol_xty_second_pass dat (work_pp work1) (work_np work1) stack1 n_downdate 0
               (L1, xty1, xtx1)
      in map_option
           (\<lambda>L3. (err, work1\<lparr>work_p := xtx2, work_iarray := stack1\<rparr>,
                   est\<lparr>est_L := L3, est_xty := xty2\<rparr>))
           (finite_array L2))"

text \<open>
  For stating which downdate of the second pass fails: \<open>downdates_done dat stack k s\<close> is
  the state \<open>(L, xty, xtx_update)\<close> after the downdates for the first \<open>k\<close> entries of the
  stack, started in \<open>s\<close>, when each of them returned \<open>WBACON_ERROR_OK\<close>, and \<open>None\<close> when one
  of them did not; \<open>downdate_fails dat stack k s\<close> says that the downdate for entry \<open>k\<close> of
  the stack is reached and returns an error.
\<close>

primrec downdates_done ::
  "regdata \<Rightarrow> int list \<Rightarrow> nat \<Rightarrow> double list \<times> real list \<times> double list \<Rightarrow>
   (double list \<times> real list \<times> double list) option" where
  "downdates_done dat stack 0 s = Some s"
| "downdates_done dat stack (Suc k) s =
     (case downdates_done dat stack k s of
        None \<Rightarrow> None
      | Some s1 \<Rightarrow>
          (case downdate_row dat (nat (stack ! k)) s1 of
             (err, s2) \<Rightarrow> if err \<noteq> WBACON_ERROR_OK then None else Some s2))"

definition downdate_fails ::
  "regdata \<Rightarrow> int list \<Rightarrow> nat \<Rightarrow> double list \<times> real list \<times> double list \<Rightarrow> bool" where
  "downdate_fails dat stack k s \<longleftrightarrow>
     (case downdates_done dat stack k s of
        None \<Rightarrow> False
      | Some s1 \<Rightarrow> fst (downdate_row dat (nat (stack ! k)) s1) \<noteq> WBACON_ERROR_OK)"

section \<open>The routines the sources call but do not define\<close>

text \<open>
  LAPACK and BLAS (\<^verbatim>\<open>dgels\<close>, \<^verbatim>\<open>dgemv\<close>, \<^verbatim>\<open>dtrsm\<close>, \<^verbatim>\<open>dtrtri\<close>, \<^verbatim>\<open>dtrmm\<close>), the quantile
  function of the Student t distribution behind R's \<^verbatim>\<open>qt\<close>, the selection and sorting
  routines of \<^verbatim>\<open>partial_sort.h\<close> and the five-argument \<^verbatim>\<open>fitwls\<close> that
  \<^verbatim>\<open>wbacon_reg.c\<close> calls are not among the sources. They are parameters of the model,
  collected in one record; each takes the arrays it reads and returns the arrays it
  writes.

  \<^item> \<open>ext_dgels n p a b work lwork\<close> returns \<open>(a, b, work, info)\<close>.
  \<^item> \<open>ext_dgemv n p alpha a x beta y\<close> returns \<open>y\<close>.
  \<^item> \<open>ext_dtrsm trans p a b\<close> returns \<open>b\<close> (left side, lower triangle, one column).
  \<^item> \<open>ext_dtrtri p a\<close> returns \<open>(a, info)\<close> (lower triangle, non-unit diagonal).
  \<^item> \<open>ext_dtrmm n p a b\<close> returns \<open>b\<close> (right side, lower triangle, transposed).
  \<^item> \<open>ext_quantile_t prob df\<close> is the quantile of the Student t distribution with
    \<open>df\<close> degrees of freedom at the lower-tail probability \<open>prob\<close>.
  \<^item> \<open>ext_select_k x lo hi k\<close> returns \<open>x\<close>.
  \<^item> \<open>ext_psort_array x index n k\<close> returns \<open>(x, index)\<close>.
  \<^item> \<open>ext_fitwls dat est subset work lwork\<close> returns \<open>(info, dat, est, work)\<close>.
\<close>

record externals =
  ext_dgels :: "nat \<Rightarrow> nat \<Rightarrow> real list \<Rightarrow> real list \<Rightarrow> real list \<Rightarrow> int \<Rightarrow>
                real list \<times> real list \<times> real list \<times> int"
  ext_dgemv :: "nat \<Rightarrow> nat \<Rightarrow> real \<Rightarrow> real list \<Rightarrow> real list \<Rightarrow> real \<Rightarrow> real list \<Rightarrow> real list"
  ext_dtrsm :: "bool \<Rightarrow> nat \<Rightarrow> real list \<Rightarrow> real list \<Rightarrow> real list"
  ext_dtrtri :: "nat \<Rightarrow> real list \<Rightarrow> real list \<times> int"
  ext_dtrmm :: "nat \<Rightarrow> nat \<Rightarrow> real list \<Rightarrow> real list \<Rightarrow> real list"
  ext_quantile_t :: "real \<Rightarrow> real \<Rightarrow> real"
  ext_select_k :: "real list \<Rightarrow> int \<Rightarrow> int \<Rightarrow> int \<Rightarrow> real list"
  ext_psort_array :: "real list \<Rightarrow> int list \<Rightarrow> nat \<Rightarrow> nat \<Rightarrow> real list \<times> int list"
  ext_fitwls :: "regdata \<Rightarrow> estimate \<Rightarrow> int list \<Rightarrow> real list \<Rightarrow> int \<Rightarrow>
                 int \<times> regdata \<times> estimate \<times> real list"

text \<open>
  R's \<^verbatim>\<open>qt(p, ndf, lower_tail, log_p)\<close>: with \<^verbatim>\<open>lower_tail = 0\<close> the probability is that of
  the upper tail, with \<^verbatim>\<open>log_p\<close> nonzero it is given as its logarithm.
\<close>

definition qt :: "externals \<Rightarrow> real \<Rightarrow> real \<Rightarrow> int \<Rightarrow> int \<Rightarrow> real" where
  "qt ext prob ndf lower_tail log_p =
     (let pr = (if log_p \<noteq> 0 then exp prob else prob)
      in ext_quantile_t ext (if lower_tail \<noteq> 0 then pr else 1 - pr) ndf)"

section \<open>The diagonal of the hat matrix and the distances\<close>

definition hat_matrix ::
  "externals \<Rightarrow> regdata \<Rightarrow> workarray \<Rightarrow> real list \<Rightarrow> real list \<Rightarrow>
   wbacon_error_type \<times> workarray \<times> real list" where
  "hat_matrix ext dat work L hat =
     (let n = dat_n dat; p = dat_p dat;
          (inv, info) = ext_dtrtri ext p (Memcpy (work_pp work) L (p * p));
          work1 = work\<lparr>work_pp := inv\<rparr>
      in if info \<noteq> 0 then (WBACON_ERROR_TRIANG_MAT_SINGULAR, work1, hat)
         else
           let z = ext_dtrmm ext n p (work_pp work1) (Memcpy (work_np work1) (dat_x dat) (n * p));
               work2 = work1\<lparr>work_np := z\<rparr>;
               hat1 = fold (\<lambda>i hat. hat[i := POWER2 (z ! i)]) [0..<n] hat;
               hat2 = fold (\<lambda>j. fold (\<lambda>i hat. hat[i := hat ! i + POWER2 (z ! (i + j * n))]) [0..<n])
                        [1..<p] hat1;
               hat3 = fold (\<lambda>i hat. hat[i := hat ! i * dat_w dat ! i]) [0..<n] hat2
           in (WBACON_ERROR_OK, work2, hat3))"

text \<open>
  \<^verbatim>\<open>compute_ti\<close>: \<^verbatim>\<open>hat\<close> is \<^verbatim>\<open>work->work_n\<close>; the distances are written to \<^verbatim>\<open>tis\<close>. The
  argument \<^verbatim>\<open>m\<close> is not used by the source.
\<close>

definition compute_ti ::
  "externals \<Rightarrow> regdata \<Rightarrow> workarray \<Rightarrow> estimate \<Rightarrow> int list \<Rightarrow> int \<Rightarrow> real list \<Rightarrow>
   wbacon_error_type \<times> workarray \<times> real list" where
  "compute_ti ext dat work est subs m tis =
     (let n = dat_n dat;
          (err, work1, hat) = hat_matrix ext dat work (est_L est) (work_n work);
          work2 = work1\<lparr>work_n := hat\<rparr>
      in if err \<noteq> WBACON_ERROR_OK then (err, work2, tis)
         else
           (WBACON_ERROR_OK, work2,
            fold (\<lambda>i tis.
                   let tmp = 1 + real_of_int (1 - 2 * subs ! i) * hat ! i
                   in tis[i := \<bar>est_resid est ! i\<bar> / (est_sigma est * sqrt tmp)])
              [0..<n] tis))"

section \<open>Selecting the observations with the smallest distances\<close>

text \<open>
  \<^verbatim>\<open>select_subset\<close>: \<^verbatim>\<open>select_k\<close> works on the array \<open>x\<close> in place, the threshold is
  read from the array it leaves, and so are the values compared with it. The function
  returns the array \<open>x\<close> as left and the subset.
\<close>

definition select_subset ::
  "externals \<Rightarrow> real list \<Rightarrow> int list \<Rightarrow> int \<Rightarrow> nat \<Rightarrow> (real list \<times> int list) option" where
  "select_subset ext x subs m n =
     (let x1 = ext_select_k ext x 0 (int n - 1) (m - 1)
      in case array_get x1 (m - 1) of
           None \<Rightarrow> None
         | Some threshold \<Rightarrow>
             Some (x1, fold (\<lambda>i subs. if x1 ! i \<le> threshold then subs[i := 1] else subs[i := 0])
                         [0..<n] subs))"

section \<open>Weighted least squares\<close>

text \<open>The loop over the diagonal of \<open>R\<close> in \<^verbatim>\<open>fitwls\<close>, with its early return.\<close>

function fitwls_rank_deficient :: "nat \<Rightarrow> nat \<Rightarrow> real list \<Rightarrow> nat \<Rightarrow> bool" where
  "fitwls_rank_deficient n p wx i =
     (if i < p then
        if \<bar>wx ! ((n + 1) * i)\<bar> < sqrt DBL_EPSILON then True
        else fitwls_rank_deficient n p wx (i + 1)
      else False)"
  by pat_completeness auto
termination
  by (relation "measure (\<lambda>(n, p, wx, i). p - i)") auto

declare fitwls_rank_deficient.simps [simp del]

text \<open>The C cast \<^verbatim>\<open>(int)\<close> of a double: truncation towards zero.\<close>

definition int_of_double :: "real \<Rightarrow> int" where
  "int_of_double r = (if 0 \<le> r then \<lfloor>r\<rfloor> else \<lceil>r\<rceil>)"

text \<open>
  \<^verbatim>\<open>fitwls\<close> of \<^verbatim>\<open>fitwls.c\<close>. It returns its return value, the data (whose \<open>wx\<close> and \<open>wy\<close>
  it overwrites), the work array of \<^verbatim>\<open>dgels\<close>, \<open>beta\<close> and \<open>resid\<close>.
\<close>

definition fitwls ::
  "externals \<Rightarrow> regdata \<Rightarrow> real list \<Rightarrow> real list \<Rightarrow> int \<Rightarrow> real list \<Rightarrow> real list \<Rightarrow>
   int \<times> regdata \<times> real list \<times> real list \<times> real list" where
  "fitwls ext dat weight work_dgels lwork beta resid =
     (let n = dat_n dat; p = dat_p dat; x = dat_x dat; y = dat_y dat
      in if lwork < 0 then
           let (x1, y1, work1, info_dgels) = ext_dgels ext n p x y work_dgels lwork
           in (int_of_double (work1 ! 0), dat\<lparr>dat_x := x1, dat_y := y1\<rparr>, work1, beta, resid)
         else
           let (wy1, wx1) =
                 fold (\<lambda>i (wy, wx).
                        let tmp = sqrt (weight ! i)
                        in (wy[i := tmp * y ! i], wx[i := tmp * x ! i]))
                   [0..<n] (dat_wy dat, dat_wx dat);
               wx2 = fold (\<lambda>j. fold (\<lambda>i wx. wx[i + n * j := sqrt (weight ! i) * x ! (i + n * j)])
                                  [0..<n])
                       [1..<p] wx1;
               (wx3, wy3, work1, info_dgels) = ext_dgels ext n p wx2 wy1 work_dgels lwork;
               dat1 = dat\<lparr>dat_wx := wx3, dat_wy := wy3\<rparr>
           in if fitwls_rank_deficient n p wx3 0 then (1, dat1, work1, beta, resid)
              else
                let beta1 = Memcpy beta wy3 p;
                    resid1 = Memcpy resid y n;
                    resid2 = ext_dgemv ext n p (- 1) x beta1 1 resid1
                in (0, dat1, work1, beta1, resid2))"

text \<open>\<^verbatim>\<open>cholesky_reg\<close>: the two triangular solves against \<open>L\<close>.\<close>

definition cholesky_reg :: "externals \<Rightarrow> real list \<Rightarrow> real list \<Rightarrow> real list \<Rightarrow> nat \<Rightarrow> real list" where
  "cholesky_reg ext L xty beta p =
     (let beta1 = Memcpy beta xty p;
          beta2 = ext_dtrsm ext False p L beta1
      in ext_dtrsm ext True p L beta2)"

section \<open>Instances of the external routines, for running the model\<close>

text \<open>
  The theorems below hold for every instance of the external routines. To run the model
  on concrete data, \<open>ext_one_regressor q\<close> gives their textbook meaning for a design
  matrix with a single column (\<open>p = 1\<close>), where the factor \<open>R\<close> is the norm of the column,
  the triangular solves and the inverse are divisions, and sorting is a full sort;
  \<open>q\<close> is the quantile function to use. For \<open>lwork < 0\<close> the least-squares routine only
  reports a work-array size.
\<close>

definition dgels_one_regressor ::
  "nat \<Rightarrow> nat \<Rightarrow> real list \<Rightarrow> real list \<Rightarrow> real list \<Rightarrow> int \<Rightarrow>
   real list \<times> real list \<times> real list \<times> int" where
  "dgels_one_regressor n p a b work lw =
     (if lw < 0 then (a, b, work[0 := 1], 0)
      else
        let ss = (\<Sum>i<n. a ! i * a ! i);
            sp = (\<Sum>i<n. a ! i * b ! i)
        in (a[0 := sqrt ss], b[0 := sp / ss], work, 0))"

definition dgemv_reference ::
  "nat \<Rightarrow> nat \<Rightarrow> real \<Rightarrow> real list \<Rightarrow> real list \<Rightarrow> real \<Rightarrow> real list \<Rightarrow> real list" where
  "dgemv_reference n p alpha a x beta y =
     map (\<lambda>i. alpha * (\<Sum>j<p. a ! (i + j * n) * x ! j) + beta * y ! i) [0..<n] @ drop n y"

text \<open>
  Modelled from the spec: \<^verbatim>\<open>select_k\<close> and \<^verbatim>\<open>psort_array\<close> of \<^verbatim>\<open>partial_sort.h\<close>, which is
  not among the sources. The spec (4.3, 4.5) asks for a partial-selection procedure that
  locates the order statistic, and for the observations sorted by ascending
  discrepancy; a full sort of the range, and a full sort that records the permutation
  in the index array, are instances of both.
\<close>

definition sort_range :: "real list \<Rightarrow> int \<Rightarrow> int \<Rightarrow> real list" where
  "sort_range x lo hi =
     take (nat lo) x @ sort (take (nat (hi + 1 - lo)) (drop (nat lo) x)) @ drop (nat (hi + 1)) x"

definition psort_array_reference :: "real list \<Rightarrow> int list \<Rightarrow> nat \<Rightarrow> nat \<Rightarrow> real list \<times> int list" where
  "psort_array_reference x index n k =
     (let ps = sort_key fst (zip (take n x) (map int [0..<n]))
      in (map fst ps @ drop n x, map snd ps @ drop n index))"

text \<open>
  Modelled from the spec: the five-argument \<^verbatim>\<open>fitwls\<close> that \<^verbatim>\<open>wbacon_reg.c\<close> calls, declared
  in \<^verbatim>\<open>fitwls.h\<close>, which is not among the sources. By the spec (4.1, 4.5) the fit is
  restricted to the current subset by giving the observations outside it the weight
  zero; the coefficients and residuals go to the estimate.
\<close>

definition fitwls_on_subset ::
  "externals \<Rightarrow> regdata \<Rightarrow> estimate \<Rightarrow> int list \<Rightarrow> real list \<Rightarrow> int \<Rightarrow>
   int \<times> regdata \<times> estimate \<times> real list" where
  "fitwls_on_subset ext dat est subs work lw =
     (let weight = map (\<lambda>i. if subs ! i \<noteq> 0 then dat_w dat ! i else 0) [0..<dat_n dat];
          (info, dat1, work1, beta1, resid1) =
             fitwls ext dat weight work lw (est_beta est) (est_resid est)
      in (info, dat1, est\<lparr>est_beta := beta1, est_resid := resid1\<rparr>, work1))"

definition lapack_one_regressor :: "(real \<Rightarrow> real \<Rightarrow> real) \<Rightarrow> externals" where
  "lapack_one_regressor q =
     \<lparr>ext_dgels = dgels_one_regressor,
      ext_dgemv = dgemv_reference,
      ext_dtrsm = (\<lambda>trans p a b. b[0 := b ! 0 / a ! 0]),
      ext_dtrtri = (\<lambda>p a. (a[0 := 1 / a ! 0], if a ! 0 = 0 then 1 else 0)),
      ext_dtrmm = (\<lambda>n p a b. map (\<lambda>v. v * a ! 0) (take n b) @ drop n b),
      ext_quantile_t = q,
      ext_select_k = (\<lambda>x lo hi k. sort_range x lo hi),
      ext_psort_array = psort_array_reference,
      ext_fitwls = (\<lambda>dat est subs work lw. (0, dat, est, work))\<rparr>"

definition ext_one_regressor :: "(real \<Rightarrow> real \<Rightarrow> real) \<Rightarrow> externals" where
  "ext_one_regressor q =
     (lapack_one_regressor q)\<lparr>ext_fitwls := fitwls_on_subset (lapack_one_regressor q)\<rparr>"

section \<open>The driver: initialization, Algorithm 4, Algorithm 5\<close>

text \<open>
  The arrays and the subset size that the three steps of \<^verbatim>\<open>wbacon_reg\<close> pass on. In
  \<open>ds_subset0\<close> and \<open>ds_subset1\<close> the names are those of the parameters of the function
  that is running.
\<close>

record driver_state =
  ds_dat :: regdata
  ds_work :: workarray
  ds_est :: estimate
  ds_subset0 :: "int list"
  ds_subset1 :: "int list"
  ds_m :: int

text \<open>The loops "extract L" of \<^verbatim>\<open>initial_reg\<close> and \<^verbatim>\<open>algorithm_5\<close>.\<close>

definition extract_L :: "nat \<Rightarrow> nat \<Rightarrow> real list \<Rightarrow> real list \<Rightarrow> real list" where
  "extract_L n p wx =
     fold (\<lambda>i. fold (\<lambda>j L. L[j + i * p := wx ! (i + j * n)]) [i..<p]) [0..<p]"

text \<open>The loops "compute xty (weighted)" of \<^verbatim>\<open>initial_reg\<close>.\<close>

definition initial_xty :: "regdata \<Rightarrow> int list \<Rightarrow> real list \<Rightarrow> real list" where
  "initial_xty dat subs =
     fold (\<lambda>i. fold (\<lambda>j xty.
                   if subs ! j \<noteq> 0
                   then xty[i := xty ! i + dat_w dat ! j * dat_x dat ! (j + i * dat_n dat) * dat_y dat ! j]
                   else xty)
                [0..<dat_n dat])
       [0..<dat_p dat]"

text \<open>
  The \<^verbatim>\<open>while (*m < n)\<close> loop of \<^verbatim>\<open>initial_reg\<close>: observations are added in the order of
  \<^verbatim>\<open>iarray\<close> until the fit has full rank. The state is \<open>(dat, est, dgels_work, subset, m)\<close>.
\<close>

function initial_reg_enlarge ::
  "externals \<Rightarrow> nat \<Rightarrow> int list \<Rightarrow> int \<Rightarrow> regdata \<times> estimate \<times> real list \<times> int list \<times> int \<Rightarrow>
   (regdata \<times> estimate \<times> real list \<times> int list \<times> int) option" where
  "initial_reg_enlarge ext n iarr lw (dat, est, dgw, subs, m) =
     (if m < int n then
        let m1 = m + 1
        in case array_get iarr (m1 - 1) of
             None \<Rightarrow> None
           | Some k \<Rightarrow>
               (case array_set subs k 1 of
                  None \<Rightarrow> None
                | Some subs1 \<Rightarrow>
                    let (info, dat1, est1, dgw1) = ext_fitwls ext dat est subs1 dgw lw
                    in if info = 0 then Some (dat1, est1, dgw1, subs1, m1)
                       else initial_reg_enlarge ext n iarr lw (dat1, est1, dgw1, subs1, m1))
      else Some (dat, est, dgw, subs, m))"
  by pat_completeness auto
termination
  by (relation "measure (\<lambda>(ext, n, iarr, lw, dat, est, dgw, subs, m). nat (int n - m))") auto

declare initial_reg_enlarge.simps [simp del]

text \<open>
  \<^verbatim>\<open>initial_reg\<close>. The local \<^verbatim>\<open>status\<close> that the enlarging loop sets is overwritten by the
  result of \<^verbatim>\<open>compute_ti\<close> before it is returned, so it does not appear here.
\<close>

definition initial_reg ::
  "externals \<Rightarrow> regdata \<Rightarrow> workarray \<Rightarrow> estimate \<Rightarrow> int list \<Rightarrow> int \<Rightarrow>
   (wbacon_error_type \<times> regdata \<times> workarray \<times> estimate \<times> int list \<times> int) option" where
  "initial_reg ext dat work est subs m =
     (let n = dat_n dat; p = dat_p dat;
          (info, dat1, est1, dgw1) =
             ext_fitwls ext dat est subs (work_dgels_work work) (work_lwork work);
          enlarged =
            (if info \<noteq> 0 then
               let (dist1, iarr1) = ext_psort_array ext (est_dist est1) (work_iarray work) n n
               in map_option (\<lambda>r. (iarr1, r))
                    (initial_reg_enlarge ext n iarr1 (work_lwork work)
                       (dat1, est1\<lparr>est_dist := dist1\<rparr>, dgw1, subs, m))
             else Some (work_iarray work, dat1, est1, dgw1, subs, m))
      in case enlarged of
           None \<Rightarrow> None
         | Some (iarr2, dat2, est2, dgw2, subs2, m2) \<Rightarrow>
             let est3 = est2\<lparr>est_L := extract_L n p (dat_wx dat2) (est_L est2),
                              est_xty := initial_xty dat2 subs2 (est_xty est2)\<rparr>;
                 work2 = work\<lparr>work_iarray := iarr2, work_dgels_work := dgw2\<rparr>;
                 (status, work3, dist3) = compute_ti ext dat2 work2 est3 subs2 m2 (est_dist est3)
             in Some (status, dat2, work3, est3\<lparr>est_dist := dist3\<rparr>, subs2, m2))"

text \<open>
  The inner \<^verbatim>\<open>for (;;)\<close> of \<^verbatim>\<open>algorithm_4\<close>, entered when the update of the Cholesky factor
  has failed: \<open>m\<close> is incremented, the observation \<^verbatim>\<open>iarray[*m - 1]\<close> is put into
  \<^verbatim>\<open>subset1\<close> and the update is tried again; the loop ends when the update succeeds, or
  with the error when \<open>m\<close> equals \<open>p * collect\<close>. It returns
  \<open>(err, work, est, subset1, m)\<close>.
\<close>

partial_function (option) algorithm_4_enlarge ::
  "regdata \<Rightarrow> int \<Rightarrow> int list \<Rightarrow> workarray \<Rightarrow> estimate \<Rightarrow> int list \<Rightarrow> int \<Rightarrow>
   (wbacon_error_type \<times> workarray \<times> estimate \<times> int list \<times> int) option" where
  "algorithm_4_enlarge dat collect subset0 work est subset1 m =
     (case array_get (work_iarray work) (m + 1 - 1) of
        None \<Rightarrow> None
      | Some k \<Rightarrow>
          (case array_set subset1 k 1 of
             None \<Rightarrow> None
           | Some subset1a \<Rightarrow>
               (case update_chol_xty dat work est subset0 subset1a of
                  None \<Rightarrow> None
                | Some r \<Rightarrow>
                    (let err = fst r; work1 = fst (snd r); est1 = snd (snd r)
                     in if err = WBACON_ERROR_OK then Some (err, work1, est1, subset1a, m + 1)
                        else if m + 1 = int (dat_p dat) * collect
                          then Some (err, work1, est1, subset1a, m + 1)
                        else algorithm_4_enlarge dat collect subset0 work1 est1 subset1a (m + 1)))))"

text \<open>
  What follows the update in one pass of the outer \<^verbatim>\<open>for (;;)\<close> of \<^verbatim>\<open>algorithm_4\<close>:
  \<^verbatim>\<open>subset0\<close> becomes \<^verbatim>\<open>subset1\<close>, the coefficients come from the Cholesky factor, the
  residuals and the distances are recomputed.
\<close>

definition algorithm_4_refit ::
  "externals \<Rightarrow> regdata \<Rightarrow> workarray \<Rightarrow> estimate \<Rightarrow> int list \<Rightarrow> int list \<Rightarrow> int \<Rightarrow>
   wbacon_error_type \<times> driver_state" where
  "algorithm_4_refit ext dat work est subset0 subset1 m =
     (let n = dat_n dat; p = dat_p dat;
          subset0a = Memcpy subset0 subset1 n;
          beta1 = cholesky_reg ext (est_L est) (est_xty est) (est_beta est) p;
          resid1 = Memcpy (est_resid est) (dat_y dat) n;
          resid2 = ext_dgemv ext n p (- 1) (dat_x dat) beta1 1 resid1;
          est1 = est\<lparr>est_beta := beta1, est_resid := resid2\<rparr>;
          (err, work1, dist1) = compute_ti ext dat work est1 subset1 m (est_dist est1)
      in (err, \<lparr>ds_dat = dat, ds_work = work1, ds_est = est1\<lparr>est_dist := dist1\<rparr>,
                ds_subset0 = subset0a, ds_subset1 = subset1, ds_m = m\<rparr>))"

text \<open>
  The outer \<^verbatim>\<open>for (;;)\<close> of \<^verbatim>\<open>algorithm_4\<close>. The result is \<open>None\<close> when an access is out of
  range, when \<^verbatim>\<open>update_chol_xty\<close> leaves an entry of \<open>L\<close> that is not finite, or when the
  loop does not end.
\<close>

partial_function (option) algorithm_4 ::
  "externals \<Rightarrow> int \<Rightarrow> driver_state \<Rightarrow> (wbacon_error_type \<times> driver_state) option" where
  "algorithm_4 ext collect s =
     (case update_chol_xty (ds_dat s) (ds_work s) (ds_est s) (ds_subset0 s) (ds_subset1 s) of
        None \<Rightarrow> None
      | Some r \<Rightarrow>
     (case (if fst r \<noteq> WBACON_ERROR_OK
               then algorithm_4_enlarge (ds_dat s) collect (ds_subset0 s)
                      (fst (snd r)) (snd (snd r)) (ds_subset1 s) (ds_m s)
               else Some (fst r, fst (snd r), snd (snd r), ds_subset1 s, ds_m s)) of
           None \<Rightarrow> None
         | Some e \<Rightarrow>
             (let err2 = fst e; work2 = fst (snd e); est2 = fst (snd (snd e));
                  subset1b = fst (snd (snd (snd e))); m2 = snd (snd (snd (snd e)))
              in if err2 \<noteq> WBACON_ERROR_OK
                 then Some (err2, s\<lparr>ds_work := work2, ds_est := est2, ds_subset1 := subset1b,
                                     ds_m := m2\<rparr>)
                 else
                   (let f = algorithm_4_refit ext (ds_dat s) work2 est2 (ds_subset0 s) subset1b m2;
                        s3 = snd f; m3 = ds_m s3 + 1
                    in if fst f \<noteq> WBACON_ERROR_OK then Some (fst f, s3)
                       else if m3 = int (dat_p (ds_dat s)) * collect + 1
                         then Some (WBACON_ERROR_OK, s3\<lparr>ds_m := m3\<rparr>)
                       else
                         (case select_subset ext (est_dist (ds_est s3)) (ds_subset1 s3) m3
                                 (dat_n (ds_dat s)) of
                            None \<Rightarrow> None
                          | Some d \<Rightarrow>
                              algorithm_4 ext collect
                                (s3\<lparr>ds_est := (ds_est s3)\<lparr>est_dist := fst d\<rparr>,
                                    ds_subset1 := snd d, ds_m := m3\<rparr>))))))"

text \<open>
  The loop of \<^verbatim>\<open>algorithm_5\<close> that looks for the first observation on which the two
  subsets differ (\<^verbatim>\<open>subset0[i] ^ subset1[i]\<close> is nonzero exactly when the entries
  differ); it returns the index at which it stops.
\<close>

function first_difference :: "nat \<Rightarrow> int list \<Rightarrow> int list \<Rightarrow> nat \<Rightarrow> nat" where
  "first_difference n subset0 subset1 i =
     (if i < n then
        if xor (subset0 ! i) (subset1 ! i) \<noteq> 0 then i
        else first_difference n subset0 subset1 (i + 1)
      else i)"
  by pat_completeness auto
termination
  by (relation "measure (\<lambda>(n, subset0, subset1, i). n - i)") auto

declare first_difference.simps [simp del]

text \<open>
  The cutoff of \<^verbatim>\<open>algorithm_5\<close>, \<^verbatim>\<open>qt(*alpha / (double)(2 * (*m + 1)), *m - p, 0, 0)\<close>, and
  its loop that generates the new subset of all observations with a distance below the
  cutoff and counts them in \<open>m\<close>.
\<close>

definition algorithm_5_cutoff :: "externals \<Rightarrow> real \<Rightarrow> nat \<Rightarrow> int \<Rightarrow> real" where
  "algorithm_5_cutoff ext alpha p m =
     qt ext (alpha / real_of_int (2 * (m + 1))) (real_of_int (m - int p)) 0 0"

definition algorithm_5_new_subset :: "nat \<Rightarrow> real list \<Rightarrow> real \<Rightarrow> int list \<Rightarrow> int list \<times> int" where
  "algorithm_5_new_subset n tis cutoff subset1 =
     fold (\<lambda>i (subset1, m).
            if tis ! i < cutoff then (subset1[i := 1], m + 1) else (subset1[i := 0], m))
       [0..<n] (subset1, 0)"

text \<open>
  One pass of the \<^verbatim>\<open>while\<close> loop of \<^verbatim>\<open>algorithm_5\<close>. \<open>Inl\<close> is a \<^verbatim>\<open>return\<close>, with the
  error code, the state and the value of \<^verbatim>\<open>*maxiter\<close>; \<open>Inr\<close> is the state at the end of
  the pass, before \<^verbatim>\<open>iter++\<close>.
\<close>

definition algorithm_5_pass ::
  "externals \<Rightarrow> real \<Rightarrow> nat \<Rightarrow> nat \<Rightarrow> int \<Rightarrow> int \<Rightarrow> driver_state \<Rightarrow>
   (wbacon_error_type \<times> driver_state \<times> int) + driver_state" where
  "algorithm_5_pass ext alpha n p maxiter iter s =
     (let (info, dat1, est1, dgw1) =
            ext_fitwls ext (ds_dat s) (ds_est s) (ds_subset0 s)
              (work_dgels_work (ds_work s)) (work_lwork (ds_work s));
          work1 = (ds_work s)\<lparr>work_dgels_work := dgw1\<rparr>
      in if info \<noteq> 0
         then Inl (WBACON_ERROR_RANK_DEFICIENT,
                   s\<lparr>ds_dat := dat1, ds_work := work1, ds_est := est1\<rparr>, maxiter)
         else
           let est2 = est1\<lparr>est_L := extract_L n p (dat_wx dat1) (est_L est1)\<rparr>;
               (err, work2, dist1) = compute_ti ext dat1 work1 est2 (ds_subset0 s) (ds_m s) (est_dist est2);
               est3 = est2\<lparr>est_dist := dist1\<rparr>
           in if err \<noteq> WBACON_ERROR_OK
              then Inl (err, s\<lparr>ds_dat := dat1, ds_work := work2, ds_est := est3\<rparr>, maxiter)
              else
                let cutoff = algorithm_5_cutoff ext alpha p (ds_m s);
                    (subset1a, m1) = algorithm_5_new_subset n dist1 cutoff (ds_subset1 s);
                    s1 = \<lparr>ds_dat = dat1, ds_work = work2, ds_est = est3,
                          ds_subset0 = ds_subset0 s, ds_subset1 = subset1a, ds_m = m1\<rparr>
                in if first_difference n (ds_subset0 s) subset1a 0 = n
                   then Inl (WBACON_ERROR_OK, s1, iter)
                   else Inr (s1\<lparr>ds_subset0 := Memcpy (ds_subset0 s) subset1a n\<rparr>))"

text \<open>The \<^verbatim>\<open>while (iter <= *maxiter)\<close> loop of \<^verbatim>\<open>algorithm_5\<close> and the return after it.\<close>

function algorithm_5_loop ::
  "externals \<Rightarrow> real \<Rightarrow> nat \<Rightarrow> nat \<Rightarrow> int \<Rightarrow> int \<Rightarrow> driver_state \<Rightarrow>
   wbacon_error_type \<times> driver_state \<times> int" where
  "algorithm_5_loop ext alpha n p maxiter iter s =
     (if iter \<le> maxiter then
        case algorithm_5_pass ext alpha n p maxiter iter s of
          Inl r \<Rightarrow> r
        | Inr s1 \<Rightarrow> algorithm_5_loop ext alpha n p maxiter (iter + 1) s1
      else (WBACON_ERROR_CONVERGENCE_FAILURE, s, maxiter))"
  by pat_completeness auto
termination
  by (relation "measure (\<lambda>(ext, alpha, n, p, maxiter, iter, s). nat (maxiter + 1 - iter))") auto

declare algorithm_5_loop.simps [simp del]

definition algorithm_5 ::
  "externals \<Rightarrow> real \<Rightarrow> int \<Rightarrow> driver_state \<Rightarrow> wbacon_error_type \<times> driver_state \<times> int" where
  "algorithm_5 ext alpha maxiter s =
     algorithm_5_loop ext alpha (dat_n (ds_dat s)) (dat_p (ds_dat s)) maxiter 1 s"

section \<open>The entry point\<close>

text \<open>
  What \<^verbatim>\<open>wbacon_reg\<close> leaves in the buffers of its caller: the design matrix \<open>x\<close>, the
  residuals, the coefficients, the subset, the distances, the size of the subset, the
  success flag and the number of iterations.
\<close>

record wbacon_result =
  res_x :: "real list"
  res_resid :: "real list"
  res_beta :: "real list"
  res_subset0 :: "int list"
  res_dist :: "real list"
  res_m :: int
  res_success :: int
  res_maxiter :: int

text \<open>
  The allocations at the head of \<^verbatim>\<open>wbacon_reg\<close> (\<^verbatim>\<open>Calloc\<close> gives zeros) and the call of
  \<^verbatim>\<open>fitwls\<close> that asks for the size of the work array. The field \<^verbatim>\<open>sigma\<close> of the
  estimate is not assigned by the source; its value at entry is the parameter \<open>sigma0\<close>.
\<close>

definition wbacon_reg_arrays ::
  "externals \<Rightarrow> real list \<Rightarrow> real list \<Rightarrow> real list \<Rightarrow> real list \<Rightarrow> real list \<Rightarrow> int list \<Rightarrow>
   real list \<Rightarrow> nat \<Rightarrow> nat \<Rightarrow> int \<Rightarrow> real \<Rightarrow> driver_state" where
  "wbacon_reg_arrays ext x y w resid beta subset0 dist0 n p m sigma0 =
     (let dat = \<lparr>dat_n = n, dat_p = p, dat_x = x, dat_y = y, dat_w = w,
                  dat_wx = replicate (n * p) 0, dat_wy = replicate n 0,
                  dat_w_sqrt = map (\<lambda>i. sqrt (w ! i)) [0..<n]\<rparr>;
          est = \<lparr>est_resid = resid, est_beta = beta, est_dist = dist0,
                  est_L = replicate (p * p) 0, est_xty = replicate p 0, est_sigma = sigma0\<rparr>;
          (lw, dat1, est1, wnp1) = ext_fitwls ext dat est subset0 (replicate (n * p) 0) (- 1);
          work = \<lparr>work_lwork = lw, work_iarray = replicate n 0, work_p = replicate p (Finite 0),
                   work_n = replicate n 0, work_np = wnp1, work_pp = replicate (p * p) 0,
                   work_dgels_work = replicate (nat lw) 0\<rparr>
      in \<lparr>ds_dat = dat1, ds_work = work, ds_est = est1, ds_subset0 = subset0,
          ds_subset1 = replicate n 0, ds_m = m\<rparr>)"

text \<open>
  STEP 0 and STEP 1 of \<^verbatim>\<open>wbacon_reg\<close>: the initialization, the selection of the \<open>p + 1\<close>
  observations with the smallest distances, and Algorithm 4.
\<close>

definition wbacon_reg_steps_0_1 ::
  "externals \<Rightarrow> nat \<Rightarrow> nat \<Rightarrow> int \<Rightarrow> driver_state \<Rightarrow> (wbacon_error_type \<times> driver_state) option" where
  "wbacon_reg_steps_0_1 ext n p collect s0 =
     (case initial_reg ext (ds_dat s0) (ds_work s0) (ds_est s0) (ds_subset0 s0) (ds_m s0) of
        None \<Rightarrow> None
      | Some (err, dat1, work1, est1, subset0a, m1) \<Rightarrow>
          let s1 = \<lparr>ds_dat = dat1, ds_work = work1, ds_est = est1, ds_subset0 = subset0a,
                    ds_subset1 = ds_subset1 s0, ds_m = m1\<rparr>
          in if err \<noteq> WBACON_ERROR_OK then Some (err, s1)
             else
               let m2 = int p + 1
               in case select_subset ext (est_dist est1) (ds_subset1 s0) m2 n of
                    None \<Rightarrow> None
                  | Some (dist2, subset1a) \<Rightarrow>
                      algorithm_4 ext collect
                        (s1\<lparr>ds_est := est1\<lparr>est_dist := dist2\<rparr>, ds_subset1 := subset1a,
                            ds_m := m2\<rparr>))"

definition wbacon_reg_result :: "driver_state \<Rightarrow> real list \<Rightarrow> int list \<Rightarrow> int \<Rightarrow> int \<Rightarrow> wbacon_result" where
  "wbacon_reg_result s x subset0 success maxiter =
     \<lparr>res_x = x, res_resid = est_resid (ds_est s), res_beta = est_beta (ds_est s),
      res_subset0 = subset0, res_dist = est_dist (ds_est s), res_m = ds_m s,
      res_success = success, res_maxiter = maxiter\<rparr>"

text \<open>
  \<^verbatim>\<open>wbacon_reg\<close>. Algorithm 5 is called with the two subsets exchanged: its \<^verbatim>\<open>subset0\<close> is
  the local array \<^verbatim>\<open>subset1\<close>, its \<^verbatim>\<open>subset1\<close> is the caller's buffer \<^verbatim>\<open>subset0\<close>. After a
  failure of STEP 0 or STEP 1 the copy of \<open>wx\<close> to \<open>x\<close> is skipped (\<^verbatim>\<open>goto clean_up\<close>).
  The result is \<open>None\<close> when an access is out of range, when \<^verbatim>\<open>update_chol_xty\<close> leaves an
  entry of \<open>L\<close> that is not finite, or when Algorithm 4 does not return.
\<close>

definition wbacon_reg ::
  "externals \<Rightarrow> real list \<Rightarrow> real list \<Rightarrow> real list \<Rightarrow> real list \<Rightarrow> real list \<Rightarrow> int list \<Rightarrow>
   real list \<Rightarrow> nat \<Rightarrow> nat \<Rightarrow> int \<Rightarrow> int \<Rightarrow> real \<Rightarrow> int \<Rightarrow> real \<Rightarrow> wbacon_result option" where
  "wbacon_reg ext x y w resid beta subset0 dist0 n p m collect alpha maxiter sigma0 =
     (case wbacon_reg_steps_0_1 ext n p collect
             (wbacon_reg_arrays ext x y w resid beta subset0 dist0 n p m sigma0) of
        None \<Rightarrow> None
      | Some (err, s1) \<Rightarrow>
          if err \<noteq> WBACON_ERROR_OK
          then Some (wbacon_reg_result s1 (dat_x (ds_dat s1)) (ds_subset0 s1) 0 maxiter)
          else
            let (err5, s5, maxiter5) =
                  algorithm_5 ext alpha maxiter
                    (s1\<lparr>ds_subset0 := ds_subset1 s1, ds_subset1 := ds_subset0 s1\<rparr>);
                success = (if err5 \<noteq> WBACON_ERROR_OK then 0 else 1)
            in Some (wbacon_reg_result s5
                       (Memcpy (dat_x (ds_dat s5)) (dat_wx (ds_dat s5)) (n * p))
                       (ds_subset1 s5) success maxiter5))"

text \<open>
  For stating what a run of the loop of \<^verbatim>\<open>algorithm_5\<close> has done:
  \<open>algorithm_5_passes ext alpha n p maxiter k iter s\<close> is the state after \<open>k\<close> passes,
  numbered \<open>iter, iter + 1, ...\<close>, none of which returns (each ends with a new subset
  that differs from the current one), and \<open>None\<close> when one of them returns.
\<close>

primrec algorithm_5_passes ::
  "externals \<Rightarrow> real \<Rightarrow> nat \<Rightarrow> nat \<Rightarrow> int \<Rightarrow> nat \<Rightarrow> int \<Rightarrow> driver_state \<Rightarrow> driver_state option" where
  "algorithm_5_passes ext alpha n p maxiter 0 iter s = Some s"
| "algorithm_5_passes ext alpha n p maxiter (Suc k) iter s =
     (case algorithm_5_pass ext alpha n p maxiter iter s of
        Inl r \<Rightarrow> None
      | Inr s1 \<Rightarrow> algorithm_5_passes ext alpha n p maxiter k (iter + 1) s1)"

text \<open>
  Modelled from the spec: what \<^verbatim>\<open>select_k\<close> of \<^verbatim>\<open>partial_sort.h\<close> (not among the sources)
  does to the array. The spec (4.3) asks for a partial-selection procedure that locates
  the order statistic, such as quickselect, and \<^verbatim>\<open>select_subset\<close> reads the threshold
  from \<^verbatim>\<open>x[*m - 1]\<close> after the call: on the whole array (\<open>lo = 0\<close>, \<open>hi = n - 1\<close>) the
  routine rearranges the entries (the sorted array is unchanged) so that entry \<open>k\<close> is
  the entry \<open>k\<close> of the sorted array.
\<close>

definition select_k_contract :: "(real list \<Rightarrow> int \<Rightarrow> int \<Rightarrow> int \<Rightarrow> real list) \<Rightarrow> bool" where
  "select_k_contract sel \<longleftrightarrow>
     (\<forall>x k. 0 \<le> k \<and> k < int (length x) \<longrightarrow>
        sort (sel x 0 (int (length x) - 1) k) = sort x \<and>
        sel x 0 (int (length x) - 1) k ! nat k = sort x ! nat k)"

section \<open>Arithmetic on doubles\<close>

lemma is_finite_iff: "is_finite d \<longleftrightarrow> d = NegZero \<or> (\<exists>r. d = Finite r)"
  by (cases d) simp_all








lemma zero_le_Finite: "0 \<le> Finite r \<longleftrightarrow> 0 \<le> r"
  by (simp add: less_eq_double_def zero_double_def)






text \<open>The operations on given values, for evaluating the model.\<close>

lemma plus_double_eval:
  "Finite a + Finite b = Finite (a + b)"
  "Finite a + NegZero = Finite a" "NegZero + Finite b = Finite b" "NegZero + NegZero = NegZero"
  "Finite a + PosInf = PosInf" "Finite a + NegInf = NegInf"
  "PosInf + Finite b = PosInf" "NegInf + Finite b = NegInf"
  "NegZero + PosInf = PosInf" "NegZero + NegInf = NegInf"
  "PosInf + NegZero = PosInf" "NegInf + NegZero = NegInf"
  "PosInf + PosInf = PosInf" "NegInf + NegInf = NegInf"
  "PosInf + NegInf = NaN" "NegInf + PosInf = NaN"
  "NaN + x = NaN" "x + NaN = NaN"
  by (simp_all add: plus_double_def)

lemma uminus_double_eval:
  "- Finite a = (if a = 0 then NegZero else Finite (- a))"
  "- NegZero = Finite 0" "- PosInf = NegInf" "- NegInf = PosInf" "- NaN = NaN"
  by (simp_all add: uminus_double_def)

lemma minus_double_eval:
  "Finite a - Finite b = Finite (a - b)"
  "Finite a - NegZero = Finite a" "NegZero - Finite b = (if b = 0 then NegZero else Finite (- b))"
  "Finite a - PosInf = NegInf" "Finite a - NegInf = PosInf"
  "PosInf - Finite b = PosInf" "NegInf - Finite b = NegInf"
  "PosInf - PosInf = NaN" "NegInf - NegInf = NaN"
  "PosInf - NegInf = PosInf" "NegInf - PosInf = NegInf"
  "NaN - x = NaN" "x - NaN = NaN"
  by (simp_all add: minus_double_def plus_double_eval uminus_double_eval)

lemma times_double_eval:
  "Finite a * Finite b = (if a * b = 0 then zero_signed ((a < 0) \<noteq> (b < 0)) else Finite (a * b))"
  "Finite a * NegZero = zero_signed (\<not> a < 0)" "NegZero * Finite b = zero_signed (\<not> b < 0)"
  "NegZero * NegZero = Finite 0"
  "Finite a * PosInf = (if a = 0 then NaN else inf_signed (a < 0))"
  "Finite a * NegInf = (if a = 0 then NaN else inf_signed (\<not> a < 0))"
  "PosInf * Finite b = (if b = 0 then NaN else inf_signed (b < 0))"
  "NegInf * Finite b = (if b = 0 then NaN else inf_signed (\<not> b < 0))"
  "PosInf * PosInf = PosInf" "NegInf * NegInf = PosInf"
  "PosInf * NegInf = NegInf" "NegInf * PosInf = NegInf"
  "NaN * x = NaN" "x * NaN = NaN"
  by (auto simp: times_double_def zero_signed_def inf_signed_def)

lemma divide_double_eval:
  "Finite a / Finite b =
     (if b = 0 then (if a = 0 then NaN else inf_signed (a < 0))
      else if a = 0 then zero_signed (b < 0) else Finite (a / b))"
  "Finite a / NegZero = (if a = 0 then NaN else inf_signed (\<not> a < 0))"
  "NegZero / Finite b = (if b = 0 then NaN else zero_signed (\<not> b < 0))"
  "Finite a / PosInf = zero_signed (a < 0)" "Finite a / NegInf = zero_signed (\<not> a < 0)"
  "PosInf / Finite b = inf_signed (b < 0)" "NegInf / Finite b = inf_signed (\<not> b < 0)"
  "PosInf / PosInf = NaN" "PosInf / NegInf = NaN" "NegInf / PosInf = NaN" "NegInf / NegInf = NaN"
  "NaN / x = NaN" "x / NaN = NaN"
  by (auto simp: divide_double_def zero_signed_def inf_signed_def)

lemma less_zero_double_eval:
  "Finite a < 0 \<longleftrightarrow> a < 0" "\<not> NegZero < 0" "\<not> PosInf < 0" "NegInf < 0" "\<not> NaN < 0"
  by (simp_all add: less_double_def zero_double_def)

lemma zero_le_double_eval:
  "0 \<le> Finite a \<longleftrightarrow> 0 \<le> a" "0 \<le> NegZero" "0 \<le> PosInf" "\<not> 0 \<le> NegInf" "\<not> 0 \<le> NaN"
  by (simp_all add: less_eq_double_def zero_double_def)

lemma hypot_eval:
  "hypot (Finite a) (Finite b) = Finite (sqrt (a\<^sup>2 + b\<^sup>2))"
  "hypot x NaN = (if is_inf x then PosInf else NaN)"
  "hypot NaN y = (if is_inf y then PosInf else NaN)"
  by (simp_all add: hypot_def)

lemmas double_eval =
  POWER2_def plus_double_eval uminus_double_eval minus_double_eval times_double_eval
  divide_double_eval less_zero_double_eval zero_le_double_eval hypot_eval
  zero_signed_def inf_signed_def

section \<open>Loops over an index range\<close>

lemma upt_0_2: "[0..<2] = [0, 1]"
  by (simp add: numeral_2_eq_2)

lemma upt_0_3: "[0..<3] = [0, 1, 2]"
  by (simp add: numeral_3_eq_3)

lemma list3_eqI:
  "length xs = 3 \<Longrightarrow> xs ! 0 = a \<Longrightarrow> xs ! 1 = b \<Longrightarrow> xs ! 2 = c \<Longrightarrow> xs = [a, b, c]"
  by (auto simp: list_eq_iff_nth_eq less_Suc_eq numeral_3_eq_3 numeral_2_eq_2)

lemma sqrt_DBL_EPSILON: "sqrt DBL_EPSILON = 1 / 2 ^ 26"
  unfolding DBL_EPSILON_def
  by (rule real_sqrt_unique) (simp_all add: power2_eq_square)

lemma sqrt_25: "sqrt 25 = 5"
  by (rule real_sqrt_unique) simp_all

lemma sqrt_16_25: "sqrt (16 / 25) = 4 / 5"
  by (rule real_sqrt_unique) (simp_all add: power2_eq_square)

lemma fold_update_length:
  "length (fold (\<lambda>i s. s[i := g i s]) xs s) = length s"
  by (induction xs arbitrary: s) simp_all

lemma fold_upt_update_nth:
  "k < length s \<Longrightarrow>
   fold (\<lambda>i s. s[i := g i (s ! i)]) [a..<b] s ! k =
     (if a \<le> k \<and> k < b then g k (s ! k) else s ! k)"
proof (induction b)
  case 0
  then show ?case by simp
next
  case (Suc b)
  let ?f = "\<lambda>i s. s[i := g i (s ! i)]"
  show ?case
  proof (cases "a \<le> b")
    case False
    then show ?thesis by auto
  next
    case True
    have len: "length (fold ?f [a..<b] s) = length s"
      by (rule fold_update_length[where g = "\<lambda>i s. g i (s ! i)"])
    show ?thesis
    proof (cases "k = b")
      case kb: True
      with Suc True len show ?thesis by simp
    next
      case False
      with Suc True len show ?thesis by auto
    qed
  qed
qed

lemma fold_cols_nth:
  assumes "k < length s" and "k < n"
  shows "fold (\<lambda>j. fold (\<lambda>i s. s[i := s ! i + F i j]) [0..<n]) [a..<b] s ! k =
         s ! k + (\<Sum>j = a..<b. F k j)"
proof (induction b)
  case 0
  then show ?case by simp
next
  case (Suc b)
  let ?inner = "\<lambda>j. fold (\<lambda>i s. s[i := s ! i + F i j]) [0..<n]"
  show ?case
  proof (cases "a \<le> b")
    case False
    then show ?thesis by simp
  next
    case True
    have len: "length (fold ?inner [a..<b] s) = length s"
      by (induction b) (simp_all add: fold_update_length[where g = "\<lambda>i s. s ! i + F i _"])
    have "fold ?inner [a..<Suc b] s ! k = ?inner b (fold ?inner [a..<b] s) ! k"
      using True by simp
    also have "\<dots> = fold ?inner [a..<b] s ! k + F k b"
      using fold_upt_update_nth[where g = "\<lambda>i v. v + F i b" and s = "fold ?inner [a..<b] s"
          and a = 0 and b = n and k = k] assms len
      by simp
    also have "\<dots> = s ! k + (\<Sum>j = a..<b. F k j) + F k b"
      using Suc by simp
    finally show ?thesis using True by (simp add: add.assoc)
  qed
qed

section \<open>The rank-one update: the diagonal it writes\<close>

lemma chol_update_col_length:
  "length (fst (chol_update_col p i b c j L u)) = length L \<and>
   length (snd (chol_update_col p i b c j L u)) = length u"
proof (induction p i b c j L u rule: chol_update_col.induct)
  case (1 p i b c j L u)
  show ?case
  proof (cases "j < p")
    case True
    then show ?thesis
      using "1.IH" by (subst (1 2) chol_update_col.simps) (simp add: Let_def)
  next
    case False
    then show ?thesis by (simp add: chol_update_col.simps)
  qed
qed


lemma diag_index_inj:
  fixes i p k :: nat
  shows "k * (p + 1) = i * (p + 1) \<longleftrightarrow> k = i"
  using mult_cancel2[of k "p + 1" i] by simp







section \<open>The rank-one downdate: when it fails and what it writes\<close>

lemma quantity_from_0: "quantity_from p i (L, u) 0 = downdate_quantity p i L u"
  by (simp add: quantity_from_def)

lemma quantity_from_Suc:
  "quantity_from p i (L, u) (Suc k) =
   quantity_from p (Suc i) (chol_downdate_step p i (downdate_quantity p i L u) L u) k"
  by (simp add: quantity_from_def)

lemma chol_downdate_col_length:
  "length (fst (chol_downdate_col p i b c j L u)) = length L \<and>
   length (snd (chol_downdate_col p i b c j L u)) = length u"
proof (induction p i b c j L u rule: chol_downdate_col.induct)
  case (1 p i b c j L u)
  show ?case
  proof (cases "j < p")
    case True
    then show ?thesis
      using "1.IH" by (subst (1 2) chol_downdate_col.simps) (simp add: Let_def)
  next
    case False
    then show ?thesis by (simp add: chol_downdate_col.simps)
  qed
qed

lemma chol_downdate_col_frame:
  "k < p * i + j \<or> p * i + p \<le> k \<Longrightarrow> fst (chol_downdate_col p i b c j L u) ! k = L ! k"
proof (induction p i b c j L u rule: chol_downdate_col.induct)
  case (1 p i b c j L u)
  show ?case
  proof (cases "j < p")
    case True
    with "1.prems" have ne: "p * i + j \<noteq> k" and nxt: "k < p * i + (j + 1) \<or> p * i + p \<le> k"
      by auto
    show ?thesis
      using True "1.IH"[OF True refl refl refl nxt] ne
      by (subst chol_downdate_col.simps) (simp add: Let_def)
  next
    case False
    then show ?thesis by (simp add: chol_downdate_col.simps)
  qed
qed

lemma chol_downdate_step_col:
  "chol_downdate_step p i a L u =
   chol_downdate_col p i (dsqrt a / L ! (i * (p + 1))) (u ! i / L ! (i * (p + 1))) (i + 1)
     (L[i * (p + 1) := dsqrt a]) u"
  by (simp only: chol_downdate_step_def Let_def)

lemma chol_downdate_step_length:
  assumes "chol_downdate_step p i a L u = (L2, u2)"
  shows "length L2 = length L \<and> length u2 = length u"
proof -
  let ?r = "chol_downdate_col p i (dsqrt a / L ! (i * (p + 1))) (u ! i / L ! (i * (p + 1))) (i + 1)
     (L[i * (p + 1) := dsqrt a]) u"
  from assms have "?r = (L2, u2)"
    by (simp only: chol_downdate_step_col)
  then have "fst ?r = L2" and "snd ?r = u2"
    by simp_all
  then show ?thesis
    using chol_downdate_col_length[of p i "dsqrt a / L ! (i * (p + 1))" "u ! i / L ! (i * (p + 1))"
        "i + 1" "L[i * (p + 1) := dsqrt a]" u]
    by simp
qed

lemma chol_downdate_step_frame:
  assumes "chol_downdate_step p i a L u = (L2, u2)" and "d < i * (p + 1)"
  shows "L2 ! d = L ! d"
proof -
  let ?r = "chol_downdate_col p i (dsqrt a / L ! (i * (p + 1))) (u ! i / L ! (i * (p + 1))) (i + 1)
     (L[i * (p + 1) := dsqrt a]) u"
  from assms(1) have "?r = (L2, u2)"
    by (simp only: chol_downdate_step_col)
  then have r: "fst ?r = L2"
    by simp
  from assms(2) have lt: "d < p * i + (i + 1)" and ne: "i * (p + 1) \<noteq> d"
    by (simp_all add: algebra_simps)
  have "fst ?r ! d = (L[i * (p + 1) := dsqrt a]) ! d"
    using lt by (intro chol_downdate_col_frame) simp
  then show ?thesis
    using r by (simp only: nth_list_update_neq[OF ne])
qed

lemma chol_downdate_step_diag:
  assumes "chol_downdate_step p i a L u = (L2, u2)" and "i * (p + 1) < length L"
  shows "L2 ! (i * (p + 1)) = dsqrt a"
proof -
  let ?r = "chol_downdate_col p i (dsqrt a / L ! (i * (p + 1))) (u ! i / L ! (i * (p + 1))) (i + 1)
     (L[i * (p + 1) := dsqrt a]) u"
  from assms(1) have "?r = (L2, u2)"
    by (simp only: chol_downdate_step_col)
  then have r: "fst ?r = L2"
    by simp
  have lt: "i * (p + 1) < p * i + (i + 1)"
    by (simp add: algebra_simps)
  have "fst ?r ! (i * (p + 1)) = (L[i * (p + 1) := dsqrt a]) ! (i * (p + 1))"
    using lt by (intro chol_downdate_col_frame) simp
  then show ?thesis
    using r assms(2) by (simp only: nth_list_update_eq)
qed

lemma chol_downdate_loop_frame:
  "chol_downdate_loop p i L u = (err, L', u') \<Longrightarrow> d < i * (p + 1) \<Longrightarrow>
   L' ! d = L ! d \<and> length L' = length L \<and> length u' = length u"
proof (induction p i L u rule: chol_downdate_loop.induct)
  case (1 p i L u)
  show ?case
  proof (cases "i + 1 < p")
    case False
    with "1.prems" show ?thesis
      by (simp add: chol_downdate_loop.simps)
  next
    case True
    define a where "a = POWER2 (L ! (i * (p + 1))) - POWER2 (u ! i)"
    show ?thesis
    proof (cases "a < 0")
      case neg: True
      with True "1.prems" show ?thesis
        by (subst (asm) chol_downdate_loop.simps) (simp add: Let_def a_def)
    next
      case nonneg: False
      obtain L2 u2 where step: "chol_downdate_step p i a L u = (L2, u2)"
        by (cases "chol_downdate_step p i a L u")
      have rec: "chol_downdate_loop p (i + 1) L2 u2 = (err, L', u')"
        using "1.prems"(1) True nonneg step
        by (subst (asm) chol_downdate_loop.simps) (simp add: Let_def a_def)
      have d2: "d < (i + 1) * (p + 1)"
        using "1.prems"(2) by (simp add: algebra_simps)
      from "1.IH"[OF True refl a_def nonneg step[symmetric] refl rec d2]
        chol_downdate_step_frame[OF step "1.prems"(2)] chol_downdate_step_length[OF step]
      show ?thesis by simp
    qed
  qed
qed

lemma chol_downdate_loop_length:
  "chol_downdate_loop p i L u = (err, L', u') \<Longrightarrow> length L' = length L \<and> length u' = length u"
proof (induction p i L u rule: chol_downdate_loop.induct)
  case (1 p i L u)
  show ?case
  proof (cases "i + 1 < p")
    case False
    with "1.prems" show ?thesis
      by (simp add: chol_downdate_loop.simps)
  next
    case True
    define a where "a = POWER2 (L ! (i * (p + 1))) - POWER2 (u ! i)"
    show ?thesis
    proof (cases "a < 0")
      case neg: True
      with True "1.prems" show ?thesis
        by (subst (asm) chol_downdate_loop.simps) (simp add: Let_def a_def)
    next
      case nonneg: False
      obtain L2 u2 where step: "chol_downdate_step p i a L u = (L2, u2)"
        by (cases "chol_downdate_step p i a L u")
      have rec: "chol_downdate_loop p (i + 1) L2 u2 = (err, L', u')"
        using "1.prems"(1) True nonneg step
        by (subst (asm) chol_downdate_loop.simps) (simp add: Let_def a_def)
      from "1.IH"[OF True refl a_def nonneg step[symmetric] refl rec]
        chol_downdate_step_length[OF step]
      show ?thesis by simp
    qed
  qed
qed

lemma diag_index_lt:
  fixes i p :: nat
  assumes "i < p"
  shows "i * (p + 1) < p * p"
proof -
  from assms have "i + 1 \<le> p" by simp
  then have "(i + 1) * p \<le> p * p" by (rule mult_le_mono1)
  then show ?thesis using assms by (simp add: algebra_simps)
qed

lemma chol_downdate_loop_result:
  "chol_downdate_loop p i L u = (err, L', u') \<Longrightarrow> i < p \<Longrightarrow> length L = p * p \<Longrightarrow>
   (err = WBACON_ERROR_OK \<or> err = WBACON_ERROR_RANK_DEFICIENT) \<and>
   (err = WBACON_ERROR_RANK_DEFICIENT \<longleftrightarrow> (\<exists>k. i + k + 1 < p \<and> quantity_from p i (L, u) k < 0)) \<and>
   (err = WBACON_ERROR_OK \<longrightarrow>
      (L', u') = downdate_state p i (p - 1 - i) (L, u) \<and>
      (\<forall>k. i + k + 1 < p \<longrightarrow> L' ! ((i + k) * (p + 1)) = dsqrt (quantity_from p i (L, u) k)))"
proof (induction p i L u rule: chol_downdate_loop.induct)
  case (1 p i L u)
  show ?case
  proof (cases "i + 1 < p")
    case False
    with "1.prems" have "err = WBACON_ERROR_OK" "L' = L" "u' = u" "p - 1 - i = 0"
      by (simp_all add: chol_downdate_loop.simps)
    with False show ?thesis by simp
  next
    case True
    define a where "a = POWER2 (L ! (i * (p + 1))) - POWER2 (u ! i)"
    have a_q: "quantity_from p i (L, u) 0 = a"
      by (simp add: quantity_from_0 downdate_quantity_def a_def)
    show ?thesis
    proof (cases "a < 0")
      case neg: True
      with True "1.prems" have "err = WBACON_ERROR_RANK_DEFICIENT"
        by (subst (asm) chol_downdate_loop.simps) (simp add: Let_def a_def)
      moreover have "\<exists>k. i + k + 1 < p \<and> quantity_from p i (L, u) k < 0"
        using True neg a_q by (intro exI[of _ 0]) simp
      ultimately show ?thesis by simp
    next
      case nonneg: False
      obtain L2 u2 where step: "chol_downdate_step p i a L u = (L2, u2)"
        by (cases "chol_downdate_step p i a L u")
      have rec: "chol_downdate_loop p (i + 1) L2 u2 = (err, L', u')"
        using "1.prems"(1) True nonneg step
        by (subst (asm) chol_downdate_loop.simps) (simp add: Let_def a_def)
      have len2: "length L2 = p * p"
        using chol_downdate_step_length[OF step] "1.prems"(3) by simp
      note IH = "1.IH"[OF True refl a_def nonneg step[symmetric] refl rec True len2]
      have shift: "quantity_from p i (L, u) (Suc k) = quantity_from p (i + 1) (L2, u2) k" for k
        using step by (simp add: quantity_from_Suc downdate_quantity_def a_def)
      have st_shift: "downdate_state p i (Suc k) (L, u) = downdate_state p (i + 1) k (L2, u2)" for k
        using step by (simp add: downdate_quantity_def a_def)
      have ex_iff: "(\<exists>k. i + k + 1 < p \<and> quantity_from p i (L, u) k < 0) \<longleftrightarrow>
                    (\<exists>k. i + 1 + k + 1 < p \<and> quantity_from p (i + 1) (L2, u2) k < 0)"
      proof
        assume "\<exists>k. i + k + 1 < p \<and> quantity_from p i (L, u) k < 0"
        then obtain k where k: "i + k + 1 < p" "quantity_from p i (L, u) k < 0" by blast
        with nonneg a_q have "k \<noteq> 0" by (cases k) auto
        then obtain k' where "k = Suc k'" by (cases k) auto
        with k shift[of k'] show "\<exists>k. i + 1 + k + 1 < p \<and> quantity_from p (i + 1) (L2, u2) k < 0"
          by (intro exI[of _ k']) simp
      next
        assume "\<exists>k. i + 1 + k + 1 < p \<and> quantity_from p (i + 1) (L2, u2) k < 0"
        then obtain k where "i + 1 + k + 1 < p" "quantity_from p (i + 1) (L2, u2) k < 0" by blast
        with shift[of k] show "\<exists>k. i + k + 1 < p \<and> quantity_from p i (L, u) k < 0"
          by (intro exI[of _ "Suc k"]) simp
      qed
      have ok_part: "(L', u') = downdate_state p i (p - 1 - i) (L, u) \<and>
          (\<forall>k. i + k + 1 < p \<longrightarrow> L' ! ((i + k) * (p + 1)) = dsqrt (quantity_from p i (L, u) k))"
        if ok: "err = WBACON_ERROR_OK"
      proof
        from True have "p - 1 - i = Suc (p - 1 - (i + 1))" by simp
        with IH ok st_shift[of "p - 1 - (i + 1)"]
        show "(L', u') = downdate_state p i (p - 1 - i) (L, u)" by simp
      next
        show "\<forall>k. i + k + 1 < p \<longrightarrow> L' ! ((i + k) * (p + 1)) = dsqrt (quantity_from p i (L, u) k)"
        proof (intro allI impI)
          fix k assume k: "i + k + 1 < p"
          show "L' ! ((i + k) * (p + 1)) = dsqrt (quantity_from p i (L, u) k)"
          proof (cases k)
            case 0
            have "i * (p + 1) < (i + 1) * (p + 1)" by simp
            from chol_downdate_loop_frame[OF rec this]
            have "L' ! (i * (p + 1)) = L2 ! (i * (p + 1))" by simp
            also have "\<dots> = dsqrt a"
              using chol_downdate_step_diag[OF step] diag_index_lt[OF "1.prems"(2)] "1.prems"(3)
              by simp
            finally show ?thesis using 0 a_q by simp
          next
            case (Suc k')
            with k have "i + 1 + k' + 1 < p" by simp
            with IH ok have "L' ! ((i + 1 + k') * (p + 1)) = dsqrt (quantity_from p (i + 1) (L2, u2) k')"
              by blast
            then show ?thesis using Suc shift[of k'] by simp
          qed
        qed
      qed
      from IH ex_iff ok_part show ?thesis by blast
    qed
  qed
qed


lemma chol_downdate_result:
  assumes "1 \<le> p" and "length L = p * p" and "length u = p"
  shows "(fst (chol_downdate L u p) = WBACON_ERROR_RANK_DEFICIENT \<longleftrightarrow>
            (\<exists>k<p. step_quantity p L u k < 0)) \<and>
         (fst (chol_downdate L u p) \<noteq> WBACON_ERROR_RANK_DEFICIENT \<longrightarrow>
            (\<exists>L' u'. chol_downdate L u p = (WBACON_ERROR_OK, L', u') \<and>
               (\<forall>k<p. L' ! (k * (p + 1)) = dsqrt (step_quantity p L u k))))"
proof -
  obtain err L1 u1 where loop: "chol_downdate_loop p 0 L u = (err, L1, u1)"
    by (cases "chol_downdate_loop p 0 L u")
  from assms have p0: "0 < p" by simp
  note R = chol_downdate_loop_result[OF loop p0 assms(2)]
  have err_cases: "err = WBACON_ERROR_OK \<or> err = WBACON_ERROR_RANK_DEFICIENT"
    using R by blast
  have "err = WBACON_ERROR_RANK_DEFICIENT \<longleftrightarrow> (\<exists>k. 0 + k + 1 < p \<and> quantity_from p 0 (L, u) k < 0)"
    using R by blast
  then have fail_iff: "err = WBACON_ERROR_RANK_DEFICIENT \<longleftrightarrow> (\<exists>k. k + 1 < p \<and> step_quantity p L u k < 0)"
    by (simp add: step_quantity_def)
  have ok_state: "(L1, u1) = downdate_state p 0 (p - 1) (L, u)" if "err = WBACON_ERROR_OK"
    using R that by simp
  have ok_diag: "\<forall>k. k + 1 < p \<longrightarrow> L1 ! (k * (p + 1)) = dsqrt (step_quantity p L u k)"
    if "err = WBACON_ERROR_OK"
  proof -
    from R that have "\<forall>k. 0 + k + 1 < p \<longrightarrow> L1 ! ((0 + k) * (p + 1)) = dsqrt (quantity_from p 0 (L, u) k)"
      by blast
    then show ?thesis by (simp add: step_quantity_def)
  qed
  have last: "(p - 1) * (p + 1) = p * p - 1"
    using p0 by (cases p) (simp_all add: algebra_simps)
  have len1: "length L1 = p * p"
    using chol_downdate_loop_length[OF loop] assms(2) by simp
  define a where "a = POWER2 (L1 ! (p * p - 1)) - POWER2 (u1 ! (p - 1))"
  have a_q: "a = step_quantity p L u (p - 1)" if "err = WBACON_ERROR_OK"
  proof -
    have "step_quantity p L u (p - 1) = downdate_quantity p (p - 1) L1 u1"
      using ok_state[OF that, symmetric] by (simp add: step_quantity_def quantity_from_def)
    also have "\<dots> = a"
      unfolding downdate_quantity_def a_def last by (rule refl)
    finally show ?thesis by simp
  qed
  show ?thesis
  proof (cases "err = WBACON_ERROR_OK")
    case False
    with err_cases have rd: "err = WBACON_ERROR_RANK_DEFICIENT" by simp
    then have res: "fst (chol_downdate L u p) = WBACON_ERROR_RANK_DEFICIENT"
      by (simp add: chol_downdate_def loop)
    from rd fail_iff obtain k where "k + 1 < p" "step_quantity p L u k < 0" by blast
    then have "\<exists>k<p. step_quantity p L u k < 0"
      by (intro exI[of _ k]) simp
    with res show ?thesis by simp
  next
    case ok: True
    with fail_iff have no_early: "\<not> (\<exists>k. k + 1 < p \<and> step_quantity p L u k < 0)" by simp
    have split: "(\<exists>k<p. step_quantity p L u k < 0) \<longleftrightarrow> a < 0"
    proof
      assume "\<exists>k<p. step_quantity p L u k < 0"
      then obtain k where k: "k < p" "step_quantity p L u k < 0" by blast
      with no_early have "\<not> k + 1 < p" by blast
      with k have "k = p - 1" by simp
      with k a_q[OF ok] show "a < 0" by simp
    next
      assume "a < 0"
      with a_q[OF ok] p0 show "\<exists>k<p. step_quantity p L u k < 0"
        by (intro exI[of _ "p - 1"]) simp
    qed
    show ?thesis
    proof (cases "a < 0")
      case True
      then have "fst (chol_downdate L u p) = WBACON_ERROR_RANK_DEFICIENT"
        using ok by (simp add: chol_downdate_def loop a_def Let_def)
      with split True show ?thesis by simp
    next
      case False
      then have res: "chol_downdate L u p = (WBACON_ERROR_OK, L1[p * p - 1 := dsqrt a], u1)"
        using ok by (simp add: chol_downdate_def loop a_def Let_def)
      have "L1[p * p - 1 := dsqrt a] ! (k * (p + 1)) = dsqrt (step_quantity p L u k)" if k: "k < p" for k
      proof (cases "k + 1 < p")
        case True
        then have "k \<noteq> p - 1" by simp
        then have "k * (p + 1) \<noteq> (p - 1) * (p + 1)"
          by (simp only: diag_index_inj) simp
        then have ne: "p * p - 1 \<noteq> k * (p + 1)"
          by (simp only: last)
        have "L1 ! (k * (p + 1)) = dsqrt (step_quantity p L u k)"
          using ok_diag[OF ok] True by blast
        then show ?thesis
          by (simp only: nth_list_update_neq[OF ne])
      next
        case False
        with k have kp: "k = p - 1" by simp
        then have eq: "k * (p + 1) = p * p - 1"
          by (simp only: last)
        have "p * p - 1 < length L1"
          using len1 p0 by simp
        then have "L1[p * p - 1 := dsqrt a] ! (p * p - 1) = dsqrt a"
          by (rule nth_list_update_eq)
        then show ?thesis
          using a_q[OF ok] kp eq by simp
      qed
      with res split False show ?thesis by simp
    qed
  qed
qed

lemma sqrt_16: "sqrt 16 = 4"
  by (rule real_sqrt_unique) simp_all

lemma zero_le_not_less_zero:
  fixes x :: double
  shows "0 \<le> x \<Longrightarrow> \<not> x < 0"
  by (cases x) (simp_all add: less_eq_double_def less_double_def zero_double_def)

text \<open>
  C4. For a factor of \<open>p * p\<close> entries and an update vector of \<open>p\<close> entries, \<open>p \<ge> 1\<close>:
  the downdate returns \<open>WBACON_ERROR_RANK_DEFICIENT\<close> if and only if at some column step
  \<open>k < p\<close> the squared diagonal entry minus the squared update-vector entry is negative
  (the test \<^verbatim>\<open>a < 0.0\<close> of the source, on doubles that may be infinite or NaN); and when
  every such quantity is nonnegative it returns \<open>WBACON_ERROR_OK\<close> and the diagonal entry
  \<open>k\<close> of the returned factor is the square root of the quantity of step \<open>k\<close>. (The
  quantities are those of the steps run without the test; up to and including the first
  negative one they are the values the source computes.)
\<close>

theorem chol_downdate_fails_iff_negative:
  assumes "1 \<le> p" and "length L = p * p" and "length u = p"
  shows "(fst (chol_downdate L u p) = WBACON_ERROR_RANK_DEFICIENT \<longleftrightarrow>
            (\<exists>k<p. step_quantity p L u k < 0)) \<and>
         ((\<forall>k<p. 0 \<le> step_quantity p L u k) \<longrightarrow>
            (\<exists>L' u'. chol_downdate L u p = (WBACON_ERROR_OK, L', u') \<and>
               (\<forall>k<p. L' ! (k * (p + 1)) = dsqrt (step_quantity p L u k))))"
proof -
  note R = chol_downdate_result[OF assms]
  have iff: "fst (chol_downdate L u p) = WBACON_ERROR_RANK_DEFICIENT \<longleftrightarrow>
            (\<exists>k<p. step_quantity p L u k < 0)"
    using R by (rule conjunct1)
  have "\<exists>L' u'. chol_downdate L u p = (WBACON_ERROR_OK, L', u') \<and>
               (\<forall>k<p. L' ! (k * (p + 1)) = dsqrt (step_quantity p L u k))"
    if nonneg: "\<forall>k<p. 0 \<le> step_quantity p L u k"
  proof -
    from nonneg have "\<not> (\<exists>k<p. step_quantity p L u k < 0)"
      by (auto dest: zero_le_not_less_zero)
    with iff have "fst (chol_downdate L u p) \<noteq> WBACON_ERROR_RANK_DEFICIENT"
      by simp
    with R show ?thesis by blast
  qed
  with iff show ?thesis by blast
qed

theorem chol_downdate_fails_iff_negative_witness:
  "(1::nat) \<le> 2 \<and> length [Finite 5, Finite 3, Finite 0, Finite 2] = 2 * 2 \<and>
   length [Finite 3, Finite 1] = 2 \<and>
   step_quantity 2 [Finite 5, Finite 3, Finite 0, Finite 2] [Finite 3, Finite 1] 0 = Finite 16 \<and>
   step_quantity 2 [Finite 5, Finite 3, Finite 0, Finite 2] [Finite 3, Finite 1] 1 = Finite 3 \<and>
   fst (chol_downdate [Finite 5, Finite 3, Finite 0, Finite 2] [Finite 3, Finite 1] 2) =
     WBACON_ERROR_OK \<and>
   fst (snd (chol_downdate [Finite 5, Finite 3, Finite 0, Finite 2] [Finite 3, Finite 1] 2)) ! 0 =
     Finite 4 \<and>
   fst (snd (chol_downdate [Finite 5, Finite 3, Finite 0, Finite 2] [Finite 3, Finite 1] 2)) ! 3 =
     Finite (sqrt 3) \<and>
   step_quantity 2 [Finite 3, Finite 2, Finite 0, Finite 2] [Finite 3, Finite 1] 0 = Finite 0 \<and>
   step_quantity 2 [Finite 3, Finite 2, Finite 0, Finite 2] [Finite 3, Finite 1] 1 = NegInf \<and>
   fst (chol_downdate [Finite 3, Finite 2, Finite 0, Finite 2] [Finite 3, Finite 1] 2) =
     WBACON_ERROR_RANK_DEFICIENT"
proof -
  let ?L = "[Finite 5, Finite 3, Finite 0, Finite 2]" and ?u = "[Finite 3, Finite 1]"
  let ?M = "[Finite 3, Finite 2, Finite 0, Finite 2]"
  note arith = double_eval
  have q0: "step_quantity 2 ?L ?u 0 = Finite 16"
    by (simp add: step_quantity_def quantity_from_def downdate_quantity_def arith)
  have q1: "step_quantity 2 ?L ?u 1 = Finite 3"
    by (simp add: step_quantity_def quantity_from_def downdate_quantity_def arith
        chol_downdate_step_def chol_downdate_col.simps Let_def sqrt_16)
  have r0: "step_quantity 2 ?M ?u 0 = Finite 0"
    by (simp add: step_quantity_def quantity_from_def downdate_quantity_def arith)
  have r1: "step_quantity 2 ?M ?u 1 = NegInf"
    by (simp add: step_quantity_def quantity_from_def downdate_quantity_def arith
        chol_downdate_step_def chol_downdate_col.simps Let_def)
  have two: "k = 0 \<or> k = 1" if "k < 2" for k :: nat
    using that by arith
  have nonneg: "\<forall>k<2. 0 \<le> step_quantity 2 ?L ?u k"
  proof (intro allI impI)
    fix k :: nat
    assume "k < 2"
    from two[OF this] show "0 \<le> step_quantity 2 ?L ?u k"
    proof
      assume "k = 0"
      then show ?thesis using q0 by (simp add: zero_le_Finite)
    next
      assume "k = 1"
      then show ?thesis using q1 by (simp add: zero_le_Finite)
    qed
  qed
  have "(1::nat) < 2" and "NegInf < (0::double)"
    by (simp_all add: double_eval)
  with r1 have ex: "\<exists>k<2. step_quantity 2 ?M ?u k < 0"
    by (intro exI[of _ 1]) simp
  have T1: "fst (chol_downdate ?M ?u 2) = WBACON_ERROR_RANK_DEFICIENT \<longleftrightarrow>
            (\<exists>k<2. step_quantity 2 ?M ?u k < 0)"
    using chol_downdate_fails_iff_negative[of 2 ?M ?u] by simp
  have rd: "fst (chol_downdate ?M ?u 2) = WBACON_ERROR_RANK_DEFICIENT"
    using T1 ex by blast
  have T2: "(\<forall>k<2. 0 \<le> step_quantity 2 ?L ?u k) \<longrightarrow>
            (\<exists>L' u'. chol_downdate ?L ?u 2 = (WBACON_ERROR_OK, L', u') \<and>
               (\<forall>k<2. L' ! (k * (2 + 1)) = dsqrt (step_quantity 2 ?L ?u k)))"
    using chol_downdate_fails_iff_negative[of 2 ?L ?u] by simp
  from nonneg T2 obtain L' u' where r: "chol_downdate ?L ?u 2 = (WBACON_ERROR_OK, L', u')"
    and diag: "\<forall>k<2. L' ! (k * (2 + 1)) = dsqrt (step_quantity 2 ?L ?u k)"
    by blast
  have "(0::nat) < 2" and "(1::nat) < 2" by simp_all
  with diag have "L' ! (0 * (2 + 1)) = dsqrt (step_quantity 2 ?L ?u 0)"
    and "L' ! (1 * (2 + 1)) = dsqrt (step_quantity 2 ?L ?u 1)" by blast+
  with q0 q1 r have "fst (snd (chol_downdate ?L ?u 2)) ! 0 = Finite 4"
    and "fst (snd (chol_downdate ?L ?u 2)) ! 3 = Finite (sqrt 3)"
    by (simp_all add: sqrt_16)
  with q0 q1 r0 r1 r rd show ?thesis by simp
qed
section \<open>The transition between subsets restores its state when a downdate fails\<close>

lemma chol_update_loop_length:
  "chol_update_loop p i L u = (L', u') \<Longrightarrow> length L' = length L \<and> length u' = length u"
proof (induction p i L u rule: chol_update_loop.induct)
  case (1 p i L u)
  show ?case
  proof (cases "i + 1 < p")
    case False
    with "1.prems" show ?thesis
      by (simp add: chol_update_loop.simps)
  next
    case True
    define tmp where "tmp = L ! (i * (p + 1))"
    define a where "a = hypot tmp (u ! i)"
    define b where "b = a / tmp"
    define c where "c = u ! i / tmp"
    define L1 where "L1 = L[i * (p + 1) := a]"
    obtain L2 u2 where col: "chol_update_col p i b c (i + 1) L1 u = (L2, u2)"
      by (cases "chol_update_col p i b c (i + 1) L1 u")
    have rec: "chol_update_loop p (i + 1) L2 u2 = (L', u')"
      using "1.prems"(1) True col
      by (subst (asm) chol_update_loop.simps)
         (simp add: Let_def tmp_def a_def b_def c_def L1_def)
    have len: "length L2 = length L" "length u2 = length u"
      using chol_update_col_length[of p i b c "i + 1" L1 u] col
      by (simp_all add: L1_def)
    from "1.IH"[OF True tmp_def a_def b_def c_def L1_def col[symmetric] refl rec] len
    show ?thesis by simp
  qed
qed

lemma chol_update_length:
  assumes "chol_update L u p = (L', u')"
  shows "length L' = length L \<and> length u' = length u"
proof -
  obtain L1 u1 where loop: "chol_update_loop p 0 L u = (L1, u1)"
    by (cases "chol_update_loop p 0 L u")
  from assms loop have "length L' = length L1" and "u' = u1"
    by (auto simp: chol_update_def)
  with chol_update_loop_length[OF loop] show ?thesis by simp
qed

lemma chol_downdate_loop_err:
  "chol_downdate_loop p i L u = (err, L', u') \<Longrightarrow>
   err = WBACON_ERROR_OK \<or> err = WBACON_ERROR_RANK_DEFICIENT"
proof (induction p i L u rule: chol_downdate_loop.induct)
  case (1 p i L u)
  show ?case
  proof (cases "i + 1 < p")
    case False
    with "1.prems" show ?thesis
      by (simp add: chol_downdate_loop.simps)
  next
    case True
    define a where "a = POWER2 (L ! (i * (p + 1))) - POWER2 (u ! i)"
    show ?thesis
    proof (cases "a < 0")
      case neg: True
      with True "1.prems" show ?thesis
        by (subst (asm) chol_downdate_loop.simps) (simp add: Let_def a_def)
    next
      case nonneg: False
      obtain L2 u2 where step: "chol_downdate_step p i a L u = (L2, u2)"
        by (cases "chol_downdate_step p i a L u")
      have rec: "chol_downdate_loop p (i + 1) L2 u2 = (err, L', u')"
        using "1.prems"(1) True nonneg step
        by (subst (asm) chol_downdate_loop.simps) (simp add: Let_def a_def)
      from "1.IH"[OF True refl a_def nonneg step[symmetric] refl rec]
      show ?thesis .
    qed
  qed
qed

lemma chol_downdate_length_err:
  assumes "chol_downdate L u p = (err, L', u')"
  shows "length L' = length L \<and> length u' = length u \<and>
         (err = WBACON_ERROR_OK \<or> err = WBACON_ERROR_RANK_DEFICIENT)"
proof -
  obtain e L1 u1 where loop: "chol_downdate_loop p 0 L u = (e, L1, u1)"
    by (cases "chol_downdate_loop p 0 L u")
  note len = chol_downdate_loop_length[OF loop] and e = chol_downdate_loop_err[OF loop]
  from assms loop have "length L' = length L1" and "u' = u1"
    and "err = WBACON_ERROR_OK \<or> err = WBACON_ERROR_RANK_DEFICIENT"
    using e by (auto simp: chol_downdate_def Let_def split: if_splits)
  with len show ?thesis by simp
qed

lemma xty_add_row_length:
  assumes "xty_add_row dat i (xtx, xty) = (xtx', xty')"
  shows "length xtx' = length xtx \<and> length xty' = length xty"
proof -
  let ?P = "\<lambda>s. length (fst s) = length xtx \<and> length (snd s) = length xty"
  have "?P (xty_add_row dat i (xtx, xty))"
    unfolding xty_add_row_def
    by (rule fold_invariant[where Q = "\<lambda>_. True"]) (auto simp: case_prod_beta)
  with assms show ?thesis by simp
qed

lemma xty_sub_row_length:
  assumes "xty_sub_row dat i (xtx, xty) = (xtx', xty')"
  shows "length xtx' = length xtx \<and> length xty' = length xty"
proof -
  let ?P = "\<lambda>s. length (fst s) = length xtx \<and> length (snd s) = length xty"
  have "?P (xty_sub_row dat i (xtx, xty))"
    unfolding xty_sub_row_def
    by (rule fold_invariant[where Q = "\<lambda>_. True"]) (auto simp: case_prod_beta)
  with assms show ?thesis by simp
qed

lemma first_pass_length:
  assumes "update_chol_xty_first_pass dat subset0 subset1 (L, xty, xtx, stack, nu, nd) =
           (L', xty', xtx', stack', nu', nd')"
  shows "length L' = length L \<and> length xty' = length xty \<and> length xtx' = length xtx \<and>
         length stack' = length stack"
proof -
  let ?P = "\<lambda>s. case s of (L', xty', xtx', stack', nu', nd') \<Rightarrow>
     length L' = length L \<and> length xty' = length xty \<and> length xtx' = length xtx \<and>
     length stack' = length stack"
  have "?P (update_chol_xty_first_pass dat subset0 subset1 (L, xty, xtx, stack, nu, nd))"
    unfolding update_chol_xty_first_pass_def
  proof (rule fold_invariant[where Q = "\<lambda>_. True"])
    show "?P (L, xty, xtx, stack, nu, nd)" by simp
  next
    fix i :: nat and s :: "double list \<times> real list \<times> double list \<times> int list \<times> nat \<times> nat"
    assume P: "?P s"
    obtain La xa ua sa na da where s: "s = (La, xa, ua, sa, na, da)"
      by (cases s)
    obtain u1 x1 where add: "xty_add_row dat i (ua, xa) = (u1, x1)"
      by (cases "xty_add_row dat i (ua, xa)")
    obtain L1 u2 where upd: "chol_update La u1 (dat_p dat) = (L1, u2)"
      by (cases "chol_update La u1 (dat_p dat)")
    from P s xty_add_row_length[OF add] chol_update_length[OF upd]
    show "?P ((\<lambda>i (L, xty, xtx_update, stack, n_update, n_downdate).
            if subset1 ! i > subset0 ! i then
              let (xtx1, xty1) = xty_add_row dat i (xtx_update, xty);
                  (L1, xtx2) = chol_update L xtx1 (dat_p dat)
              in (L1, xty1, xtx2, stack, n_update + 1, n_downdate)
            else if subset1 ! i < subset0 ! i then
              (L, xty, xtx_update, stack[n_downdate := int i], n_update, n_downdate + 1)
            else (L, xty, xtx_update, stack, n_update, n_downdate)) i s)"
      by (simp add: add upd)
  qed simp
  with assms show ?thesis by simp
qed

lemma downdate_row_result:
  assumes "downdate_row dat at_i (L, xty, xtx) = (err, L', xty', xtx')"
  shows "length L' = length L \<and> length xty' = length xty \<and> length xtx' = length xtx \<and>
         (err = WBACON_ERROR_OK \<or> err = WBACON_ERROR_RANK_DEFICIENT)"
proof -
  obtain xtx1 xty1 where sub: "xty_sub_row dat at_i (xtx, xty) = (xtx1, xty1)"
    by (cases "xty_sub_row dat at_i (xtx, xty)")
  obtain e L1 xtx2 where dd: "chol_downdate L xtx1 (dat_p dat) = (e, L1, xtx2)"
    by (cases "chol_downdate L xtx1 (dat_p dat)") auto
  from assms have "err = e" "L' = L1" "xty' = xty1" "xtx' = xtx2"
    by (simp_all add: downdate_row_def sub dd)
  with xty_sub_row_length[OF sub] chol_downdate_length_err[OF dd] show ?thesis
    by simp
qed

lemma second_pass_step:
  assumes "i < nd" and "downdate_row dat (nat (stack ! i)) s = (WBACON_ERROR_OK, s')"
  shows "update_chol_xty_second_pass dat wpp wnp stack nd i s =
         update_chol_xty_second_pass dat wpp wnp stack nd (i + 1) s'"
  using assms by (subst update_chol_xty_second_pass.simps) (simp add: case_prod_beta)

lemma second_pass_stop:
  assumes "i < nd" and "downdate_row dat (nat (stack ! i)) s = (err, L1, xty1, xtx2)"
    and "err \<noteq> WBACON_ERROR_OK"
  shows "update_chol_xty_second_pass dat wpp wnp stack nd i s =
         (err, Memcpy L1 (map Finite wpp) (dat_p dat * dat_p dat), Memcpy xty1 wnp (dat_p dat), xtx2)"
  using assms by (subst update_chol_xty_second_pass.simps) simp

lemma downdates_done_second_pass:
  "downdates_done dat stack k (L, xty, xtx) = Some (L', xty', xtx') \<Longrightarrow> k \<le> nd \<Longrightarrow>
   update_chol_xty_second_pass dat wpp wnp stack nd 0 (L, xty, xtx) =
     update_chol_xty_second_pass dat wpp wnp stack nd k (L', xty', xtx') \<and>
   length L' = length L \<and> length xty' = length xty \<and> length xtx' = length xtx"
proof (induction k arbitrary: L' xty' xtx')
  case 0
  then show ?case by simp
next
  case (Suc k)
  from Suc.prems(1) obtain s1 where
    dn: "downdates_done dat stack k (L, xty, xtx) = Some s1"
    and row: "downdate_row dat (nat (stack ! k)) s1 = (WBACON_ERROR_OK, L', xty', xtx')"
    by (auto split: option.splits prod.splits if_splits)
  obtain La xa ua where s1: "s1 = (La, xa, ua)"
    by (cases s1)
  from Suc.prems(2) have k: "k \<le> nd" "k < nd" by simp_all
  note IH = Suc.IH[OF dn[unfolded s1] k(1)]
  note len = downdate_row_result[OF row[unfolded s1]]
  from second_pass_step[OF k(2) row, of wpp wnp] IH len show ?case
    by (simp add: s1)
qed

lemma second_pass_failure:
  "update_chol_xty_second_pass dat wpp wnp stack nd i (L, xty, xtx) = (err, L', xty', xtx') \<Longrightarrow>
   err \<noteq> WBACON_ERROR_OK \<Longrightarrow> length L = dat_p dat * dat_p dat \<Longrightarrow> length xty = dat_p dat \<Longrightarrow>
   err = WBACON_ERROR_RANK_DEFICIENT \<and> L' = map Finite (take (dat_p dat * dat_p dat) wpp) \<and>
   xty' = take (dat_p dat) wnp"
proof (induction dat wpp wnp stack nd i "(L, xty, xtx)" arbitrary: L xty xtx
    rule: update_chol_xty_second_pass.induct)
  case (1 dat wpp wnp stack nd i L xty xtx)
  show ?case
  proof (cases "i < nd")
    case False
    with "1.prems" show ?thesis
      by (simp add: update_chol_xty_second_pass.simps)
  next
    case True
    obtain e L1 xty1 xtx2 where
      row: "downdate_row dat (nat (stack ! i)) (L, xty, xtx) = (e, L1, xty1, xtx2)"
      by (cases "downdate_row dat (nat (stack ! i)) (L, xty, xtx)") auto
    note len = downdate_row_result[OF row]
    show ?thesis
    proof (cases "e = WBACON_ERROR_OK")
      case False
      from second_pass_stop[OF True row False, of wpp wnp] "1.prems"(1)
      have "err = e" "L' = Memcpy L1 (map Finite wpp) (dat_p dat * dat_p dat)"
        "xty' = Memcpy xty1 wnp (dat_p dat)"
        by simp_all
      with False len "1.prems"(3,4) show ?thesis
        by (simp add: Memcpy_def take_map)
    next
      case ok: True
      from second_pass_step[OF True row[unfolded ok], of wpp wnp] "1.prems"(1)
      have rec: "update_chol_xty_second_pass dat wpp wnp stack nd (i + 1) (L1, xty1, xtx2) =
                 (err, L', xty', xtx')"
        by simp
      have l1: "length L1 = dat_p dat * dat_p dat" and l2: "length xty1 = dat_p dat"
        using len "1.prems"(3,4) by simp_all
      have e_ok: "\<not> e \<noteq> WBACON_ERROR_OK" using ok by simp
      from "1.hyps"[OF True row[symmetric] refl refl refl e_ok rec "1.prems"(2) l1 l2]
      show ?thesis .
    qed
  qed
qed

lemma finite_array_Finite: "finite_array (map Finite xs) = Some xs"
  by (simp add: finite_array_def list_all_iff comp_def)

lemma update_chol_xty_error_restored:
  assumes "length (est_L est) = dat_p dat * dat_p dat"
    and "length (est_xty est) = dat_p dat"
    and "update_chol_xty dat work est subset0 subset1 = Some (err, work', est')"
    and "err \<noteq> WBACON_ERROR_OK"
  shows "err = WBACON_ERROR_RANK_DEFICIENT \<and> est' = est"
proof -
  define p where "p = dat_p dat"
  define wpp where "wpp = Memcpy (work_pp work) (est_L est) (p * p)"
  define wnp where "wnp = Memcpy (work_np work) (est_xty est) p"
  obtain L1 xty1 xtx1 stack1 nu nd where
    fp: "update_chol_xty_first_pass dat subset0 subset1
           (map Finite (est_L est), est_xty est, work_p work, work_iarray work, 0, 0) =
         (L1, xty1, xtx1, stack1, nu, nd)"
    by (cases "update_chol_xty_first_pass dat subset0 subset1
           (map Finite (est_L est), est_xty est, work_p work, work_iarray work, 0, 0)") auto
  obtain e L2 xty2 xtx2 where
    sp: "update_chol_xty_second_pass dat wpp wnp stack1 nd 0 (L1, xty1, xtx1) = (e, L2, xty2, xtx2)"
    by (cases "update_chol_xty_second_pass dat wpp wnp stack1 nd 0 (L1, xty1, xtx1)") auto
  from assms(3) fp sp obtain L3 where res: "err = e" "finite_array L2 = Some L3"
    "est' = est\<lparr>est_L := L3, est_xty := xty2\<rparr>"
    by (auto simp: update_chol_xty_def Let_def p_def wpp_def wnp_def)
  from first_pass_length[OF fp] assms(1,2)
  have len: "length L1 = dat_p dat * dat_p dat" "length xty1 = dat_p dat"
    by simp_all
  from assms(4) res have "e \<noteq> WBACON_ERROR_OK" by simp
  from second_pass_failure[OF sp this len]
  have "e = WBACON_ERROR_RANK_DEFICIENT" and "L2 = map Finite (take (p * p) wpp)"
    and "xty2 = take p wnp"
    by (simp_all add: p_def)
  moreover have "take (p * p) wpp = est_L est" and "take p wnp = est_xty est"
    using assms(1,2) by (simp_all add: wpp_def wnp_def Memcpy_def p_def)
  ultimately show ?thesis using res by (simp add: finite_array_Finite)
qed

text \<open>
  C3. In a call of \<^verbatim>\<open>update_chol_xty\<close> on an estimate whose factor has \<open>p * p\<close> entries and
  whose vector \<open>xty\<close> has \<open>p\<close> (as allocated by \<^verbatim>\<open>wbacon_reg\<close>), let the first pass leave
  the stack \<open>stack1\<close> with \<open>n_downdate\<close> entries. If any downdate of the second pass fails,
  that is, if for some \<open>k < n_downdate\<close> the downdates for the entries before \<open>k\<close> return
  \<open>WBACON_ERROR_OK\<close> and the one for entry \<open>k\<close> returns an error, then the function
  returns \<open>WBACON_ERROR_RANK_DEFICIENT\<close>, and the factor \<open>L\<close> and the vector \<open>xty\<close> of the
  estimate, and with them the whole estimate, are exactly as at entry: the copies taken
  before the first pass have been written back.
\<close>

theorem update_chol_xty_failed_downdate_restores:
  assumes "length (est_L est) = dat_p dat * dat_p dat"
    and "length (est_xty est) = dat_p dat"
    and "update_chol_xty_first_pass dat subset0 subset1
           (map Finite (est_L est), est_xty est, work_p work, work_iarray work, 0, 0) =
         (L1, xty1, xtx1, stack1, n_update, n_downdate)"
    and "k < n_downdate"
    and "downdate_fails dat stack1 k (L1, xty1, xtx1)"
  shows "\<exists>work' est'. update_chol_xty dat work est subset0 subset1 =
           Some (WBACON_ERROR_RANK_DEFICIENT, work', est') \<and>
         est_L est' = est_L est \<and> est_xty est' = est_xty est \<and> est' = est"
proof -
  define p where "p = dat_p dat"
  define wpp where "wpp = Memcpy (work_pp work) (est_L est) (p * p)"
  define wnp where "wnp = Memcpy (work_np work) (est_xty est) p"
  from assms(5) obtain s1 where
    dn: "downdates_done dat stack1 k (L1, xty1, xtx1) = Some s1"
    and bad: "fst (downdate_row dat (nat (stack1 ! k)) s1) \<noteq> WBACON_ERROR_OK"
    by (auto simp: downdate_fails_def split: option.splits)
  obtain La xa ua where s1: "s1 = (La, xa, ua)"
    by (cases s1)
  obtain e L2 xty2 xtx2 where
    row: "downdate_row dat (nat (stack1 ! k)) (La, xa, ua) = (e, L2, xty2, xtx2)"
    by (cases "downdate_row dat (nat (stack1 ! k)) (La, xa, ua)") auto
  with bad s1 have e: "e \<noteq> WBACON_ERROR_OK" by simp
  from assms(4) have kle: "k \<le> n_downdate" by simp
  note pre = downdates_done_second_pass[OF dn[unfolded s1] kle, of wpp wnp]
  note stop = second_pass_stop[OF assms(4) row e, of wpp wnp]
  note len1 = first_pass_length[OF assms(3)]
  note len2 = downdate_row_result[OF row]
  have rd: "e = WBACON_ERROR_RANK_DEFICIENT"
    using len2 e by simp
  have lenL: "length L2 = p * p" and lenx: "length xty2 = p"
    using len1 len2 pre assms(1,2) by (simp_all add: p_def)
  have copied: "Memcpy L2 (map Finite wpp) (p * p) = map Finite (est_L est)"
    "Memcpy xty2 wnp p = est_xty est"
    using lenL lenx assms(1,2) by (simp_all add: Memcpy_def wpp_def wnp_def p_def take_map)
  have sp: "update_chol_xty_second_pass dat wpp wnp stack1 n_downdate 0 (L1, xty1, xtx1) =
      (WBACON_ERROR_RANK_DEFICIENT, map Finite (est_L est), est_xty est, xtx2)"
    using pre stop copied rd by (simp add: p_def)
  have "update_chol_xty dat work est subset0 subset1 =
      Some (WBACON_ERROR_RANK_DEFICIENT,
            work\<lparr>work_pp := wpp, work_np := wnp, work_p := xtx2, work_iarray := stack1\<rparr>, est)"
    by (simp add: update_chol_xty_def Let_def p_def[symmetric] wpp_def[symmetric]
        wnp_def[symmetric] assms(3) sp finite_array_Finite)
  then show ?thesis by simp
qed

theorem update_chol_xty_failed_downdate_restores_witness:
  "update_chol_xty_first_pass
      \<lparr>dat_n = 2, dat_p = 1, dat_x = [3, 5], dat_y = [2, 1], dat_w = [1, 1],
       dat_wx = [0, 0], dat_wy = [0, 0], dat_w_sqrt = [1, 1]\<rparr>
      [1, 1] [0, 0] (map Finite [5], [11], [Finite 0], [0, 0], 0, 0) =
     ([Finite 5], [11], [Finite 0], [0, 1], 0, 2) \<and>
   downdates_done
      \<lparr>dat_n = 2, dat_p = 1, dat_x = [3, 5], dat_y = [2, 1], dat_w = [1, 1],
       dat_wx = [0, 0], dat_wy = [0, 0], dat_w_sqrt = [1, 1]\<rparr>
      [0, 1] 1 ([Finite 5], [11], [Finite 0]) = Some ([Finite 4], [5], [Finite 3]) \<and>
   downdate_fails
      \<lparr>dat_n = 2, dat_p = 1, dat_x = [3, 5], dat_y = [2, 1], dat_w = [1, 1],
       dat_wx = [0, 0], dat_wy = [0, 0], dat_w_sqrt = [1, 1]\<rparr>
      [0, 1] 1 ([Finite 5], [11], [Finite 0]) \<and>
   map_option (\<lambda>r. (fst r, snd (snd r)))
     (update_chol_xty
        \<lparr>dat_n = 2, dat_p = 1, dat_x = [3, 5], dat_y = [2, 1], dat_w = [1, 1],
         dat_wx = [0, 0], dat_wy = [0, 0], dat_w_sqrt = [1, 1]\<rparr>
        \<lparr>work_lwork = 1, work_iarray = [0, 0], work_p = [Finite 0], work_n = [0, 0],
         work_np = [0, 0], work_pp = [0], work_dgels_work = [0]\<rparr>
        \<lparr>est_resid = [0, 0], est_beta = [0], est_dist = [0, 0], est_L = [5], est_xty = [11],
         est_sigma = 1\<rparr>
        [1, 1] [0, 0]) =
   Some (WBACON_ERROR_RANK_DEFICIENT,
         \<lparr>est_resid = [0, 0], est_beta = [0], est_dist = [0, 0], est_L = [5], est_xty = [11],
          est_sigma = 1\<rparr>)"
proof -
  define dat where "dat = \<lparr>dat_n = 2, dat_p = 1, dat_x = [3, 5], dat_y = [2, 1], dat_w = [1, 1],
       dat_wx = [0, 0], dat_wy = [0, 0], dat_w_sqrt = [1, 1 :: real]\<rparr>"
  define work where "work = \<lparr>work_lwork = 1, work_iarray = [0, 0], work_p = [Finite 0],
       work_n = [0, 0], work_np = [0, 0], work_pp = [0], work_dgels_work = [0 :: real]\<rparr>"
  define est where "est = \<lparr>est_resid = [0, 0], est_beta = [0], est_dist = [0, 0], est_L = [5],
       est_xty = [11], est_sigma = 1\<rparr>"
  have fp: "update_chol_xty_first_pass dat [1, 1] [0, 0]
              (map Finite (est_L est), est_xty est, work_p work, work_iarray work, 0, 0) =
            ([Finite 5], [11], [Finite 0], [0, 1], 0, 2)"
    by (simp add: update_chol_xty_first_pass_def dat_def work_def est_def upt_0_2)
  have row0: "downdate_row dat 0 ([Finite 5], [11], [Finite 0]) =
      (WBACON_ERROR_OK, [Finite 4], [5], [Finite 3])"
    by (simp add: downdate_row_def xty_sub_row_def chol_downdate_def chol_downdate_loop.simps
        dat_def Let_def double_eval sqrt_16)
  have row1: "downdate_row dat 1 ([Finite 4], [5], [Finite 3]) =
      (WBACON_ERROR_RANK_DEFICIENT, [Finite 4], [0], [Finite 5])"
    by (simp add: downdate_row_def xty_sub_row_def chol_downdate_def chol_downdate_loop.simps
        dat_def Let_def double_eval)
  have dn: "downdates_done dat [0, 1] 1 ([Finite 5], [11], [Finite 0]) =
      Some ([Finite 4], [5], [Finite 3])"
    by (simp add: row0)
  have fails: "downdate_fails dat [0, 1] 1 ([Finite 5], [11], [Finite 0])"
    using row0 row1 by (simp add: downdate_fails_def)
  have l1: "length (est_L est) = dat_p dat * dat_p dat" and l2: "length (est_xty est) = dat_p dat"
    by (simp_all add: dat_def est_def)
  have k: "(1::nat) < 2" by simp
  from update_chol_xty_failed_downdate_restores[OF l1 l2 fp k fails]
  have "map_option (\<lambda>r. (fst r, snd (snd r))) (update_chol_xty dat work est [1, 1] [0, 0]) =
        Some (WBACON_ERROR_RANK_DEFICIENT, est)"
    by auto
  with fp dn fails show ?thesis
    unfolding dat_def work_def est_def by simp
qed

section \<open>The distances: the sign of the leverage\<close>

lemma hat_matrix_ok:
  assumes "hat_matrix ext dat work L hat = (WBACON_ERROR_OK, work', hat')"
    and "i < dat_n dat" and "dat_n dat \<le> length hat" and "1 \<le> dat_p dat"
  shows "hat' ! i = dat_w dat ! i * (\<Sum>j<dat_p dat. (work_np work' ! (i + j * dat_n dat))\<^sup>2)"
proof -
  define n where "n = dat_n dat"
  define p where "p = dat_p dat"
  obtain inv info where tri: "ext_dtrtri ext p (Memcpy (work_pp work) L (p * p)) = (inv, info)"
    by (cases "ext_dtrtri ext p (Memcpy (work_pp work) L (p * p))")
  define z where "z = ext_dtrmm ext n p inv (Memcpy (work_np work) (dat_x dat) (n * p))"
  define hat1 where "hat1 = fold (\<lambda>i hat. hat[i := POWER2 (z ! i)]) [0..<n] hat"
  define hat2 where "hat2 = fold (\<lambda>j. fold (\<lambda>i hat. hat[i := hat ! i + POWER2 (z ! (i + j * n))]) [0..<n])
                        [1..<p] hat1"
  define hat3 where "hat3 = fold (\<lambda>i hat. hat[i := hat ! i * dat_w dat ! i]) [0..<n] hat2"
  from assms(1) tri have info: "info = 0" and w: "work_np work' = z" and h: "hat' = hat3"
    by (auto simp: hat_matrix_def Let_def n_def p_def z_def hat1_def hat2_def hat3_def
        split: if_splits)
  have i_n: "i < n" and i_len: "i < length hat"
    using assms(2,3) by (simp_all add: n_def)
  have len1: "length hat1 = length hat"
    unfolding hat1_def by (rule fold_update_length[where g = "\<lambda>i s. POWER2 (z ! i)"])
  have len2: "length hat2 = length hat1"
    unfolding hat2_def
    by (induction p) (simp_all add: fold_update_length[where g = "\<lambda>i s. s ! i + POWER2 (z ! (i + _ * n))"])
  have v1: "hat1 ! i = POWER2 (z ! i)"
    unfolding hat1_def
    using fold_upt_update_nth[where g = "\<lambda>i v. POWER2 (z ! i)" and s = hat and a = 0 and b = n and k = i]
      i_n i_len by simp
  have v2: "hat2 ! i = hat1 ! i + (\<Sum>j = 1..<p. POWER2 (z ! (i + j * n)))"
    unfolding hat2_def
    using fold_cols_nth[where F = "\<lambda>i j. POWER2 (z ! (i + j * n))" and s = hat1 and k = i and n = n
        and a = 1 and b = p] i_n i_len len1
    by simp
  have v3: "hat3 ! i = hat2 ! i * dat_w dat ! i"
    unfolding hat3_def
    using fold_upt_update_nth[where g = "\<lambda>i v. v * dat_w dat ! i" and s = hat2 and a = 0 and b = n and k = i]
      i_n i_len len1 len2 by simp
  have p1: "1 \<le> p" using assms(4) by (simp add: p_def)
  have "(\<Sum>j<p. POWER2 (z ! (i + j * n))) = POWER2 (z ! i) + (\<Sum>j = 1..<p. POWER2 (z ! (i + j * n)))"
  proof -
    have "{..<p} = insert 0 {1..<p}" using p1 by auto
    then show ?thesis by simp
  qed
  with v1 v2 v3 have "hat3 ! i = dat_w dat ! i * (\<Sum>j<p. POWER2 (z ! (i + j * n)))"
    by simp
  with h w show ?thesis
    by (simp add: POWER2_def power2_eq_square n_def p_def)
qed


text \<open>
  C1. When \<^verbatim>\<open>compute_ti\<close> succeeds, the distance of observation \<open>i\<close> is
  \<open>|resid i| / (sigma * sqrt (1 + sgn * h i))\<close>, where \<open>h i\<close> is the entry of the hat
  diagonal that \<^verbatim>\<open>hat_matrix\<close> left in \<^verbatim>\<open>work_n\<close>, the weight of \<open>i\<close> times the squared
  norm of row \<open>i\<close> of the product left in \<^verbatim>\<open>work_np\<close>, and the sign \<open>sgn\<close> is \<open>+1\<close>
  exactly when the subset entry of \<open>i\<close> is \<open>0\<close> (outside) and \<open>-1\<close> exactly when it is
  \<open>1\<close> (inside): the denominator has \<open>1 + h i\<close> outside the subset and \<open>1 - h i\<close>
  inside.
\<close>

theorem compute_ti_sign:
  assumes "compute_ti ext dat work est subs m tis = (WBACON_ERROR_OK, work', tis')"
    and "i < dat_n dat" and "dat_n dat \<le> length tis" and "dat_n dat \<le> length (work_n work)"
    and "1 \<le> dat_p dat"
  shows "(\<exists>sgn. tis' ! i = \<bar>est_resid est ! i\<bar> /
                    (est_sigma est * sqrt (1 + real_of_int sgn * work_n work' ! i)) \<and>
                (sgn = 1 \<longleftrightarrow> subs ! i = 0) \<and> (sgn = - 1 \<longleftrightarrow> subs ! i = 1)) \<and>
         (subs ! i = 0 \<longrightarrow>
            tis' ! i = \<bar>est_resid est ! i\<bar> / (est_sigma est * sqrt (1 + work_n work' ! i))) \<and>
         (subs ! i = 1 \<longrightarrow>
            tis' ! i = \<bar>est_resid est ! i\<bar> / (est_sigma est * sqrt (1 - work_n work' ! i))) \<and>
         work_n work' ! i =
           dat_w dat ! i * (\<Sum>j<dat_p dat. (work_np work' ! (i + j * dat_n dat))\<^sup>2)"
proof -
  define n where "n = dat_n dat"
  obtain err work1 hat where hm: "hat_matrix ext dat work (est_L est) (work_n work) = (err, work1, hat)"
    by (cases "hat_matrix ext dat work (est_L est) (work_n work)")
  define F where "F = (\<lambda>i. \<bar>est_resid est ! i\<bar> /
      (est_sigma est * sqrt (1 + real_of_int (1 - 2 * subs ! i) * hat ! i)))"
  from assms(1) hm have ok: "err = WBACON_ERROR_OK" and w: "work' = work1\<lparr>work_n := hat\<rparr>"
    and t: "tis' = fold (\<lambda>i tis. tis[i := F i]) [0..<n] tis"
    by (auto simp: compute_ti_def Let_def n_def F_def split: if_splits)
  have "tis' ! i = F i"
    unfolding t
    using fold_upt_update_nth[where g = "\<lambda>i v. F i" and s = tis and a = 0 and b = n and k = i]
      assms(2,3) by (simp add: n_def)
  then have val: "tis' ! i = \<bar>est_resid est ! i\<bar> /
      (est_sigma est * sqrt (1 + real_of_int (1 - 2 * subs ! i) * work_n work' ! i))"
    by (simp add: F_def w)
  have sgn: "(1 - 2 * subs ! i = 1 \<longleftrightarrow> subs ! i = 0) \<and> (1 - 2 * subs ! i = - 1 \<longleftrightarrow> subs ! i = 1)"
    by auto
  from hm ok have hm': "hat_matrix ext dat work (est_L est) (work_n work) = (WBACON_ERROR_OK, work1, hat)"
    by simp
  have np: "work_np work' = work_np work1"
    by (simp add: w)
  have hat: "work_n work' ! i = dat_w dat ! i * (\<Sum>j<dat_p dat. (work_np work' ! (i + j * dat_n dat))\<^sup>2)"
    using hat_matrix_ok[OF hm' assms(2,4,5)] by (simp add: w)
  from val have v0: "tis' ! i = \<bar>est_resid est ! i\<bar> / (est_sigma est * sqrt (1 + work_n work' ! i))"
    if "subs ! i = 0"
    using that by simp
  from val have v1: "tis' ! i = \<bar>est_resid est ! i\<bar> / (est_sigma est * sqrt (1 - work_n work' ! i))"
    if "subs ! i = 1"
    using that by simp
  from val sgn have "\<exists>sgn. tis' ! i = \<bar>est_resid est ! i\<bar> /
                    (est_sigma est * sqrt (1 + real_of_int sgn * work_n work' ! i)) \<and>
                (sgn = 1 \<longleftrightarrow> subs ! i = 0) \<and> (sgn = - 1 \<longleftrightarrow> subs ! i = 1)"
    by (intro exI[of _ "1 - 2 * subs ! i"]) blast
  with v0 v1 hat show ?thesis by blast
qed

theorem compute_ti_sign_witness:
  "fst (compute_ti (ext_one_regressor (\<lambda>prob df. 2))
      \<lparr>dat_n = 2, dat_p = 1, dat_x = [1, 3], dat_y = [5, 2], dat_w = [1, 1],
       dat_wx = [0, 0], dat_wy = [0, 0], dat_w_sqrt = [1, 1]\<rparr>
      \<lparr>work_lwork = 1, work_iarray = [0, 0], work_p = [0], work_n = [0, 0], work_np = [0, 0],
       work_pp = [0], work_dgels_work = [0]\<rparr>
      \<lparr>est_resid = [3, - 4], est_beta = [0], est_dist = [0, 0], est_L = [2], est_xty = [0],
       est_sigma = 1\<rparr>
      [1, 0] 1 [0, 0]) = WBACON_ERROR_OK \<and>
   snd (snd (compute_ti (ext_one_regressor (\<lambda>prob df. 2))
      \<lparr>dat_n = 2, dat_p = 1, dat_x = [1, 3], dat_y = [5, 2], dat_w = [1, 1],
       dat_wx = [0, 0], dat_wy = [0, 0], dat_w_sqrt = [1, 1]\<rparr>
      \<lparr>work_lwork = 1, work_iarray = [0, 0], work_p = [0], work_n = [0, 0], work_np = [0, 0],
       work_pp = [0], work_dgels_work = [0]\<rparr>
      \<lparr>est_resid = [3, - 4], est_beta = [0], est_dist = [0, 0], est_L = [2], est_xty = [0],
       est_sigma = 1\<rparr>
      [1, 0] 1 [0, 0])) = [3 / (1 * sqrt (1 - 1 / 4)), 4 / (1 * sqrt (1 + 9 / 4))]"
proof -
  define ext where "ext = ext_one_regressor (\<lambda>prob df. 2)"
  define dat where "dat = \<lparr>dat_n = 2, dat_p = 1, dat_x = [1, 3], dat_y = [5, 2], dat_w = [1, 1],
       dat_wx = [0, 0], dat_wy = [0, 0], dat_w_sqrt = [1, 1 :: real]\<rparr>"
  define work where "work = \<lparr>work_lwork = 1, work_iarray = [0, 0], work_p = [0], work_n = [0, 0],
       work_np = [0, 0], work_pp = [0], work_dgels_work = [0 :: real]\<rparr>"
  define est where "est = \<lparr>est_resid = [3, - 4], est_beta = [0], est_dist = [0, 0], est_L = [2],
       est_xty = [0], est_sigma = 1\<rparr>"
  obtain err work' tis' where r: "compute_ti ext dat work est [1, 0] 1 [0, 0] = (err, work', tis')"
    by (cases "compute_ti ext dat work est [1, 0] 1 [0, 0]")
  have hm: "hat_matrix ext dat work (est_L est) (work_n work) =
     (WBACON_ERROR_OK, work\<lparr>work_pp := [1 / 2], work_np := [1 / 2, 3 / 2]\<rparr>, [1 / 4, 9 / 4])"
    by (simp add: hat_matrix_def ext_def ext_one_regressor_def lapack_one_regressor_def
        dat_def work_def est_def Memcpy_def POWER2_def Let_def upt_0_2)
  have n2: "dat_n dat = 2"
    by (simp add: dat_def)
  have ok: "err = WBACON_ERROR_OK" and w': "work_n work' = [1 / 4, 9 / 4]"
    and len: "length tis' = 2"
    using r by (auto simp: compute_ti_def hm Let_def n2 upt_0_2)
  from r ok have r': "compute_ti ext dat work est [1, 0] 1 [0, 0] = (WBACON_ERROR_OK, work', tis')"
    by simp
  have h0: "(0::nat) < dat_n dat" and h1: "(1::nat) < dat_n dat"
    and h2: "dat_n dat \<le> length [0, 0 :: real]" and h3: "dat_n dat \<le> length (work_n work)"
    and h4: "1 \<le> dat_p dat"
    by (simp_all add: dat_def work_def)
  have "tis' ! 0 = 3 / (1 * sqrt (1 - 1 / 4))"
    using compute_ti_sign[OF r' h0 h2 h3 h4] w' by (simp add: est_def)
  moreover have "tis' ! 1 = 4 / (1 * sqrt (1 + 9 / 4))"
    using compute_ti_sign[OF r' h1 h2 h3 h4] w' by (simp add: est_def)
  ultimately have "tis' = [3 / (1 * sqrt (1 - 1 / 4)), 4 / (1 * sqrt (1 + 9 / 4))]"
    using len by (auto simp: list_eq_iff_nth_eq less_Suc_eq numeral_2_eq_2)
  with r ok show ?thesis
    unfolding ext_def dat_def work_def est_def by simp
qed

section \<open>Weighted least squares: the rank check\<close>

lemma fitwls_rank_deficient_iff:
  "fitwls_rank_deficient n p wx i \<longleftrightarrow> (\<exists>k. i \<le> k \<and> k < p \<and> \<bar>wx ! ((n + 1) * k)\<bar> < sqrt DBL_EPSILON)"
proof (induction n p wx i rule: fitwls_rank_deficient.induct)
  case (1 n p wx i)
  show ?case
  proof (cases "i < p")
    case False
    then show ?thesis
      by (subst fitwls_rank_deficient.simps) auto
  next
    case True
    show ?thesis
    proof (cases "\<bar>wx ! ((n + 1) * i)\<bar> < sqrt DBL_EPSILON")
      case small: True
      with True have "fitwls_rank_deficient n p wx i"
        by (subst fitwls_rank_deficient.simps) simp
      moreover from True small have "\<exists>k. i \<le> k \<and> k < p \<and> \<bar>wx ! ((n + 1) * k)\<bar> < sqrt DBL_EPSILON"
        by (intro exI[of _ i]) simp
      ultimately show ?thesis by simp
    next
      case large: False
      with True have "fitwls_rank_deficient n p wx i = fitwls_rank_deficient n p wx (i + 1)"
        by (subst fitwls_rank_deficient.simps) simp
      also have "\<dots> \<longleftrightarrow> (\<exists>k. i + 1 \<le> k \<and> k < p \<and> \<bar>wx ! ((n + 1) * k)\<bar> < sqrt DBL_EPSILON)"
        using "1.IH"[OF True large] .
      also have "\<dots> \<longleftrightarrow> (\<exists>k. i \<le> k \<and> k < p \<and> \<bar>wx ! ((n + 1) * k)\<bar> < sqrt DBL_EPSILON)"
      proof
        assume "\<exists>k. i + 1 \<le> k \<and> k < p \<and> \<bar>wx ! ((n + 1) * k)\<bar> < sqrt DBL_EPSILON"
        then obtain k where "i + 1 \<le> k" "k < p" "\<bar>wx ! ((n + 1) * k)\<bar> < sqrt DBL_EPSILON"
          by blast
        then show "\<exists>k. i \<le> k \<and> k < p \<and> \<bar>wx ! ((n + 1) * k)\<bar> < sqrt DBL_EPSILON"
          by (intro exI[of _ k]) simp
      next
        assume "\<exists>k. i \<le> k \<and> k < p \<and> \<bar>wx ! ((n + 1) * k)\<bar> < sqrt DBL_EPSILON"
        then obtain k where k: "i \<le> k" "k < p" "\<bar>wx ! ((n + 1) * k)\<bar> < sqrt DBL_EPSILON"
          by blast
        with large have "k \<noteq> i" by auto
        with k show "\<exists>k. i + 1 \<le> k \<and> k < p \<and> \<bar>wx ! ((n + 1) * k)\<bar> < sqrt DBL_EPSILON"
          by (intro exI[of _ k]) simp
      qed
      finally show ?thesis .
    qed
  qed
qed

text \<open>
  C6. In a call of \<^verbatim>\<open>fitwls\<close> that performs the solve (\<open>lwork \<ge> 0\<close>), the return value is
  nonzero if and only if some diagonal entry \<open>R i i\<close>, \<open>i < p\<close>, of the factor that
  \<^verbatim>\<open>dgels\<close> left in \<open>wx\<close> (index \<open>(n + 1) * i\<close>) has \<open>|R i i| < sqrt DBL_EPSILON\<close>; and
  then \<open>beta\<close> and \<open>resid\<close> are returned as they were on entry.
\<close>

theorem fitwls_rank_check:
  assumes "0 \<le> lw"
    and "fitwls ext dat weight work_dgels lw beta resid = (ret, dat', work', beta', resid')"
  shows "(ret \<noteq> 0 \<longleftrightarrow>
            (\<exists>i<dat_p dat. \<bar>dat_wx dat' ! ((dat_n dat + 1) * i)\<bar> < sqrt DBL_EPSILON)) \<and>
         (ret \<noteq> 0 \<longrightarrow> beta' = beta \<and> resid' = resid)"
proof -
  define n where "n = dat_n dat"
  define p where "p = dat_p dat"
  define x where "x = dat_x dat"
  define y where "y = dat_y dat"
  obtain wy1 wx1 where scale:
    "fold (\<lambda>i (wy, wx). let tmp = sqrt (weight ! i) in (wy[i := tmp * y ! i], wx[i := tmp * x ! i]))
       [0..<n] (dat_wy dat, dat_wx dat) = (wy1, wx1)"
    by (cases "fold (\<lambda>i (wy, wx). let tmp = sqrt (weight ! i) in (wy[i := tmp * y ! i], wx[i := tmp * x ! i]))
       [0..<n] (dat_wy dat, dat_wx dat)")
  define wx2 where "wx2 = fold (\<lambda>j. fold (\<lambda>i wx. wx[i + n * j := sqrt (weight ! i) * x ! (i + n * j)])
                                  [0..<n]) [1..<p] wx1"
  obtain wx3 wy3 work1 info where dgels: "ext_dgels ext n p wx2 wy1 work_dgels lw = (wx3, wy3, work1, info)"
    by (cases "ext_dgels ext n p wx2 wy1 work_dgels lw") auto
  have nonneg: "\<not> lw < 0" using assms(1) by simp
  have res: "(ret, dat', work', beta', resid') =
     (if fitwls_rank_deficient n p wx3 0 then (1, dat\<lparr>dat_wx := wx3, dat_wy := wy3\<rparr>, work1, beta, resid)
      else (0, dat\<lparr>dat_wx := wx3, dat_wy := wy3\<rparr>, work1, Memcpy beta wy3 p,
            ext_dgemv ext n p (- 1) x (Memcpy beta wy3 p) 1 (Memcpy resid y n)))"
    using assms(2) nonneg scale dgels
    by (auto simp add: fitwls_def Let_def n_def[symmetric] p_def[symmetric] x_def[symmetric]
        y_def[symmetric] wx2_def[symmetric] simp del: One_nat_def split: if_splits)
  have rd: "fitwls_rank_deficient n p wx3 0 \<longleftrightarrow> (\<exists>i<p. \<bar>wx3 ! ((n + 1) * i)\<bar> < sqrt DBL_EPSILON)"
    by (simp add: fitwls_rank_deficient_iff)
  show ?thesis
  proof (cases "fitwls_rank_deficient n p wx3 0")
    case True
    with res have "ret = 1" "dat_wx dat' = wx3" "beta' = beta" "resid' = resid"
      by simp_all
    with True rd show ?thesis by (simp add: n_def p_def)
  next
    case False
    with res have "ret = 0" "dat_wx dat' = wx3"
      by simp_all
    with False rd show ?thesis by (simp add: n_def p_def)
  qed
qed

theorem fitwls_rank_check_witness:
  "(0::int) \<le> 1 \<and>
   fitwls (ext_one_regressor (\<lambda>prob df. 2))
      \<lparr>dat_n = 2, dat_p = 1, dat_x = [0, 0], dat_y = [5, 2], dat_w = [1, 1],
       dat_wx = [7, 7], dat_wy = [7, 7], dat_w_sqrt = [1, 1]\<rparr>
      [1, 1] [0] 1 [8] [9, 9] =
     (1, \<lparr>dat_n = 2, dat_p = 1, dat_x = [0, 0], dat_y = [5, 2], dat_w = [1, 1],
       dat_wx = [0, 0], dat_wy = [0, 2], dat_w_sqrt = [1, 1]\<rparr>, [0], [8], [9, 9]) \<and>
   fst (fitwls (ext_one_regressor (\<lambda>prob df. 2))
      \<lparr>dat_n = 2, dat_p = 1, dat_x = [3, 4], dat_y = [5, 2], dat_w = [1, 1],
       dat_wx = [7, 7], dat_wy = [7, 7], dat_w_sqrt = [1, 1]\<rparr>
      [1, 1] [0] 1 [8] [9, 9]) = 0"
proof -
  define ext where "ext = ext_one_regressor (\<lambda>prob df. 2)"
  define dat0 where "dat0 = \<lparr>dat_n = 2, dat_p = 1, dat_x = [0, 0], dat_y = [5, 2], dat_w = [1, 1],
       dat_wx = [7, 7], dat_wy = [7, 7], dat_w_sqrt = [1, 1 :: real]\<rparr>"
  define dat1 where "dat1 = \<lparr>dat_n = 2, dat_p = 1, dat_x = [3, 4], dat_y = [5, 2], dat_w = [1, 1],
       dat_wx = [7, 7], dat_wy = [7, 7], dat_w_sqrt = [1, 1 :: real]\<rparr>"
  have lw: "(0::int) \<le> 1" by simp
  obtain ret dat' work' beta' resid' where
    r0: "fitwls ext dat0 [1, 1] [0] 1 [8] [9, 9] = (ret, dat', work', beta', resid')"
    by (cases "fitwls ext dat0 [1, 1] [0] 1 [8] [9, 9]") auto
  have d0: "dat' = dat0\<lparr>dat_wx := [0, 0], dat_wy := [0, 2]\<rparr>" and w0: "work' = [0]"
    using r0
    by (auto simp: fitwls_def ext_def ext_one_regressor_def lapack_one_regressor_def
        dgels_one_regressor_def dat0_def Let_def upt_0_2 lessThan_Suc numeral_2_eq_2
        split: if_splits)
  have "\<exists>i<dat_p dat0. \<bar>dat_wx dat' ! ((dat_n dat0 + 1) * i)\<bar> < sqrt DBL_EPSILON"
    by (intro exI[of _ 0]) (simp add: d0 dat0_def sqrt_DBL_EPSILON)
  with fitwls_rank_check[OF lw r0] have "ret \<noteq> 0" and "beta' = [8]" and "resid' = [9, 9]"
    by blast+
  moreover from r0 have "ret = 0 \<or> ret = 1"
    by (auto simp: fitwls_def Let_def split: if_splits prod.splits)
  ultimately have first: "fitwls ext dat0 [1, 1] [0] 1 [8] [9, 9] =
      (1, dat0\<lparr>dat_wx := [0, 0], dat_wy := [0, 2]\<rparr>, [0], [8], [9, 9])"
    using r0 d0 w0 by simp
  obtain ret1 dat1' work1' beta1' resid1' where
    r1: "fitwls ext dat1 [1, 1] [0] 1 [8] [9, 9] = (ret1, dat1', work1', beta1', resid1')"
    by (cases "fitwls ext dat1 [1, 1] [0] 1 [8] [9, 9]") auto
  have sqrt25: "sqrt 25 = 5"
    by (rule real_sqrt_unique) simp_all
  have d1: "dat_wx dat1' = [5, 4]"
    using r1
    by (auto simp: fitwls_def ext_def ext_one_regressor_def lapack_one_regressor_def
        dgels_one_regressor_def dat1_def Let_def upt_0_2 lessThan_Suc numeral_2_eq_2 sqrt25
        split: if_splits)
  have "\<not> (\<exists>i<dat_p dat1. \<bar>dat_wx dat1' ! ((dat_n dat1 + 1) * i)\<bar> < sqrt DBL_EPSILON)"
    by (simp add: d1 dat1_def sqrt_DBL_EPSILON)
  with fitwls_rank_check[OF lw r1] have "ret1 = 0"
    by blast
  with r1 have second: "fst (fitwls ext dat1 [1, 1] [0] 1 [8] [9, 9]) = 0"
    by simp
  from first second show ?thesis
    unfolding ext_def dat0_def dat1_def by simp
qed

section \<open>Algorithm 5: one pass of the loop\<close>

lemma xor_int_eq_0_iff: "xor (a::int) b = 0 \<longleftrightarrow> a = b"
  by (metis xor.left_neutral xor.assoc xor_self_eq xor.right_neutral)

lemma first_difference_bounds:
  "i \<le> n \<Longrightarrow> i \<le> first_difference n a b i \<and> first_difference n a b i \<le> n"
proof (induction n a b i rule: first_difference.induct)
  case (1 n a b i)
  show ?case
  proof (cases "i < n")
    case False
    with "1.prems" show ?thesis by (simp add: first_difference.simps)
  next
    case True
    show ?thesis
    proof (cases "xor (a ! i) (b ! i) \<noteq> 0")
      case d: True
      with True show ?thesis by (subst (1 2) first_difference.simps) simp
    next
      case e: False
      with True have "first_difference n a b i = first_difference n a b (i + 1)"
        by (subst first_difference.simps) simp
      with "1.IH"[OF True e] True show ?thesis by simp
    qed
  qed
qed

lemma first_difference_eq_n:
  "i \<le> n \<Longrightarrow> first_difference n a b i = n \<longleftrightarrow> (\<forall>k. i \<le> k \<and> k < n \<longrightarrow> a ! k = b ! k)"
proof (induction n a b i rule: first_difference.induct)
  case (1 n a b i)
  show ?case
  proof (cases "i < n")
    case False
    with "1.prems" show ?thesis by (simp add: first_difference.simps)
  next
    case True
    show ?thesis
    proof (cases "xor (a ! i) (b ! i) \<noteq> 0")
      case d: True
      with True have "first_difference n a b i = i"
        by (subst first_difference.simps) simp
      moreover from d have "a ! i \<noteq> b ! i"
        by (simp add: xor_int_eq_0_iff)
      ultimately show ?thesis using True by auto
    next
      case e: False
      then have same: "a ! i = b ! i"
        by (simp add: xor_int_eq_0_iff)
      from e True have "first_difference n a b i = first_difference n a b (i + 1)"
        by (subst first_difference.simps) simp
      moreover have "first_difference n a b (i + 1) = n \<longleftrightarrow>
          (\<forall>k. i + 1 \<le> k \<and> k < n \<longrightarrow> a ! k = b ! k)"
        using "1.IH"[OF True e] True by simp
      moreover have "(\<forall>k. i + 1 \<le> k \<and> k < n \<longrightarrow> a ! k = b ! k) \<longleftrightarrow>
          (\<forall>k. i \<le> k \<and> k < n \<longrightarrow> a ! k = b ! k)"
      proof
        assume h: "\<forall>k. i + 1 \<le> k \<and> k < n \<longrightarrow> a ! k = b ! k"
        show "\<forall>k. i \<le> k \<and> k < n \<longrightarrow> a ! k = b ! k"
        proof (intro allI impI)
          fix k assume k: "i \<le> k \<and> k < n"
          show "a ! k = b ! k"
          proof (cases "k = i")
            case True
            with same show ?thesis by simp
          next
            case False
            with k have "i + 1 \<le> k \<and> k < n" by simp
            with h show ?thesis by blast
          qed
        qed
      next
        assume h: "\<forall>k. i \<le> k \<and> k < n \<longrightarrow> a ! k = b ! k"
        show "\<forall>k. i + 1 \<le> k \<and> k < n \<longrightarrow> a ! k = b ! k"
        proof (intro allI impI)
          fix k assume "i + 1 \<le> k \<and> k < n"
          then have "i \<le> k \<and> k < n" by simp
          with h show "a ! k = b ! k" by blast
        qed
      qed
      ultimately show ?thesis by simp
    qed
  qed
qed

text \<open>The loop that forms the new subset and counts it.\<close>

lemma new_subset_fold:
  fixes d :: "real list" and c :: real
  defines "f \<equiv> (\<lambda>i (subset1 :: int list, m :: int).
            if d ! i < c then (subset1[i := 1], m + 1) else (subset1[i := 0], m))"
  assumes "n \<le> length s"
  shows "length (fst (fold f [0..<n] (s, 0))) = length s \<and>
         (\<forall>i<n. fst (fold f [0..<n] (s, 0)) ! i = (if d ! i < c then 1 else 0)) \<and>
         (\<forall>i. n \<le> i \<longrightarrow> fst (fold f [0..<n] (s, 0)) ! i = s ! i) \<and>
         snd (fold f [0..<n] (s, 0)) = int (length (filter (\<lambda>i. d ! i < c) [0..<n]))"
  using assms(2)
proof (induction n)
  case 0
  then show ?case by simp
next
  case (Suc n)
  obtain t k where r: "fold f [0..<n] (s, 0) = (t, k)"
    by (cases "fold f [0..<n] (s, 0)")
  from Suc r have IH: "length t = length s" "\<forall>i<n. t ! i = (if d ! i < c then 1 else 0)"
    "\<forall>i. n \<le> i \<longrightarrow> t ! i = s ! i" "k = int (length (filter (\<lambda>i. d ! i < c) [0..<n]))"
    by simp_all
  have step: "fold f [0..<Suc n] (s, 0) = f n (t, k)"
    using r by simp
  have n_lt: "n < length t" using Suc.prems IH(1) by simp
  show ?case
  proof (cases "d ! n < c")
    case True
    then have res: "fold f [0..<Suc n] (s, 0) = (t[n := 1], k + 1)"
      using step by (simp add: f_def)
    show ?thesis
      unfolding res using IH True n_lt
      by (auto simp: nth_list_update less_Suc_eq)
  next
    case False
    then have res: "fold f [0..<Suc n] (s, 0) = (t[n := 0], k)"
      using step by (simp add: f_def)
    show ?thesis
      unfolding res using IH False n_lt
      by (auto simp: nth_list_update less_Suc_eq)
  qed
qed


lemma algorithm_5_new_subset_result:
  assumes "n \<le> length s" and "algorithm_5_new_subset n d c s = (s', m')"
  shows "length s' = length s \<and> (\<forall>i<n. s' ! i = (if d ! i < c then 1 else 0)) \<and>
         m' = int (length (filter (\<lambda>i. d ! i < c) [0..<n]))"
  using new_subset_fold[OF assms(1), of d c] assms(2)
  by (simp add: algorithm_5_new_subset_def)

lemma algorithm_5_cutoff_quantile:
  "algorithm_5_cutoff ext alpha p m =
   ext_quantile_t ext (1 - alpha / (2 * (real_of_int m + 1))) (real_of_int m - real p)"
  by (simp add: algorithm_5_cutoff_def qt_def)

text \<open>
  A pass of the loop of \<^verbatim>\<open>algorithm_5\<close> in which the fit and the distances have
  succeeded: the cutoff is the quantile of the Student t distribution at
  \<open>1 - alpha / (2 * (m + 1))\<close> with \<open>m - p\<close> degrees of freedom, for the value of the
  variable \<open>m\<close> at the start of the pass; the new subset holds, for every observation,
  \<open>1\<close> when its distance is strictly below the cutoff and \<open>0\<close> otherwise, and \<open>m\<close> becomes
  their number; and the pass returns \<open>WBACON_ERROR_OK\<close> with \<^verbatim>\<open>*maxiter\<close> set to the
  iteration count if and only if the new subset equals the current one on every
  observation. Otherwise the new subset is copied to the current one and the loop goes
  on.
\<close>

lemma algorithm_5_pass_cutoff_subset_converged:
  assumes fit: "ext_fitwls ext (ds_dat s) (ds_est s) (ds_subset0 s)
                  (work_dgels_work (ds_work s)) (work_lwork (ds_work s)) = (0, dat1, est1, dgw1)"
    and ti: "compute_ti ext dat1 ((ds_work s)\<lparr>work_dgels_work := dgw1\<rparr>)
               (est1\<lparr>est_L := extract_L n p (dat_wx dat1) (est_L est1)\<rparr>)
               (ds_subset0 s) (ds_m s) (est_dist est1) = (WBACON_ERROR_OK, work2, tis)"
    and len: "n \<le> length (ds_subset1 s)"
  shows "\<exists>s'.
     (algorithm_5_pass ext alpha n p maxiter iter s = Inl (WBACON_ERROR_OK, s', iter) \<or>
      algorithm_5_pass ext alpha n p maxiter iter s =
        Inr (s'\<lparr>ds_subset0 := Memcpy (ds_subset0 s) (ds_subset1 s') n\<rparr>)) \<and>
     (algorithm_5_pass ext alpha n p maxiter iter s = Inl (WBACON_ERROR_OK, s', iter) \<longleftrightarrow>
        (\<forall>i<n. ds_subset1 s' ! i = ds_subset0 s ! i)) \<and>
     est_dist (ds_est s') = tis \<and>
     length (ds_subset1 s') = length (ds_subset1 s) \<and>
     (\<forall>i<n. ds_subset1 s' ! i =
        (if tis ! i < ext_quantile_t ext (1 - alpha / (2 * (real_of_int (ds_m s) + 1)))
                        (real_of_int (ds_m s) - real p)
         then 1 else 0)) \<and>
     ds_m s' = int (length (filter (\<lambda>i. tis ! i <
                  ext_quantile_t ext (1 - alpha / (2 * (real_of_int (ds_m s) + 1)))
                    (real_of_int (ds_m s) - real p)) [0..<n]))"
proof -
  define cutoff where "cutoff = algorithm_5_cutoff ext alpha p (ds_m s)"
  have cutoff_eq: "cutoff = ext_quantile_t ext (1 - alpha / (2 * (real_of_int (ds_m s) + 1)))
                    (real_of_int (ds_m s) - real p)"
    unfolding cutoff_def by (rule algorithm_5_cutoff_quantile)
  obtain subset1a m1 where fo: "algorithm_5_new_subset n tis cutoff (ds_subset1 s) = (subset1a, m1)"
    by (cases "algorithm_5_new_subset n tis cutoff (ds_subset1 s)")
  define est3 where "est3 = est1\<lparr>est_L := extract_L n p (dat_wx dat1) (est_L est1), est_dist := tis\<rparr>"
  define s1 where "s1 = \<lparr>ds_dat = dat1, ds_work = work2, ds_est = est3,
                          ds_subset0 = ds_subset0 s, ds_subset1 = subset1a, ds_m = m1\<rparr>"
  have pass: "algorithm_5_pass ext alpha n p maxiter iter s =
      (if first_difference n (ds_subset0 s) subset1a 0 = n
       then Inl (WBACON_ERROR_OK, s1, iter)
       else Inr (s1\<lparr>ds_subset0 := Memcpy (ds_subset0 s) subset1a n\<rparr>))"
    using fo
    by (simp add: algorithm_5_pass_def fit ti Let_def cutoff_def[symmetric] s1_def est3_def)
  note nf = algorithm_5_new_subset_result[OF len fo]
  have fd: "first_difference n (ds_subset0 s) subset1a 0 = n \<longleftrightarrow>
            (\<forall>i<n. subset1a ! i = ds_subset0 s ! i)"
    using first_difference_eq_n[of 0 n "ds_subset0 s" subset1a] by auto
  show ?thesis
  proof (intro exI[of _ s1] conjI)
    show "algorithm_5_pass ext alpha n p maxiter iter s = Inl (WBACON_ERROR_OK, s1, iter) \<or>
      algorithm_5_pass ext alpha n p maxiter iter s =
        Inr (s1\<lparr>ds_subset0 := Memcpy (ds_subset0 s) (ds_subset1 s1) n\<rparr>)"
      by (simp add: pass s1_def)
    show "algorithm_5_pass ext alpha n p maxiter iter s = Inl (WBACON_ERROR_OK, s1, iter) \<longleftrightarrow>
        (\<forall>i<n. ds_subset1 s1 ! i = ds_subset0 s ! i)"
      using fd by (simp add: pass s1_def)
    show "est_dist (ds_est s1) = tis"
      by (simp add: s1_def est3_def)
    show "length (ds_subset1 s1) = length (ds_subset1 s)"
      using nf by (simp add: s1_def)
    show "\<forall>i<n. ds_subset1 s1 ! i =
        (if tis ! i < ext_quantile_t ext (1 - alpha / (2 * (real_of_int (ds_m s) + 1)))
                        (real_of_int (ds_m s) - real p)
         then 1 else 0)"
      using nf by (simp add: s1_def cutoff_eq)
    show "ds_m s1 = int (length (filter (\<lambda>i. tis ! i <
                  ext_quantile_t ext (1 - alpha / (2 * (real_of_int (ds_m s) + 1)))
                    (real_of_int (ds_m s) - real p)) [0..<n]))"
      using nf by (simp add: s1_def cutoff_eq)
  qed
qed

text \<open>
  C2. The value of \<open>m\<close> at the start of the first pass is not the size of the subset. In
  the run of \<^verbatim>\<open>wbacon_reg\<close> on the data \<open>x = (3, 4, 0)\<close>, \<open>y = (3, 4, 7)\<close> with unit weights,
  the seed subset \<open>(1, 1, 0)\<close>, \<open>p = 1\<close> and \<open>collect = 2\<close>, STEP 0 and STEP 1 succeed and
  hand the subset \<open>(1, 1, 0)\<close>, of two observations, to \<^verbatim>\<open>algorithm_5\<close>, together with
  \<open>m = 3\<close>: \<^verbatim>\<open>algorithm_4\<close> increments \<open>m\<close> and then leaves its loop without selecting
  a subset of that size. The cutoff of the first pass is the quantile at
  \<open>1 - alpha / (2 * (3 + 1))\<close> with \<open>3 - 1\<close> degrees of freedom, where the size of the
  subset gives \<open>1 - alpha / (2 * (2 + 1))\<close> and \<open>2 - 1\<close>; \<open>q\<close> is the quantile function.
\<close>

theorem wbacon_reg_first_pass_subset_size:
  "\<exists>s1. wbacon_reg_steps_0_1 (ext_one_regressor q) 3 1 2
           (wbacon_reg_arrays (ext_one_regressor q) [3, 4, 0] [3, 4, 7] [1, 1, 1] [0, 0, 0] [0]
              [1, 1, 0] [0, 0, 9] 3 1 2 1) = Some (WBACON_ERROR_OK, s1) \<and>
         ds_subset1 s1 = [1, 1, 0] \<and> ds_m s1 = 3 \<and>
         algorithm_5_cutoff (ext_one_regressor q) alpha 1 (ds_m s1) = q (1 - alpha / 8) 2"
proof -
  define ext where "ext = ext_one_regressor q"
  define dat where "dat = \<lparr>dat_n = 3, dat_p = 1, dat_x = [3, 4, 0], dat_y = [3, 4, 7],
                       dat_w = [1, 1, 1], dat_wx = [0, 0, 0], dat_wy = [0, 0, 0],
                       dat_w_sqrt = [1, 1, 1 :: real]\<rparr>"
  define est where "est = \<lparr>est_resid = [0, 0, 0], est_beta = [0], est_dist = [0, 0, 9],
                       est_L = [0], est_xty = [0], est_sigma = 1\<rparr>"
  define work where "work = \<lparr>work_lwork = 1, work_iarray = [0, 0, 0], work_p = [Finite 0],
                        work_n = [0, 0, 0], work_np = [1, 0, 0], work_pp = [0],
                        work_dgels_work = [0 :: real]\<rparr>"
  define s0 where "s0 = \<lparr>ds_dat = dat, ds_work = work, ds_est = est,
            ds_subset0 = [1, 1, 0], ds_subset1 = [0, 0, 0], ds_m = 2\<rparr>"
  have arrays: "wbacon_reg_arrays ext [3, 4, 0] [3, 4, 7] [1, 1, 1] [0, 0, 0] [0]
     [1, 1, 0] [0, 0, 9] 3 1 2 1 = s0"
    by (simp add: wbacon_reg_arrays_def ext_def ext_one_regressor_def lapack_one_regressor_def
        fitwls_on_subset_def fitwls_def dgels_one_regressor_def int_of_double_def
        Let_def upt_0_3 numeral_3_eq_3 s0_def dat_def est_def work_def)
  define dat1 where "dat1 = dat\<lparr>dat_wx := [5, 4, 0], dat_wy := [1, 4, 0]\<rparr>"
  have fit: "ext_fitwls ext dat e [1, 1, 0] [0] 1 =
      (0, dat1, e\<lparr>est_beta := [1], est_resid := [0, 0, 7]\<rparr>, [0])"
    if "length (est_beta e) = 1" "length (est_resid e) = 3" for e
    using that
    by (simp add: ext_def ext_one_regressor_def lapack_one_regressor_def fitwls_on_subset_def
        fitwls_def dgels_one_regressor_def dgemv_reference_def fitwls_rank_deficient.simps
        sqrt_DBL_EPSILON sqrt_25 Memcpy_def Let_def upt_0_3 numeral_3_eq_3 lessThan_Suc
        dat_def dat1_def)
  have hm: "hat_matrix ext dat1 wk [5] h =
     (WBACON_ERROR_OK, wk\<lparr>work_pp := [1 / 5], work_np := [3 / 5, 4 / 5, 0]\<rparr>,
      [9 / 25, 16 / 25, 0])"
    if "length (work_pp wk) = 1" "length (work_np wk) = 3" "length h = 3" for wk h
  proof -
    from that(3) obtain a b c where h: "h = [a, b, c]"
      by (cases h; cases "tl h"; cases "tl (tl h)") auto
    show ?thesis
      using that(1,2) unfolding h
      by (simp add: hat_matrix_def ext_def ext_one_regressor_def lapack_one_regressor_def
          dat1_def dat_def Memcpy_def POWER2_def Let_def upt_0_3)
  qed
  have ti: "compute_ti ext dat1 wk e sb mm t =
     (WBACON_ERROR_OK, wk\<lparr>work_pp := [1 / 5], work_np := [3 / 5, 4 / 5, 0],
        work_n := [9 / 25, 16 / 25, 0]\<rparr>, [0, 0, 7])"
    if "length (work_pp wk) = 1" "length (work_np wk) = 3" "length (work_n wk) = 3"
      "est_L e = [5]" "est_resid e = [0, 0, 7]" "est_sigma e = 1" "length t = 3"
      "sb = [1, 1, 0]" for wk e sb mm t
  proof -
    from that(7) obtain a b c where t: "t = [a, b, c]"
      by (cases t; cases "tl t"; cases "tl (tl t)") auto
    have n3: "dat_n dat1 = 3"
      by (simp add: dat1_def dat_def)
    show ?thesis
      using that(4,5,6,8) unfolding t
      by (simp add: compute_ti_def hm[OF that(1,2,3)] n3 Let_def upt_0_3 sqrt_16_25)
  qed
  define est3 where "est3 = est\<lparr>est_beta := [1], est_resid := [0, 0, 7], est_L := [5],
      est_xty := [25], est_dist := [0, 0, 7]\<rparr>"
  define work3 where "work3 = work\<lparr>work_pp := [1 / 5], work_np := [3 / 5, 4 / 5, 0],
        work_n := [9 / 25, 16 / 25, 0]\<rparr>"
  have flds: "dat_n dat = 3" "dat_p dat = Suc 0" "dat_wx dat1 = [5, 4, 0]" "dat_n dat1 = 3"
    "dat_p dat1 = Suc 0" "dat_x dat1 = [3, 4, 0]" "dat_y dat1 = [3, 4, 7]"
    "est_L est = [0]" "est_xty est = [0]" "est_dist est = [0, 0, 9]" "est_sigma est = 1"
    "work_pp work = [0]" "work_np work = [1, 0, 0]" "work_n work = [0, 0, 0]"
    "work_dgels_work work = [0]" "work_lwork work = 1" "work_iarray work = [0, 0, 0]"
    "work_p work = [Finite 0]" "est_beta est = [0]" "est_resid est = [0, 0, 0]"
    by (simp_all add: dat_def dat1_def est_def work_def)
  have L: "extract_L 3 (Suc 0) [5, 4, 0] l = [5]" if "length l = 1" for l
  proof -
    from that obtain a where "l = [a]"
      by (cases l) auto
    then show ?thesis by (simp add: extract_L_def)
  qed
  have X: "initial_xty dat1 [1, 1, 0] [0] = [25]"
    by (simp add: initial_xty_def dat1_def dat_def upt_0_3)
  have init: "initial_reg ext dat work est [1, 1, 0] 2 =
      Some (WBACON_ERROR_OK, dat1, work3, est3, [1, 1, 0], 2)"
  proof -
    have f: "ext_fitwls ext dat est [1, 1, 0] [0] 1 =
      (0, dat1, est\<lparr>est_beta := [1], est_resid := [0, 0, 7]\<rparr>, [0])"
      using fit[of est] by (simp add: flds)
    have w: "work\<lparr>work_iarray := [0, 0, 0], work_dgels_work := [0]\<rparr> = work"
      by (simp add: work_def)
    show ?thesis
      by (simp add: initial_reg_def f Let_def flds L X ti w est3_def work3_def)
  qed
  have sel: "select_subset ext [0, 0, 7] [0, 0, 0] 2 3 = Some ([0, 0, 7], [1, 1, 0])"
    by (simp add: select_subset_def ext_def ext_one_regressor_def lapack_one_regressor_def
        sort_range_def array_get_def Let_def upt_0_3)
  define work4 where "work4 = work3\<lparr>work_pp := [5], work_np := [25, 4 / 5, 0]\<rparr>"
  have upd: "update_chol_xty dat1 work3 est3 [1, 1, 0] [1, 1, 0] =
      Some (WBACON_ERROR_OK, work4, est3)"
    by (simp add: update_chol_xty_def update_chol_xty_first_pass_def
        update_chol_xty_second_pass.simps finite_array_def Memcpy_def Let_def upt_0_3 flds
        est3_def work3_def work4_def est_def work_def)
  define s1 where "s1 = \<lparr>ds_dat = dat1, ds_work = work3, ds_est = est3,
            ds_subset0 = [1, 1, 0], ds_subset1 = [1, 1, 0], ds_m = 3\<rparr>"
  have refit: "algorithm_4_refit ext dat1 work4 est3 [1, 1, 0] [1, 1, 0] 2 =
      (WBACON_ERROR_OK, s1\<lparr>ds_m := 2\<rparr>)"
  proof -
    have b: "cholesky_reg ext [5] [25] [1] (Suc 0) = [1]"
      by (simp add: cholesky_reg_def ext_def ext_one_regressor_def lapack_one_regressor_def
          Memcpy_def Let_def)
    have g: "ext_dgemv ext 3 (Suc 0) (- 1) [3, 4, 0] [1] 1 [3, 4, 7] = [0, 0, 7]"
      by (simp add: ext_def ext_one_regressor_def lapack_one_regressor_def dgemv_reference_def
          upt_0_3)
    have e3: "est_L est3 = [5]" "est_xty est3 = [25]" "est_beta est3 = [1]"
      "est_resid est3 = [0, 0, 7]" "est_dist est3 = [0, 0, 7]" "est_sigma est3 = 1"
      by (simp_all add: est3_def est_def)
    have w4: "work_pp work4 = [5]" "work_np work4 = [25, 4 / 5, 0]"
      "work_n work4 = [9 / 25, 16 / 25, 0]"
      by (simp_all add: work4_def work3_def)
    have e: "est3\<lparr>est_beta := [1], est_resid := [0, 0, 7], est_dist := [0, 0, 7]\<rparr> = est3"
      by (simp add: est3_def)
    have w: "work4\<lparr>work_pp := [1 / 5], work_np := [3 / 5, 4 / 5, 0],
        work_n := [9 / 25, 16 / 25, 0]\<rparr> = work3"
      by (simp add: work4_def work3_def)
    show ?thesis
      by (simp add: algorithm_4_refit_def Let_def flds e3 b g Memcpy_def ti w4 e w s1_def)
  qed
  have alg4: "algorithm_4 ext 2 (s1\<lparr>ds_m := 2\<rparr>) = Some (WBACON_ERROR_OK, s1)"
    by (subst algorithm_4.simps)
       (simp add: s1_def upd refit[unfolded s1_def, simplified] Let_def flds)
  have e3d: "est3\<lparr>est_dist := [0, 0, 7]\<rparr> = est3"
    by (simp add: est3_def)
  have d3: "est_dist est3 = [0, 0, 7]"
    by (simp add: est3_def)
  have steps: "wbacon_reg_steps_0_1 ext 3 1 2 s0 = Some (WBACON_ERROR_OK, s1)"
    using alg4
    by (simp add: wbacon_reg_steps_0_1_def s0_def init Let_def d3 sel s1_def e3d)
  have c: "algorithm_5_cutoff ext alpha 1 (ds_m s1) = q (1 - alpha / 8) 2"
    by (simp add: algorithm_5_cutoff_def qt_def ext_def ext_one_regressor_def
        lapack_one_regressor_def s1_def)
  show ?thesis
    using steps c unfolding arrays[symmetric] ext_def
    by (intro exI[of _ s1]) (simp add: s1_def)
qed

section \<open>Algorithm 5 and the entry point: no convergence within the iterations allowed\<close>

lemma algorithm_5_loop_all_passes:
  "algorithm_5_passes ext alpha n p maxiter k iter s = Some s' \<Longrightarrow>
   int k = maxiter + 1 - iter \<or> (k = 0 \<and> maxiter < iter) \<Longrightarrow>
   algorithm_5_loop ext alpha n p maxiter iter s = (WBACON_ERROR_CONVERGENCE_FAILURE, s', maxiter)"
proof (induction k arbitrary: iter s)
  case 0
  then have "s' = s" and "maxiter < iter" by auto
  then show ?case by (simp add: algorithm_5_loop.simps)
next
  case (Suc k)
  from Suc.prems(2) have it: "iter \<le> maxiter" and k: "int k = maxiter + 1 - (iter + 1)"
    by auto
  from Suc.prems(1) obtain s1 where
    pass: "algorithm_5_pass ext alpha n p maxiter iter s = Inr s1"
    and rest: "algorithm_5_passes ext alpha n p maxiter k (iter + 1) s1 = Some s'"
    by (auto split: sum.splits)
  from k have "int k = maxiter + 1 - (iter + 1) \<or> (k = 0 \<and> maxiter < iter + 1)"
    by simp
  from Suc.IH[OF rest this] it pass show ?case
    by (subst algorithm_5_loop.simps) simp
qed

lemma algorithm_5_passes_last:
  "algorithm_5_passes ext alpha n p maxiter (Suc k) iter s = Some s' \<Longrightarrow>
   \<exists>s4. algorithm_5_passes ext alpha n p maxiter k iter s = Some s4 \<and>
        algorithm_5_pass ext alpha n p maxiter (iter + int k) s4 = Inr s'"
proof (induction k arbitrary: iter s)
  case 0
  then show ?case by (auto split: sum.splits)
next
  case (Suc k)
  from Suc.prems obtain s1 where
    pass: "algorithm_5_pass ext alpha n p maxiter iter s = Inr s1"
    and rest: "algorithm_5_passes ext alpha n p maxiter (Suc k) (iter + 1) s1 = Some s'"
    by (auto split: sum.splits)
  from Suc.IH[OF rest] obtain s4 where
    "algorithm_5_passes ext alpha n p maxiter k (iter + 1) s1 = Some s4"
    and "algorithm_5_pass ext alpha n p maxiter (iter + 1 + int k) s4 = Inr s'"
    by blast
  moreover have "iter + 1 + int k = iter + int (Suc k)"
    by simp
  ultimately show ?case
    using pass by (intro exI[of _ s4]) (simp del: of_nat_Suc)
qed

text \<open>
  C8. When STEP 0 and STEP 1 of \<^verbatim>\<open>wbacon_reg\<close> have succeeded and each of the \<open>maxiter\<close>
  passes of the loop of \<^verbatim>\<open>algorithm_5\<close> ends with a new subset that differs from the
  current one, then \<^verbatim>\<open>algorithm_5\<close> returns \<open>WBACON_ERROR_CONVERGENCE_FAILURE\<close>, and
  \<^verbatim>\<open>wbacon_reg\<close> returns with the success flag \<open>0\<close> and, in the buffers of its caller,
  the subset, its size, the coefficients, the residuals and the distances of the state
  \<open>s5\<close> at the end of the last pass (for \<open>maxiter \<ge> 1\<close> this state is what pass number
  \<open>maxiter\<close> produced); \<^verbatim>\<open>*maxiter\<close> is unchanged and \<open>x\<close> holds the copy of \<open>wx\<close>.
\<close>

theorem wbacon_reg_convergence_failure:
  assumes steps: "wbacon_reg_steps_0_1 ext n p collect
                    (wbacon_reg_arrays ext x y w resid beta subset0 dist0 n p m sigma0) =
                  Some (WBACON_ERROR_OK, s1)"
    and passes: "algorithm_5_passes ext alpha (dat_n (ds_dat s1)) (dat_p (ds_dat s1)) maxiter
                   (nat maxiter) 1
                   (s1\<lparr>ds_subset0 := ds_subset1 s1, ds_subset1 := ds_subset0 s1\<rparr>) = Some s5"
  shows "algorithm_5 ext alpha maxiter
           (s1\<lparr>ds_subset0 := ds_subset1 s1, ds_subset1 := ds_subset0 s1\<rparr>) =
           (WBACON_ERROR_CONVERGENCE_FAILURE, s5, maxiter) \<and>
         wbacon_reg ext x y w resid beta subset0 dist0 n p m collect alpha maxiter sigma0 =
           Some \<lparr>res_x = Memcpy (dat_x (ds_dat s5)) (dat_wx (ds_dat s5)) (n * p),
                 res_resid = est_resid (ds_est s5), res_beta = est_beta (ds_est s5),
                 res_subset0 = ds_subset1 s5, res_dist = est_dist (ds_est s5),
                 res_m = ds_m s5, res_success = 0, res_maxiter = maxiter\<rparr> \<and>
         (1 \<le> maxiter \<longrightarrow>
            (\<exists>s4. algorithm_5_pass ext alpha (dat_n (ds_dat s1)) (dat_p (ds_dat s1)) maxiter
                     maxiter s4 = Inr s5))"
proof -
  let ?s = "s1\<lparr>ds_subset0 := ds_subset1 s1, ds_subset1 := ds_subset0 s1\<rparr>"
  have "int (nat maxiter) = maxiter + 1 - 1 \<or> (nat maxiter = 0 \<and> maxiter < 1)"
    by auto
  from algorithm_5_loop_all_passes[OF passes this]
  have a5: "algorithm_5 ext alpha maxiter ?s = (WBACON_ERROR_CONVERGENCE_FAILURE, s5, maxiter)"
    by (simp add: algorithm_5_def)
  have reg: "wbacon_reg ext x y w resid beta subset0 dist0 n p m collect alpha maxiter sigma0 =
           Some \<lparr>res_x = Memcpy (dat_x (ds_dat s5)) (dat_wx (ds_dat s5)) (n * p),
                 res_resid = est_resid (ds_est s5), res_beta = est_beta (ds_est s5),
                 res_subset0 = ds_subset1 s5, res_dist = est_dist (ds_est s5),
                 res_m = ds_m s5, res_success = 0, res_maxiter = maxiter\<rparr>"
    by (simp add: wbacon_reg_def steps a5 wbacon_reg_result_def)
  have last: "\<exists>s4. algorithm_5_pass ext alpha (dat_n (ds_dat s1)) (dat_p (ds_dat s1)) maxiter
                     maxiter s4 = Inr s5" if "1 \<le> maxiter"
  proof -
    from that obtain k where k: "nat maxiter = Suc k"
      by (cases "nat maxiter") auto
    then have "1 + int k = maxiter" by linarith
    with algorithm_5_passes_last[OF passes[unfolded k]] show ?thesis
      by auto
  qed
  from a5 reg last show ?thesis by blast
qed

theorem wbacon_reg_convergence_failure_witness:
  "wbacon_reg (ext_one_regressor (\<lambda>prob df. 9)) [3, 4, 0] [3, 4, 7] [1, 1, 1] [0, 0, 0] [0]
     [1, 1, 0] [0, 0, 9] 3 1 2 2 (1 / 20) 1 1 =
   Some \<lparr>res_x = [5, 4, 0], res_resid = [0, 0, 7], res_beta = [1], res_subset0 = [1, 1, 1],
         res_dist = [0, 0, 7], res_m = 3, res_success = 0, res_maxiter = 1\<rparr>"
proof -
  define ext where "ext = ext_one_regressor (\<lambda>prob df. 9)"
  define dat where "dat = \<lparr>dat_n = 3, dat_p = 1, dat_x = [3, 4, 0], dat_y = [3, 4, 7],
                       dat_w = [1, 1, 1], dat_wx = [0, 0, 0], dat_wy = [0, 0, 0],
                       dat_w_sqrt = [1, 1, 1 :: real]\<rparr>"
  define est where "est = \<lparr>est_resid = [0, 0, 0], est_beta = [0], est_dist = [0, 0, 9],
                       est_L = [0], est_xty = [0], est_sigma = 1\<rparr>"
  define work where "work = \<lparr>work_lwork = 1, work_iarray = [0, 0, 0], work_p = [Finite 0],
                        work_n = [0, 0, 0], work_np = [1, 0, 0], work_pp = [0],
                        work_dgels_work = [0 :: real]\<rparr>"
  define s0 where "s0 = \<lparr>ds_dat = dat, ds_work = work, ds_est = est,
            ds_subset0 = [1, 1, 0], ds_subset1 = [0, 0, 0], ds_m = 2\<rparr>"
  have arrays: "wbacon_reg_arrays ext [3, 4, 0] [3, 4, 7] [1, 1, 1] [0, 0, 0] [0]
     [1, 1, 0] [0, 0, 9] 3 1 2 1 = s0"
    by (simp add: wbacon_reg_arrays_def ext_def ext_one_regressor_def lapack_one_regressor_def
        fitwls_on_subset_def fitwls_def dgels_one_regressor_def int_of_double_def
        Let_def upt_0_3 numeral_3_eq_3 s0_def dat_def est_def work_def)
  define dat1 where "dat1 = dat\<lparr>dat_wx := [5, 4, 0], dat_wy := [1, 4, 0]\<rparr>"
  define est1 where "est1 = est\<lparr>est_beta := [1], est_resid := [0, 0, 7]\<rparr>"
  have fit: "ext_fitwls ext dat e [1, 1, 0] [0] 1 =
      (0, dat1, e\<lparr>est_beta := [1], est_resid := [0, 0, 7]\<rparr>, [0])"
    if "length (est_beta e) = 1" "length (est_resid e) = 3" for e
    using that
    by (simp add: ext_def ext_one_regressor_def lapack_one_regressor_def fitwls_on_subset_def
        fitwls_def dgels_one_regressor_def dgemv_reference_def fitwls_rank_deficient.simps
        sqrt_DBL_EPSILON sqrt_25 Memcpy_def Let_def upt_0_3 numeral_3_eq_3 lessThan_Suc
        dat_def dat1_def)
  have hm: "hat_matrix ext dat1 wk [5] h =
     (WBACON_ERROR_OK, wk\<lparr>work_pp := [1 / 5], work_np := [3 / 5, 4 / 5, 0]\<rparr>,
      [9 / 25, 16 / 25, 0])"
    if "length (work_pp wk) = 1" "length (work_np wk) = 3" "length h = 3" for wk h
  proof -
    from that(3) obtain a b c where h: "h = [a, b, c]"
      by (cases h; cases "tl h"; cases "tl (tl h)") auto
    show ?thesis
      using that(1,2) unfolding h
      by (simp add: hat_matrix_def ext_def ext_one_regressor_def lapack_one_regressor_def
          dat1_def dat_def Memcpy_def POWER2_def Let_def upt_0_3)
  qed
  have ti: "compute_ti ext dat1 wk e sb mm t =
     (WBACON_ERROR_OK, wk\<lparr>work_pp := [1 / 5], work_np := [3 / 5, 4 / 5, 0],
        work_n := [9 / 25, 16 / 25, 0]\<rparr>, [0, 0, 7])"
    if "length (work_pp wk) = 1" "length (work_np wk) = 3" "length (work_n wk) = 3"
      "est_L e = [5]" "est_resid e = [0, 0, 7]" "est_sigma e = 1" "length t = 3"
      "sb = [1, 1, 0]" for wk e sb mm t
  proof -
    from that(7) obtain a b c where t: "t = [a, b, c]"
      by (cases t; cases "tl t"; cases "tl (tl t)") auto
    have n3: "dat_n dat1 = 3"
      by (simp add: dat1_def dat_def)
    show ?thesis
      using that(4,5,6,8) unfolding t
      by (simp add: compute_ti_def hm[OF that(1,2,3)] n3 Let_def upt_0_3 sqrt_16_25)
  qed
  define est3 where "est3 = est\<lparr>est_beta := [1], est_resid := [0, 0, 7], est_L := [5],
      est_xty := [25], est_dist := [0, 0, 7]\<rparr>"
  define work3 where "work3 = work\<lparr>work_pp := [1 / 5], work_np := [3 / 5, 4 / 5, 0],
        work_n := [9 / 25, 16 / 25, 0]\<rparr>"
  have flds: "dat_n dat = 3" "dat_p dat = Suc 0" "dat_wx dat1 = [5, 4, 0]" "dat_n dat1 = 3"
    "dat_p dat1 = Suc 0" "dat_x dat1 = [3, 4, 0]" "dat_y dat1 = [3, 4, 7]"
    "est_L est = [0]" "est_xty est = [0]" "est_dist est = [0, 0, 9]" "est_sigma est = 1"
    "work_pp work = [0]" "work_np work = [1, 0, 0]" "work_n work = [0, 0, 0]"
    "work_dgels_work work = [0]" "work_lwork work = 1" "work_iarray work = [0, 0, 0]"
    "work_p work = [Finite 0]" "est_beta est = [0]" "est_resid est = [0, 0, 0]"
    by (simp_all add: dat_def dat1_def est_def work_def)
  have L: "extract_L 3 (Suc 0) [5, 4, 0] l = [5]" if "length l = 1" for l
  proof -
    from that obtain a where "l = [a]"
      by (cases l) auto
    then show ?thesis by (simp add: extract_L_def)
  qed
  have X: "initial_xty dat1 [1, 1, 0] [0] = [25]"
    by (simp add: initial_xty_def dat1_def dat_def upt_0_3)
  have init: "initial_reg ext dat work est [1, 1, 0] 2 =
      Some (WBACON_ERROR_OK, dat1, work3, est3, [1, 1, 0], 2)"
  proof -
    have f: "ext_fitwls ext dat est [1, 1, 0] [0] 1 =
      (0, dat1, est\<lparr>est_beta := [1], est_resid := [0, 0, 7]\<rparr>, [0])"
      using fit[of est] by (simp add: flds)
    have w: "work\<lparr>work_iarray := [0, 0, 0], work_dgels_work := [0]\<rparr> = work"
      by (simp add: work_def)
    show ?thesis
      by (simp add: initial_reg_def f Let_def flds L X ti w est3_def work3_def)
  qed
  have sel: "select_subset ext [0, 0, 7] [0, 0, 0] 2 3 = Some ([0, 0, 7], [1, 1, 0])"
    by (simp add: select_subset_def ext_def ext_one_regressor_def lapack_one_regressor_def
        sort_range_def array_get_def Let_def upt_0_3)
  define work4 where "work4 = work3\<lparr>work_pp := [5], work_np := [25, 4 / 5, 0]\<rparr>"
  have upd: "update_chol_xty dat1 work3 est3 [1, 1, 0] [1, 1, 0] =
      Some (WBACON_ERROR_OK, work4, est3)"
    by (simp add: update_chol_xty_def update_chol_xty_first_pass_def
        update_chol_xty_second_pass.simps finite_array_def Memcpy_def Let_def upt_0_3 flds
        est3_def work3_def work4_def est_def work_def)
  define s1 where "s1 = \<lparr>ds_dat = dat1, ds_work = work3, ds_est = est3,
            ds_subset0 = [1, 1, 0], ds_subset1 = [1, 1, 0], ds_m = 3\<rparr>"
  have refit: "algorithm_4_refit ext dat1 work4 est3 [1, 1, 0] [1, 1, 0] 2 =
      (WBACON_ERROR_OK, s1\<lparr>ds_m := 2\<rparr>)"
  proof -
    have b: "cholesky_reg ext [5] [25] [1] (Suc 0) = [1]"
      by (simp add: cholesky_reg_def ext_def ext_one_regressor_def lapack_one_regressor_def
          Memcpy_def Let_def)
    have g: "ext_dgemv ext 3 (Suc 0) (- 1) [3, 4, 0] [1] 1 [3, 4, 7] = [0, 0, 7]"
      by (simp add: ext_def ext_one_regressor_def lapack_one_regressor_def dgemv_reference_def
          upt_0_3)
    have e3: "est_L est3 = [5]" "est_xty est3 = [25]" "est_beta est3 = [1]"
      "est_resid est3 = [0, 0, 7]" "est_dist est3 = [0, 0, 7]" "est_sigma est3 = 1"
      by (simp_all add: est3_def est_def)
    have w4: "work_pp work4 = [5]" "work_np work4 = [25, 4 / 5, 0]"
      "work_n work4 = [9 / 25, 16 / 25, 0]"
      by (simp_all add: work4_def work3_def)
    have e: "est3\<lparr>est_beta := [1], est_resid := [0, 0, 7], est_dist := [0, 0, 7]\<rparr> = est3"
      by (simp add: est3_def)
    have w: "work4\<lparr>work_pp := [1 / 5], work_np := [3 / 5, 4 / 5, 0],
        work_n := [9 / 25, 16 / 25, 0]\<rparr> = work3"
      by (simp add: work4_def work3_def)
    show ?thesis
      by (simp add: algorithm_4_refit_def Let_def flds e3 b g Memcpy_def ti w4 e w s1_def)
  qed
  have alg4: "algorithm_4 ext 2 (s1\<lparr>ds_m := 2\<rparr>) = Some (WBACON_ERROR_OK, s1)"
    by (subst algorithm_4.simps)
       (simp add: s1_def upd refit[unfolded s1_def, simplified] Let_def flds)
  have e3d: "est3\<lparr>est_dist := [0, 0, 7]\<rparr> = est3"
    by (simp add: est3_def)
  have d3: "est_dist est3 = [0, 0, 7]"
    by (simp add: est3_def)
  have steps: "wbacon_reg_steps_0_1 ext 3 1 2 s0 = Some (WBACON_ERROR_OK, s1)"
    using alg4
    by (simp add: wbacon_reg_steps_0_1_def s0_def init Let_def d3 sel s1_def e3d)
  define s5 where "s5 = s1\<lparr>ds_subset0 := [1, 1, 1], ds_subset1 := [1, 1, 1]\<rparr>"
  have pass: "algorithm_5_pass ext (1 / 20) 3 (Suc 0) 1 1 s1 = Inr s5"
  proof -
    have f: "ext_fitwls ext dat1 est3 [1, 1, 0] [0] 1 = (0, dat1, est3, [0])"
    proof -
      have "ext_fitwls ext dat1 est3 [1, 1, 0] [0] 1 =
          (0, dat1\<lparr>dat_wx := [5, 4, 0], dat_wy := [1, 4, 0]\<rparr>,
           est3\<lparr>est_beta := [1], est_resid := [0, 0, 7]\<rparr>, [0])"
        by (simp add: ext_def ext_one_regressor_def lapack_one_regressor_def
            fitwls_on_subset_def fitwls_def dgels_one_regressor_def dgemv_reference_def
            fitwls_rank_deficient.simps sqrt_DBL_EPSILON sqrt_25 Memcpy_def Let_def upt_0_3
            numeral_3_eq_3 lessThan_Suc dat_def dat1_def est3_def est_def)
      then show ?thesis
        by (simp add: dat1_def est3_def)
    qed
    have w3: "work_dgels_work work3 = [0]" "work_lwork work3 = 1" "work_pp work3 = [1 / 5]"
      "work_np work3 = [3 / 5, 4 / 5, 0]" "work_n work3 = [9 / 25, 16 / 25, 0]"
      by (simp_all add: work3_def work_def)
    have w: "work3\<lparr>work_dgels_work := [0]\<rparr> = work3"
      "work3\<lparr>work_pp := [1 / 5], work_np := [3 / 5, 4 / 5, 0],
        work_n := [9 / 25, 16 / 25, 0]\<rparr> = work3"
      by (simp_all add: work3_def work_def)
    have e3: "est_L est3 = [5]" "est_resid est3 = [0, 0, 7]" "est_sigma est3 = 1"
      "est3\<lparr>est_L := [5]\<rparr> = est3" "est3\<lparr>est_dist := [0, 0, 7]\<rparr> = est3"
      by (simp_all add: est3_def est_def)
    have c: "algorithm_5_cutoff ext (1 / 20) (Suc 0) 3 = 9"
      by (simp add: algorithm_5_cutoff_def qt_def ext_def ext_one_regressor_def
          lapack_one_regressor_def)
    have ns: "algorithm_5_new_subset 3 [0, 0, 7] 9 [1, 1, 0] = ([1, 1, 1], 3)"
      by (simp add: algorithm_5_new_subset_def upt_0_3)
    have fd: "first_difference 3 [1, 1, 0] [1, 1, 1] 0 \<noteq> 3"
      by (simp add: first_difference.simps)
    show ?thesis
      by (simp add: algorithm_5_pass_def s1_def f w3 w e3 L flds d3 ti c ns fd Let_def
          Memcpy_def s5_def)
  qed
  have s1sw: "s1\<lparr>ds_subset0 := ds_subset1 s1, ds_subset1 := ds_subset0 s1\<rparr> = s1"
    by (simp add: s1_def)
  have passes: "algorithm_5_passes ext (1 / 20) (dat_n (ds_dat s1)) (dat_p (ds_dat s1)) 1
                   (nat 1) 1 (s1\<lparr>ds_subset0 := ds_subset1 s1, ds_subset1 := ds_subset0 s1\<rparr>)
                 = Some s5"
    unfolding s1sw using pass by (simp add: s1_def flds)
  from wbacon_reg_convergence_failure[OF steps[folded arrays] passes]
  have "wbacon_reg ext [3, 4, 0] [3, 4, 7] [1, 1, 1] [0, 0, 0] [0] [1, 1, 0] [0, 0, 9] 3 1 2 2
          (1 / 20) 1 1 =
        Some \<lparr>res_x = Memcpy (dat_x (ds_dat s5)) (dat_wx (ds_dat s5)) (3 * 1),
                 res_resid = est_resid (ds_est s5), res_beta = est_beta (ds_est s5),
                 res_subset0 = ds_subset1 s5, res_dist = est_dist (ds_est s5),
                 res_m = ds_m s5, res_success = 0, res_maxiter = 1\<rparr>"
    by blast
  then show ?thesis
    by (simp add: s5_def s1_def est3_def est_def dat1_def dat_def Memcpy_def ext_def)
qed

section \<open>Selecting the subset: the array is rearranged before it is compared\<close>

lemma sort_3_1_2: "sort [3, 1, 2 :: real] = [1, 2, 3]"
  by simp

lemma rearranged_3_1_2:
  fixes xs :: "real list"
  assumes "sort xs = [1, 2, 3]" and "xs ! 0 = 1"
  shows "xs = [1, 2, 3] \<or> xs = [1, 3, 2]"
proof -
  have "length (sort xs) = 3"
    using assms(1) by simp
  then have len: "length xs = 3"
    by simp
  then obtain a b c where xs: "xs = [a, b, c]"
    by (cases xs; cases "tl xs"; cases "tl (tl xs)") auto
  with assms(2) have a: "a = 1" by simp
  have "set (sort xs) = {1, 2, 3}"
    using assms(1) by simp
  then have "set xs = {1, 2, 3}"
    by simp
  with xs a have bc: "{1, b, c} = {1, 2, 3}" by simp
  have "distinct (sort xs)"
    using assms(1) by simp
  then have "distinct xs"
    by simp
  with xs a have ne: "b \<noteq> 1" "c \<noteq> 1" "b \<noteq> c" by auto
  from bc have "b \<in> {1, 2, 3}" and "c \<in> {1, 2, 3}" by auto
  with ne have "(b = 2 \<and> c = 3) \<or> (b = 3 \<and> c = 2)"
    by auto
  with xs a show ?thesis by auto
qed

text \<open>
  C5. \<^verbatim>\<open>select_subset\<close> compares with the threshold the entries of the array as
  \<^verbatim>\<open>select_k\<close> has left it, so the subset marks positions of the rearranged array, not
  the observations whose distances were passed in. For the distances \<open>[3, 1, 2]\<close> of the
  observations \<open>0, 1, 2\<close> and \<open>m = 1\<close>, whatever selection routine is used, the subset
  returned is \<open>[1, 0, 0]\<close>: it marks observation \<open>0\<close>, whose distance \<open>3\<close> is the
  largest, and not observation \<open>1\<close>, the only one whose distance is at most the smallest
  distance \<open>1\<close>.
\<close>

theorem select_subset_marks_rearranged_positions:
  assumes "select_k_contract (ext_select_k ext)"
  shows "\<exists>x'. select_subset ext [3, 1, 2] [0, 0, 0] 1 3 = Some (x', [1, 0, 0])"
proof -
  define x' where "x' = ext_select_k ext [3, 1, 2] 0 2 0"
  from assms have "\<forall>x k. 0 \<le> k \<and> k < int (length x) \<longrightarrow>
        sort (ext_select_k ext x 0 (int (length x) - 1) k) = sort x \<and>
        ext_select_k ext x 0 (int (length x) - 1) k ! nat k = sort x ! nat k"
    by (simp only: select_k_contract_def)
  then have "0 \<le> (0::int) \<and> (0::int) < int (length [3, 1, 2 :: real]) \<longrightarrow>
        sort (ext_select_k ext [3, 1, 2] 0 (int (length [3, 1, 2 :: real]) - 1) 0) = sort [3, 1, 2] \<and>
        ext_select_k ext [3, 1, 2] 0 (int (length [3, 1, 2 :: real]) - 1) 0 ! nat 0 =
          sort [3, 1, 2] ! nat 0"
    by blast
  then have "sort x' = [1, 2, 3]" and "x' ! 0 = 1"
    by (simp_all add: x'_def)
  from rearranged_3_1_2[OF this] have "x' = [1, 2, 3] \<or> x' = [1, 3, 2]" .
  then have "select_subset ext [3, 1, 2] [0, 0, 0] 1 3 = Some (x', [1, 0, 0])"
    by (auto simp: select_subset_def x'_def[symmetric] array_get_def Let_def upt_0_3)
  then show ?thesis by blast
qed

theorem select_subset_marks_rearranged_positions_witness:
  "select_k_contract (ext_select_k (ext_one_regressor (\<lambda>prob df. 9))) \<and>
   select_subset (ext_one_regressor (\<lambda>prob df. 9)) [3, 1, 2] [0, 0, 0] 1 3 =
     Some ([1, 2, 3], [1, 0, 0])"
proof -
  define ext where "ext = ext_one_regressor (\<lambda>prob df. 9)"
  have sel: "ext_select_k ext = (\<lambda>x lo hi k. sort_range x lo hi)"
    by (simp add: ext_def ext_one_regressor_def lapack_one_regressor_def)
  have c: "select_k_contract (ext_select_k ext)"
    unfolding sel select_k_contract_def sort_range_def
    by (simp add: sorted_sort_id)
  from select_subset_marks_rearranged_positions[OF c]
  obtain x' where r: "select_subset ext [3, 1, 2] [0, 0, 0] 1 3 = Some (x', [1, 0, 0])"
    by blast
  moreover have "fst (the (select_subset ext [3, 1, 2] [0, 0, 0] 1 3)) = [1, 2, 3]"
    by (simp add: select_subset_def sel sort_range_def array_get_def Let_def)
  ultimately have "x' = [1, 2, 3]" by simp
  with r c show ?thesis unfolding ext_def by simp
qed


end
